(* ===== verification/Prelude.thy ===== *)
theory Prelude
  imports Main
begin

text \<open>
  The prelude of the development: the collections of facts the component theories extend,
  the names of the types every component shares, and generic lemmas on lists, results and
  sums that no single component owns.

  Conventions used throughout:
  \<^item> a Go function that returns \<open>(T, error)\<close> is a HOL function into \<open>'e + 't\<close>, with
    \<open>Inl\<close> for the error and \<open>Inr\<close> for the value;
  \<^item> a Go method that mutates its receiver takes the receiver's record and returns it updated;
  \<^item> a Go \<open>string\<close> is a list of bytes, the HOL type \<^typ>\<open>string\<close> (a \<^typ>\<open>char\<close> is
    a byte), and code points are read out of it by the UTF-8 decoder of theory
    \<open>GoStrings\<close>;
  \<^item> a Go \<open>map\<close> used as a set is a HOL set or a duplicate-free list.
\<close>

section \<open>Collections of facts\<close>

named_theorems decode_simps \<open>evaluation of the string, codec and number routines of the Go library\<close>
named_theorems room_simps \<open>facts about canonical room names\<close>
named_theorems frame_simps \<open>fields that an operation leaves unchanged\<close>
named_theorems inv_intros \<open>operations that keep a component's invariant\<close>

section \<open>Results\<close>

type_synonym ('e, 'a) result = "'e + 'a"

definition is_ok :: "('e, 'a) result \<Rightarrow> bool" where
  "is_ok r \<longleftrightarrow> (case r of Inl _ \<Rightarrow> False | Inr _ \<Rightarrow> True)"

lemma is_ok_simps [simp]: "is_ok (Inr a)" "\<not> is_ok (Inl e)"
  by (simp_all add: is_ok_def)

lemma is_ok_iff: "is_ok r \<longleftrightarrow> (\<exists>a. r = Inr a)"
  by (cases r) auto

lemma not_ok_iff: "\<not> is_ok r \<longleftrightarrow> (\<exists>e. r = Inl e)"
  by (cases r) auto

text \<open>A chain of guards and fallible calls succeeds exactly when each link does.\<close>

lemma guard_ok: "(if b then Inl e else r) = Inr y \<longleftrightarrow> \<not> b \<and> r = Inr y"
  by simp

lemma option_ok: "(case x of None \<Rightarrow> Inl e | Some a \<Rightarrow> f a) = Inr y \<longleftrightarrow> (\<exists>a. x = Some a \<and> f a = Inr y)"
  by (cases x) auto

lemma pair_ok: "(case x of (a, b) \<Rightarrow> f a b) = Inr y \<longleftrightarrow> (\<exists>a b. x = (a, b) \<and> f a b = Inr y)"
  by (cases x) auto

lemma result_ok: "(case x of Inl e \<Rightarrow> Inl (g e) | Inr a \<Rightarrow> f a) = Inr y \<longleftrightarrow> (\<exists>a. x = Inr a \<and> f a = Inr y)"
  by (cases x) auto

lemmas ok_chain = guard_ok option_ok pair_ok result_ok

section \<open>Lists\<close>

text \<open>The last \<open>n\<close> elements of a list: a page taken from the newest end.\<close>

definition lastn :: "nat \<Rightarrow> 'a list \<Rightarrow> 'a list" where
  "lastn n xs = drop (length xs - n) xs"

lemma length_lastn [simp]: "length (lastn n xs) = min n (length xs)"
  by (simp add: lastn_def)

lemma set_lastn: "set (lastn n xs) \<subseteq> set xs"
  by (simp add: lastn_def set_drop_subset)

lemma lastn_all: "length xs \<le> n \<Longrightarrow> lastn n xs = xs"
  by (simp add: lastn_def)

lemma lastn_rev_take: "rev (take n (rev xs)) = lastn n xs"
  by (simp add: lastn_def take_rev)

lemma drop_split_lastn: "xs = take (length xs - n) xs @ lastn n xs"
  by (simp add: lastn_def)

lemma lastn_append_whole: "length ys = n \<Longrightarrow> lastn n (xs @ ys) = ys"
  by (simp add: lastn_def)

lemma lastn_lastn: "m \<le> n \<Longrightarrow> lastn m (lastn n xs) = lastn m xs"
  by (cases "n \<le> length xs") (simp_all add: lastn_def)

text \<open>
  The in-place reversal loop
  \<open>for i, j := 0, len(xs)-1; i < j; i, j = i+1, j-1 { xs[i], xs[j] = xs[j], xs[i] }\<close>
  as the Go code writes it, and that it reverses the slice.
\<close>

function swap_loop :: "nat \<Rightarrow> nat \<Rightarrow> 'a list \<Rightarrow> 'a list" where
  "swap_loop i j xs =
     (if i < j then swap_loop (i + 1) (j - 1) (xs[i := xs ! j, j := xs ! i]) else xs)"
  by pat_completeness auto
termination
  by (relation "measure (\<lambda>(i, j, xs). j - i)") auto

declare swap_loop.simps [simp del]

lemma swap_loop_length [simp]: "length (swap_loop i j xs) = length xs"
proof (induction i j xs rule: swap_loop.induct)
  case (1 i j xs)
  then show ?case by (cases "i < j") (simp_all add: swap_loop.simps [of i j xs])
qed

lemma swap_loop_nth:
  "j < length xs \<Longrightarrow> k < length xs \<Longrightarrow>
     swap_loop i j xs ! k = (if i \<le> k \<and> k \<le> j then xs ! (i + j - k) else xs ! k)"
proof (induction i j xs arbitrary: k rule: swap_loop.induct)
  case (1 i j xs)
  show ?case
  proof (cases "i < j")
    case True
    let ?ys = "xs[i := xs ! j, j := xs ! i]"
    have len: "length ?ys = length xs" by simp
    have ih: "swap_loop (i + 1) (j - 1) ?ys ! k =
        (if i + 1 \<le> k \<and> k \<le> j - 1 then ?ys ! (i + 1 + (j - 1) - k) else ?ys ! k)"
      using "1.IH" [OF True, of k] "1.prems" by simp
    have "i + 1 + (j - 1) = i + j" using True by simp
    with ih show ?thesis
      using True "1.prems" by (auto simp: swap_loop.simps [of i j xs] nth_list_update)
  next
    case False
    then have "i \<le> k \<Longrightarrow> k \<le> j \<Longrightarrow> i + j - k = k" by simp
    with False show ?thesis by (auto simp: swap_loop.simps [of i j xs])
  qed
qed

definition reverse_in_place :: "'a list \<Rightarrow> 'a list" where
  "reverse_in_place xs = (case xs of [] \<Rightarrow> [] | _ \<Rightarrow> swap_loop 0 (length xs - 1) xs)"

lemma reverse_in_place_rev: "reverse_in_place xs = rev xs"
proof (cases xs)
  case Nil
  then show ?thesis by (simp add: reverse_in_place_def)
next
  case (Cons y ys)
  have "swap_loop 0 (length xs - 1) xs = rev xs"
    by (rule nth_equalityI) (use Cons in \<open>simp_all add: swap_loop_nth rev_nth del: rev.simps\<close>)
  with Cons show ?thesis by (simp add: reverse_in_place_def)
qed

text \<open>Sorted lists of keys: a strictly increasing list is cut in two by any of its members.\<close>

lemma sorted_wrt_cut:
  fixes f :: "'a \<Rightarrow> 'k::linorder"
  assumes "sorted_wrt (\<lambda>x y. f x < f y) (xs @ y # ys)"
  shows "filter (\<lambda>z. f z < f y) (xs @ y # ys) = xs"
proof -
  have "\<forall>z \<in> set xs. f z < f y" and "\<forall>z \<in> set ys. \<not> f z < f y"
    using assms by (auto simp: sorted_wrt_append dest: less_asym)
  then show ?thesis by simp
qed

lemma sorted_wrt_keys_unique:
  fixes f :: "'a \<Rightarrow> 'k::linorder"
  assumes "sorted_wrt (\<lambda>x y. f x < f y) xs" "sorted_wrt (\<lambda>x y. f x < f y) ys" "set xs = set ys"
  shows "xs = ys"
proof -
  have "sorted (map f xs)" "sorted (map f ys)" "distinct (map f xs)" "distinct (map f ys)"
    using assms(1,2) strict_sorted_iff [of "map f xs"] strict_sorted_iff [of "map f ys"]
    by (simp_all add: sorted_wrt_map)
  moreover have "inj_on f (set xs)"
    using \<open>distinct (map f xs)\<close> by (simp add: distinct_map)
  moreover have "map f xs = map f ys"
    using calculation assms(3) by (intro sorted_distinct_set_unique) simp_all
  ultimately show ?thesis
    using assms(3) by (simp add: inj_on_map_eq_map)
qed

text \<open>Selecting before an injective map is selecting after it.\<close>

lemma map_filter_inj:
  assumes "inj_on f (set xs)"
  shows "map f (filter Q xs) = filter (\<lambda>y. \<exists>x \<in> set xs. f x = y \<and> Q x) (map f xs)"
proof -
  have "filter Q xs = filter ((\<lambda>y. \<exists>x \<in> set xs. f x = y \<and> Q x) \<circ> f) xs"
    using assms by (intro filter_cong) (auto dest: inj_onD)
  then show ?thesis by (simp add: filter_map)
qed

end
