(* ===== verification/GoStrings.thy ===== *)
theory GoStrings
  imports Prelude
begin

text \<open>
  The part of Go's string library that the repository uses, over byte strings: UTF-8
  decoding and encoding as \<open>unicode/utf8\<close> does it (an invalid byte decodes to
  \<open>RuneError\<close> and consumes one byte), \<open>strings.TrimSpace\<close>, \<open>strings.ToLower\<close>,
  \<open>strings.EqualFold\<close>, \<open>strings.Cut\<close>, \<open>strings.Split\<close>,
  \<open>strings.ContainsAny\<close>, \<open>strconv.Atoi\<close>, \<open>strconv.ParseInt\<close> and
  \<open>strconv.Itoa\<close>. The repository counts runes in some limits (user names, message
  bodies, rooms) and bytes in others (tokens, user identifiers, cookies), so both views are
  kept.
\<close>

section \<open>Bytes and runes\<close>

type_synonym rune = nat

abbreviation byte :: "char \<Rightarrow> nat" where
  "byte c \<equiv> of_char c"

definition RuneError :: rune where
  "RuneError = 65533"

definition cont_byte :: "nat \<Rightarrow> bool" where
  "cont_byte b \<longleftrightarrow> 128 \<le> b \<and> b \<le> 191"

text \<open>
  The second byte of a three- and of a four-byte sequence has a narrower range after the
  first bytes \<open>E0\<close>, \<open>ED\<close>, \<open>F0\<close> and \<open>F4\<close>: no overlong forms, no
  surrogates, nothing above \<open>10FFFF\<close>.
\<close>

definition accept3 :: "nat \<Rightarrow> nat \<Rightarrow> bool" where
  "accept3 b0 b1 \<longleftrightarrow> (if b0 = 224 then 160 else 128) \<le> b1 \<and> b1 \<le> (if b0 = 237 then 159 else 191)"

definition accept4 :: "nat \<Rightarrow> nat \<Rightarrow> bool" where
  "accept4 b0 b1 \<longleftrightarrow> (if b0 = 240 then 144 else 128) \<le> b1 \<and> b1 \<le> (if b0 = 244 then 143 else 191)"

definition DecodeRune :: "nat list \<Rightarrow> rune \<times> nat" where
  "DecodeRune bs = (case bs of
       [] \<Rightarrow> (RuneError, 0)
     | b0 # r0 \<Rightarrow>
        if b0 < 128 then (b0, 1)
        else if 194 \<le> b0 \<and> b0 \<le> 223 then
          (case r0 of
             b1 # _ \<Rightarrow> if cont_byte b1 then ((b0 - 192) * 64 + (b1 - 128), 2) else (RuneError, 1)
           | _ \<Rightarrow> (RuneError, 1))
        else if 224 \<le> b0 \<and> b0 \<le> 239 then
          (case r0 of
             b1 # b2 # _ \<Rightarrow>
               if accept3 b0 b1 \<and> cont_byte b2
               then ((b0 - 224) * 4096 + (b1 - 128) * 64 + (b2 - 128), 3) else (RuneError, 1)
           | _ \<Rightarrow> (RuneError, 1))
        else if 240 \<le> b0 \<and> b0 \<le> 244 then
          (case r0 of
             b1 # b2 # b3 # _ \<Rightarrow>
               if accept4 b0 b1 \<and> cont_byte b2 \<and> cont_byte b3
               then ((b0 - 240) * 262144 + (b1 - 128) * 4096 + (b2 - 128) * 64 + (b3 - 128), 4)
               else (RuneError, 1)
           | _ \<Rightarrow> (RuneError, 1))
        else (RuneError, 1))"

text \<open>A string cut into its runes, each with the bytes it was decoded from.\<close>

fun segs :: "string \<Rightarrow> (rune \<times> string) list" where
  "segs [] = []"
| "segs (c # cs) =
     (let (r, n) = DecodeRune (map byte (c # cs))
      in (r, c # take (n - 1) cs) # segs (drop (n - 1) cs))"

definition runes :: "string \<Rightarrow> rune list" where
  "runes s = map fst (segs s)"

definition RuneCountInString :: "string \<Rightarrow> nat" where
  "RuneCountInString s = length (segs s)"

definition valid_rune :: "rune \<Rightarrow> bool" where
  "valid_rune r \<longleftrightarrow> r < 55296 \<or> 57344 \<le> r \<and> r < 1114112"

definition EncodeRune :: "rune \<Rightarrow> nat list" where
  "EncodeRune r =
     (if r < 128 then [r]
      else if r < 2048 then [192 + r div 64, 128 + r mod 64]
      else if \<not> valid_rune r then [239, 191, 189]
      else if r < 65536 then [224 + r div 4096, 128 + r div 64 mod 64, 128 + r mod 64]
      else [240 + r div 262144, 128 + r div 4096 mod 64, 128 + r div 64 mod 64, 128 + r mod 64])"

text \<open>The conversion \<open>string(runes)\<close>.\<close>

definition string_of_runes :: "rune list \<Rightarrow> string" where
  "string_of_runes rs = concat (map (\<lambda>r. map char_of (EncodeRune r)) rs)"

section \<open>Trimming\<close>

definition IsSpace :: "rune \<Rightarrow> bool" where
  "IsSpace r \<longleftrightarrow> 9 \<le> r \<and> r \<le> 13 \<or> r = 32 \<or> r = 133 \<or> r = 160 \<or> r = 5760 \<or>
     8192 \<le> r \<and> r \<le> 8202 \<or> r = 8232 \<or> r = 8233 \<or> r = 8239 \<or> r = 8287 \<or> r = 12288"

definition trim_ends :: "('a \<Rightarrow> bool) \<Rightarrow> 'a list \<Rightarrow> 'a list" where
  "trim_ends p xs = rev (dropWhile p (rev (dropWhile p xs)))"

definition TrimSpace :: "string \<Rightarrow> string" where
  "TrimSpace s = concat (map snd (trim_ends (\<lambda>(r, _). IsSpace r) (segs s)))"

section \<open>Case mapping\<close>

text \<open>
  \<open>unicode.ToLower\<close> on the code points above ASCII, from the Unicode simple lower-case
  mapping: \<open>(lo, hi, step, delta)\<close> maps \<open>lo, lo + step, \<dots>, hi\<close> by adding
  \<open>delta\<close>.
\<close>

definition lower_ranges :: "(nat \<times> nat \<times> nat \<times> int) list" where
  "lower_ranges = [
    (192, 214, 1, 32), (216, 222, 1, 32), (256, 302, 2, 1), (304, 304, 1, - 199),
    (306, 310, 2, 1), (313, 327, 2, 1), (330, 374, 2, 1), (376, 376, 1, - 121),
    (377, 381, 2, 1), (385, 385, 1, 210), (386, 388, 2, 1), (390, 390, 1, 206),
    (391, 391, 1, 1), (393, 394, 1, 205), (395, 395, 1, 1), (398, 398, 1, 79),
    (399, 399, 1, 202), (400, 400, 1, 203), (401, 401, 1, 1), (403, 403, 1, 205),
    (404, 404, 1, 207), (406, 406, 1, 211), (407, 407, 1, 209), (408, 408, 1, 1),
    (412, 412, 1, 211), (413, 413, 1, 213), (415, 415, 1, 214), (416, 420, 2, 1),
    (422, 422, 1, 218), (423, 423, 1, 1), (425, 425, 1, 218), (428, 428, 1, 1),
    (430, 430, 1, 218), (431, 431, 1, 1), (433, 434, 1, 217), (435, 437, 2, 1),
    (439, 439, 1, 219), (440, 440, 1, 1), (444, 444, 1, 1), (452, 452, 1, 2), (453, 453, 1, 1),
    (455, 455, 1, 2), (456, 456, 1, 1), (458, 458, 1, 2), (459, 475, 2, 1), (478, 494, 2, 1),
    (497, 497, 1, 2), (498, 500, 2, 1), (502, 502, 1, - 97), (503, 503, 1, - 56),
    (504, 542, 2, 1), (544, 544, 1, - 130), (546, 562, 2, 1), (570, 570, 1, 10795),
    (571, 571, 1, 1), (573, 573, 1, - 163), (574, 574, 1, 10792), (577, 577, 1, 1),
    (579, 579, 1, - 195), (580, 580, 1, 69), (581, 581, 1, 71), (582, 590, 2, 1),
    (880, 882, 2, 1), (886, 886, 1, 1), (895, 895, 1, 116), (902, 902, 1, 38),
    (904, 906, 1, 37), (908, 908, 1, 64), (910, 911, 1, 63), (913, 929, 1, 32),
    (931, 939, 1, 32), (975, 975, 1, 8), (984, 1006, 2, 1), (1012, 1012, 1, - 60),
    (1015, 1015, 1, 1), (1017, 1017, 1, - 7), (1018, 1018, 1, 1), (1021, 1023, 1, - 130),
    (1024, 1039, 1, 80), (1040, 1071, 1, 32), (1120, 1152, 2, 1), (1162, 1214, 2, 1),
    (1216, 1216, 1, 15), (1217, 1229, 2, 1), (1232, 1326, 2, 1), (1329, 1366, 1, 48),
    (4256, 4293, 1, 7264), (4295, 4295, 1, 7264), (4301, 4301, 1, 7264),
    (5024, 5103, 1, 38864), (5104, 5109, 1, 8), (7312, 7354, 1, - 3008),
    (7357, 7359, 1, - 3008), (7680, 7828, 2, 1), (7838, 7838, 1, - 7615), (7840, 7934, 2, 1),
    (7944, 7951, 1, - 8), (7960, 7965, 1, - 8), (7976, 7983, 1, - 8), (7992, 7999, 1, - 8),
    (8008, 8013, 1, - 8), (8025, 8031, 2, - 8), (8040, 8047, 1, - 8), (8072, 8079, 1, - 8),
    (8088, 8095, 1, - 8), (8104, 8111, 1, - 8), (8120, 8121, 1, - 8), (8122, 8123, 1, - 74),
    (8124, 8124, 1, - 9), (8136, 8139, 1, - 86), (8140, 8140, 1, - 9), (8152, 8153, 1, - 8),
    (8154, 8155, 1, - 100), (8168, 8169, 1, - 8), (8170, 8171, 1, - 112), (8172, 8172, 1, - 7),
    (8184, 8185, 1, - 128), (8186, 8187, 1, - 126), (8188, 8188, 1, - 9),
    (8486, 8486, 1, - 7517), (8490, 8490, 1, - 8383), (8491, 8491, 1, - 8262),
    (8498, 8498, 1, 28), (8544, 8559, 1, 16), (8579, 8579, 1, 1), (9398, 9423, 1, 26),
    (11264, 11311, 1, 48), (11360, 11360, 1, 1), (11362, 11362, 1, - 10743),
    (11363, 11363, 1, - 3814), (11364, 11364, 1, - 10727), (11367, 11371, 2, 1),
    (11373, 11373, 1, - 10780), (11374, 11374, 1, - 10749), (11375, 11375, 1, - 10783),
    (11376, 11376, 1, - 10782), (11378, 11378, 1, 1), (11381, 11381, 1, 1),
    (11390, 11391, 1, - 10815), (11392, 11490, 2, 1), (11499, 11501, 2, 1),
    (11506, 11506, 1, 1), (42560, 42604, 2, 1), (42624, 42650, 2, 1), (42786, 42798, 2, 1),
    (42802, 42862, 2, 1), (42873, 42875, 2, 1), (42877, 42877, 1, - 35332),
    (42878, 42886, 2, 1), (42891, 42891, 1, 1), (42893, 42893, 1, - 42280),
    (42896, 42898, 2, 1), (42902, 42920, 2, 1), (42922, 42922, 1, - 42308),
    (42923, 42923, 1, - 42319), (42924, 42924, 1, - 42315), (42925, 42925, 1, - 42305),
    (42926, 42926, 1, - 42308), (42928, 42928, 1, - 42258), (42929, 42929, 1, - 42282),
    (42930, 42930, 1, - 42261), (42931, 42931, 1, 928), (42932, 42946, 2, 1),
    (42948, 42948, 1, - 48), (42949, 42949, 1, - 42307), (42950, 42950, 1, - 35384),
    (42951, 42953, 2, 1), (42960, 42960, 1, 1), (42966, 42968, 2, 1), (42997, 42997, 1, 1),
    (65313, 65338, 1, 32), (66560, 66599, 1, 40), (66736, 66771, 1, 40), (66928, 66938, 1, 39),
    (66940, 66954, 1, 39), (66956, 66962, 1, 39), (66964, 66965, 1, 39), (68736, 68786, 1, 64),
    (71840, 71871, 1, 32), (93760, 93791, 1, 32), (125184, 125217, 1, 34)]"

definition in_range :: "rune \<Rightarrow> nat \<times> nat \<times> nat \<times> int \<Rightarrow> bool" where
  "in_range r = (\<lambda>(lo, hi, step, _). lo \<le> r \<and> r \<le> hi \<and> (r - lo) mod step = 0)"

definition rune_ToLower :: "rune \<Rightarrow> rune" where
  "rune_ToLower r =
     (if r < 128 then (if 65 \<le> r \<and> r \<le> 90 then r + 32 else r)
      else case find (in_range r) lower_ranges of
             None \<Rightarrow> r
           | Some (_, _, _, d) \<Rightarrow> nat (int r + d))"

definition ToLower :: "string \<Rightarrow> string" where
  "ToLower s = string_of_runes (map rune_ToLower (runes s))"

text \<open>
  \<open>strings.EqualFold\<close> under simple folding, exact where one of the two strings is ASCII,
  which holds at each of its call sites in the repository: the only code points above ASCII
  that fold to an ASCII letter are \<open>U+017F\<close> (to \<open>s\<close>) and \<open>U+212A\<close> (to \<open>k\<close>).
\<close>

definition rune_fold :: "rune \<Rightarrow> rune" where
  "rune_fold r = (if r = 383 then 115 else if r = 8490 then 107
     else if 65 \<le> r \<and> r \<le> 90 then r + 32 else r)"

definition EqualFold :: "string \<Rightarrow> string \<Rightarrow> bool" where
  "EqualFold s t \<longleftrightarrow> map rune_fold (runes s) = map rune_fold (runes t)"

section \<open>Cutting and searching\<close>

text \<open>\<open>strings.Cut\<close> and \<open>strings.Split\<close> with a one-byte separator.\<close>

definition Cut :: "string \<Rightarrow> char \<Rightarrow> string \<times> string \<times> bool" where
  "Cut s c = (case dropWhile (\<lambda>x. x \<noteq> c) s of
       [] \<Rightarrow> (s, [], False)
     | _ # rest \<Rightarrow> (takeWhile (\<lambda>x. x \<noteq> c) s, rest, True))"

fun Split :: "string \<Rightarrow> char \<Rightarrow> string list" where
  "Split [] c = [[]]"
| "Split (x # xs) c =
     (if x = c then [] # Split xs c
      else case Split xs c of [] \<Rightarrow> [[x]] | w # ws \<Rightarrow> (x # w) # ws)"

definition ContainsAny :: "string \<Rightarrow> string \<Rightarrow> bool" where
  "ContainsAny s cs \<longleftrightarrow> list_ex (\<lambda>c. c \<in> set cs) s"

definition HasPrefix :: "string \<Rightarrow> string \<Rightarrow> bool" where
  "HasPrefix s p \<longleftrightarrow> take (length p) s = p"

section \<open>Numbers\<close>

definition is_digit :: "char \<Rightarrow> bool" where
  "is_digit c \<longleftrightarrow> 48 \<le> byte c \<and> byte c \<le> 57"

definition digits_value :: "string \<Rightarrow> int" where
  "digits_value s = foldl (\<lambda>n c. 10 * n + (int (byte c) - 48)) 0 s"

text \<open>
  \<open>strconv.ParseInt(s, 10, bits)\<close>: an optional sign, at least one digit, nothing else,
  and a value in range. \<open>strconv.Atoi\<close> is the 64-bit instance.
\<close>

definition split_sign :: "string \<Rightarrow> bool \<times> string" where
  "split_sign s = (case s of
       [] \<Rightarrow> (False, [])
     | c # cs \<Rightarrow> if c = CHR ''-'' then (True, cs) else if c = CHR ''+'' then (False, cs) else (False, s))"

definition ParseInt10 :: "string \<Rightarrow> nat \<Rightarrow> int option" where
  "ParseInt10 s bits =
     (let (neg, ds) = split_sign s in
      if ds = [] \<or> \<not> list_all is_digit ds then None
      else let v = (if neg then - digits_value ds else digits_value ds)
           in if - (2 ^ (bits - 1)) \<le> v \<and> v < 2 ^ (bits - 1) then Some v else None)"

definition Atoi :: "string \<Rightarrow> int option" where
  "Atoi s = ParseInt10 s 64"

fun digits_of :: "nat \<Rightarrow> string" where
  "digits_of n = (if n < 10 then [char_of (48 + n)] else digits_of (n div 10) @ [char_of (48 + n mod 10)])"

declare digits_of.simps [simp del]

definition Itoa :: "int \<Rightarrow> string" where
  "Itoa i = (if i < 0 then CHR ''-'' # digits_of (nat (- i)) else digits_of (nat i))"

section \<open>The decoder and the encoder agree\<close>

lemma DecodeRune_width:
  "DecodeRune bs = (r, n) \<Longrightarrow> bs \<noteq> [] \<Longrightarrow> 1 \<le> n \<and> n \<le> length bs"
  by (auto simp: DecodeRune_def split: list.splits if_splits)

lemma DecodeRune_ascii:
  "DecodeRune bs = (r, n) \<Longrightarrow> bs \<noteq> [] \<Longrightarrow> r < 128 \<Longrightarrow> n = 1 \<and> r = hd bs"
  by (auto simp: DecodeRune_def RuneError_def accept3_def accept4_def cont_byte_def
      split: list.splits if_splits)

lemma valid_RuneError [simp]: "valid_rune RuneError"
  by (simp add: valid_rune_def RuneError_def)

lemma decode4_bounds:
  assumes "accept4 b0 b1" "cont_byte b2" "cont_byte b3" "240 \<le> b0" "b0 \<le> 244"
  shows "65536 \<le> (b0 - 240) * 262144 + (b1 - 128) * 4096 + (b2 - 128) * 64 + (b3 - 128)
    \<and> (b0 - 240) * 262144 + (b1 - 128) * 4096 + (b2 - 128) * 64 + (b3 - 128) < 1114112"
proof -
  define a b c d where "a = b0 - 240" "b = b1 - 128" "c = b2 - 128" "d = b3 - 128"
  have "a \<le> 4" "b \<le> 63" "c \<le> 63" "d \<le> 63" "a = 0 \<longrightarrow> 16 \<le> b" "a = 4 \<longrightarrow> b \<le> 15"
    using assms by (auto simp: accept4_def cont_byte_def a_b_c_d_def split: if_splits)
  then have "65536 \<le> a * 262144 + b * 4096 + c * 64 + d \<and> a * 262144 + b * 4096 + c * 64 + d < 1114112"
    by linarith
  then show ?thesis by (simp add: a_b_c_d_def)
qed

lemma decode3_bounds:
  assumes "accept3 b0 b1" "cont_byte b2" "224 \<le> b0" "b0 \<le> 239"
  shows "2048 \<le> (b0 - 224) * 4096 + (b1 - 128) * 64 + (b2 - 128)
    \<and> (b0 - 224) * 4096 + (b1 - 128) * 64 + (b2 - 128) < 65536
    \<and> valid_rune ((b0 - 224) * 4096 + (b1 - 128) * 64 + (b2 - 128))"
proof -
  define a b c where "a = b0 - 224" "b = b1 - 128" "c = b2 - 128"
  have "a \<le> 15" "b \<le> 63" "c \<le> 63" "a = 0 \<longrightarrow> 32 \<le> b" "a = 13 \<longrightarrow> b \<le> 31"
    using assms by (auto simp: accept3_def cont_byte_def a_b_c_def split: if_splits)
  then have "2048 \<le> a * 4096 + b * 64 + c \<and> a * 4096 + b * 64 + c < 65536 \<and>
     (a * 4096 + b * 64 + c < 55296 \<or> 57344 \<le> a * 4096 + b * 64 + c)"
    by (cases a "13::nat" rule: linorder_cases; linarith)
  then show ?thesis by (auto simp: a_b_c_def valid_rune_def)
qed

lemma DecodeRune_cases:
  assumes "DecodeRune bs = (r, n)" "bs \<noteq> []"
  obtains (error) "r = RuneError" "n = 1"
  | (ascii) b0 rest where "bs = b0 # rest" "b0 < 128" "r = b0" "n = 1"
  | (two) b0 b1 rest where "bs = b0 # b1 # rest" "194 \<le> b0" "b0 \<le> 223" "cont_byte b1" "r = (b0 - 192) * 64 + (b1 - 128)" "n = 2"
  | (three) b0 b1 b2 rest where "bs = b0 # b1 # b2 # rest" "224 \<le> b0" "b0 \<le> 239" "accept3 b0 b1" "cont_byte b2"
      "r = (b0 - 224) * 4096 + (b1 - 128) * 64 + (b2 - 128)" "n = 3"
  | (four) b0 b1 b2 b3 rest where "bs = b0 # b1 # b2 # b3 # rest" "240 \<le> b0" "b0 \<le> 244" "accept4 b0 b1" "cont_byte b2" "cont_byte b3"
      "r = (b0 - 240) * 262144 + (b1 - 128) * 4096 + (b2 - 128) * 64 + (b3 - 128)" "n = 4"
proof -
  obtain b0 r0 where bs: "bs = b0 # r0" using assms(2) by (cases bs) auto
  consider "b0 < 128" | "194 \<le> b0" "b0 \<le> 223" | "224 \<le> b0" "b0 \<le> 239" | "240 \<le> b0" "b0 \<le> 244"
    | "\<not> b0 < 128" "\<not> (194 \<le> b0 \<and> b0 \<le> 223)" "\<not> (224 \<le> b0 \<and> b0 \<le> 239)" "\<not> (240 \<le> b0 \<and> b0 \<le> 244)" by linarith
  then show thesis
  proof cases
    case 1
    then show thesis using assms(1) bs by (intro ascii) (auto simp: DecodeRune_def)
  next
    case 2
    then show thesis using assms(1) bs error two by (simp add: DecodeRune_def split: list.splits if_splits)
  next
    case 3
    then show thesis using assms(1) bs error three by (simp add: DecodeRune_def split: list.splits if_splits)
  next
    case 4
    then show thesis using assms(1) bs error four by (simp add: DecodeRune_def split: list.splits if_splits)
  next
    case 5
    then have "DecodeRune bs = (RuneError, 1)" unfolding bs DecodeRune_def by auto
    then show thesis using assms(1) error by simp
  qed
qed

text \<open>A rune that decodes without an error does so from its own bytes alone.\<close>

lemma DecodeRune_append:
  assumes "DecodeRune bs = (r, n)" "n \<noteq> 1 \<or> r \<noteq> RuneError" "bs \<noteq> []"
  shows "DecodeRune (bs @ cs) = (r, n)"
  using assms(1,3) by (cases rule: DecodeRune_cases) (use assms(2) in \<open>auto simp: DecodeRune_def\<close>)

lemma DecodeRune_take:
  assumes "DecodeRune bs = (r, n)" "n \<noteq> 1 \<or> r \<noteq> RuneError" "bs \<noteq> []"
  shows "DecodeRune (take n bs) = (r, n)"
  using assms(1,3) by (cases rule: DecodeRune_cases) (use assms(2) in \<open>auto simp: DecodeRune_def\<close>)

lemma DecodeRune_valid:
  assumes "DecodeRune bs = (r, n)"
  shows "valid_rune r"
proof (cases "bs = []")
  case True
  then show ?thesis using assms by (simp add: DecodeRune_def)
next
  case False
  with assms show ?thesis
  proof (cases rule: DecodeRune_cases)
    case three
    from decode3_bounds [OF three(4,5,2,3)] show ?thesis unfolding three(6) by blast
  next
    case four
    from decode4_bounds [OF four(4,5,6,2,3)] show ?thesis unfolding four(7) valid_rune_def by linarith
  qed (auto simp: valid_rune_def cont_byte_def RuneError_def)
qed

lemma div64_digits: "(r::nat) div 4096 * 4096 + r div 64 mod 64 * 64 + r mod 64 = r"
proof -
  have "r div 4096 = r div 64 div 64" by (simp add: div_mult2_eq [symmetric])
  then show ?thesis using div_mult_mod_eq [of r 64] div_mult_mod_eq [of "r div 64" 64] by linarith
qed

lemma div64_digits4: "(r::nat) div 262144 * 262144 + r div 4096 mod 64 * 4096 + r div 64 mod 64 * 64 + r mod 64 = r"
proof -
  have "r div 262144 = r div 4096 div 64" by (simp add: div_mult2_eq [symmetric])
  then show ?thesis using div64_digits [of r] div_mult_mod_eq [of "r div 4096" 64] by linarith
qed

lemma cont_byte_digit [simp]: "cont_byte (128 + r mod 64)"
  by (simp add: cont_byte_def)

lemma DecodeRune_EncodeRune:
  assumes "valid_rune r"
  shows "DecodeRune (EncodeRune r @ bs) = (r, length (EncodeRune r))"
proof -
  consider "r < 128" | "128 \<le> r" "r < 2048" | "2048 \<le> r" "r < 65536" | "65536 \<le> r" by linarith
  then show ?thesis
  proof cases
    case 1
    then show ?thesis by (simp add: DecodeRune_def EncodeRune_def)
  next
    case 2
    then have "2 \<le> r div 64" "r div 64 < 32" by simp_all
    then show ?thesis using 2 by (simp add: DecodeRune_def EncodeRune_def)
  next
    case 3
    then have "r div 4096 < 16" by simp
    moreover have "accept3 (224 + r div 4096) (128 + r div 64 mod 64)"
    proof -
      have "r div 4096 = 0 \<longrightarrow> 32 \<le> r div 64 mod 64" "r div 4096 = 13 \<longrightarrow> r div 64 mod 64 \<le> 31"
        using assms 3 div64_digits [of r] mod_less_divisor [of 64 r] by (auto simp: valid_rune_def)
      then show ?thesis by (auto simp: accept3_def)
    qed
    ultimately show ?thesis
      using 3 assms div64_digits [of r] by (simp add: DecodeRune_def EncodeRune_def)
  next
    case 4
    then have "r < 1114112" using assms by (simp add: valid_rune_def)
    then have "r div 262144 \<le> 4" by simp
    moreover have "accept4 (240 + r div 262144) (128 + r div 4096 mod 64)"
    proof -
      have "r div 262144 = 0 \<longrightarrow> 16 \<le> r div 4096 mod 64" "r div 262144 = 4 \<longrightarrow> r div 4096 mod 64 \<le> 15"
        using \<open>r < 1114112\<close> 4 div64_digits4 [of r] mod_less_divisor [of 64 r] mod_less_divisor [of 64 "r div 64"] by auto
      then show ?thesis by (auto simp: accept4_def)
    qed
    ultimately show ?thesis
      using 4 assms div64_digits4 [of r] by (simp add: DecodeRune_def EncodeRune_def)
  qed
qed

lemma EncodeRune_bytes: "b \<in> set (EncodeRune r) \<Longrightarrow> b < 256"
proof -
  have "r < 2048 \<Longrightarrow> r div 64 < 32" "r < 65536 \<Longrightarrow> r div 4096 < 16" "r < 1114112 \<Longrightarrow> r div 262144 \<le> 4"
    by simp_all
  moreover have "x mod 64 < 64" for x :: nat by simp
  ultimately show "b \<in> set (EncodeRune r) \<Longrightarrow> b < 256"
    by (fastforce simp: EncodeRune_def valid_rune_def split: if_splits)
qed

section \<open>Cutting a string into runes\<close>

lemma segs_unfold:
  assumes "s \<noteq> []" "DecodeRune (map byte s) = (r, n)"
  shows "segs s = (r, take n s) # segs (drop n s)"
proof -
  obtain c cs where s: "s = c # cs" using assms(1) by (cases s) auto
  have "1 \<le> n" using DecodeRune_width [OF assms(2)] assms(1) by simp
  with s assms(2) show ?thesis by (cases n) simp_all
qed

lemma segs_eq_Nil [simp]: "segs s = [] \<longleftrightarrow> s = []"
  by (cases s) (auto simp: Let_def split: prod.splits)

lemma segs_induct [case_names Nil Cons]:
  assumes "P []"
    and "\<And>s r n. s \<noteq> [] \<Longrightarrow> DecodeRune (map byte s) = (r, n) \<Longrightarrow> 1 \<le> n \<Longrightarrow> n \<le> length s \<Longrightarrow>
      segs s = (r, take n s) # segs (drop n s) \<Longrightarrow> P (drop n s) \<Longrightarrow> P s"
  shows "P s"
proof (induction s rule: measure_induct_rule [of length])
  case (less s)
  show ?case
  proof (cases "s = []")
    case True
    then show ?thesis by (simp add: assms(1))
  next
    case False
    obtain r n where d: "DecodeRune (map byte s) = (r, n)" by (cases "DecodeRune (map byte s)")
    have n: "1 \<le> n" "n \<le> length s" using DecodeRune_width [OF d] False by simp_all
    with False have "length (drop n s) < length s" by simp
    then have "P (drop n s)" by (rule less)
    then show ?thesis using assms(2) [OF False d n segs_unfold [OF False d]] by blast
  qed
qed

lemma concat_segs [simp]: "concat (map snd (segs s)) = s"
  by (induction s rule: segs_induct) simp_all

lemma segs_drop: "segs (concat (map snd (drop k (segs s)))) = drop k (segs s)"
proof (induction s arbitrary: k rule: segs_induct)
  case (Cons s r n)
  show ?case
  proof (cases k)
    case 0
    then show ?thesis by simp
  next
    case (Suc k')
    then show ?thesis using Cons by simp
  qed
qed simp

lemma DecodeRune_cut:
  assumes d: "DecodeRune bs = (r, n)" and "bs \<noteq> []" and bs: "drop n bs = cs @ ds"
  shows "DecodeRune (take n bs @ cs) = (r, n)"
proof (cases "n = 1 \<and> r = RuneError")
  case True
  then have ne: "take n bs \<noteq> []" using assms(2) by (cases bs) auto
  obtain r' n' where e: "DecodeRune (take n bs @ cs) = (r', n')"
    by (cases "DecodeRune (take n bs @ cs)")
  have whole: "(take n bs @ cs) @ ds = bs" by (simp flip: bs)
  show ?thesis
  proof (cases "n' = 1 \<and> r' = RuneError")
    case True
    with \<open>n = 1 \<and> r = RuneError\<close> e show ?thesis by simp
  next
    case False
    with DecodeRune_append [OF e, of ds] ne whole d have "(r', n') = (r, n)" by auto
    with e show ?thesis by simp
  qed
next
  case False
  then have "DecodeRune (take n bs) = (r, n)" using DecodeRune_take [OF d] assms(2) by blast
  moreover have "take n bs \<noteq> []" using DecodeRune_width [OF d assms(2)] assms(2) by auto
  ultimately show ?thesis using DecodeRune_append [of "take n bs" r n cs] False by blast
qed

lemma segs_take: "segs (concat (map snd (take k (segs s)))) = take k (segs s)"
proof (induction s arbitrary: k rule: segs_induct)
  case (Cons s r n)
  show ?case
  proof (cases k)
    case 0
    then show ?thesis by simp
  next
    case (Suc k')
    let ?t = "concat (map snd (take k' (segs (drop n s))))"
    let ?u = "concat (map snd (drop k' (segs (drop n s))))"
    have "?t @ ?u = drop n s"
      by (metis append_take_drop_id concat_append concat_segs map_append)
    then have "drop n (map byte s) = map byte ?t @ map byte ?u"
      by (metis drop_map map_append)
    then have "DecodeRune (map byte (take n s @ ?t)) = (r, n)"
      using DecodeRune_cut [OF Cons(2)] Cons(1) by (simp add: take_map)
    moreover have "take n s @ ?t \<noteq> []" using Cons(1,3) by auto
    ultimately have "segs (take n s @ ?t) = (r, take n (take n s @ ?t)) # segs (drop n (take n s @ ?t))"
      by (intro segs_unfold)
    then show ?thesis using Suc Cons by simp
  qed
qed simp

lemma segs_ascii: "list_all (\<lambda>c. byte c < (128::nat)) s \<Longrightarrow> segs s = map (\<lambda>c. (byte c, [c])) s"
  by (induction s) (simp_all add: DecodeRune_def)

lemma runes_ascii: "list_all (\<lambda>c. byte c < (128::nat)) s \<Longrightarrow> runes s = map byte s"
  by (simp add: runes_def segs_ascii)

lemma RuneCount_ascii: "list_all (\<lambda>c. byte c < (128::nat)) s \<Longrightarrow> RuneCountInString s = length s"
  by (simp add: RuneCountInString_def segs_ascii)

lemma runes_eq_Nil [simp]: "runes s = [] \<longleftrightarrow> s = []"
  by (simp add: runes_def)

lemma length_runes: "length (runes s) = RuneCountInString s"
  by (simp add: runes_def RuneCountInString_def)

lemma ascii_if_runes_ascii:
  "list_all (\<lambda>r. r < 128) (runes s) \<Longrightarrow> list_all (\<lambda>c. byte c < (128::nat)) s"
proof (induction s rule: segs_induct)
  case (Cons s r n)
  then have "r < 128" by (simp add: runes_def)
  then have "n = 1" "r = hd (map byte s)"
    using DecodeRune_ascii [OF Cons(2)] Cons(1) by simp_all
  with Cons \<open>r < 128\<close> show ?case by (cases s) (simp_all add: runes_def)
qed simp

lemma runes_valid: "r \<in> set (runes s) \<Longrightarrow> valid_rune r"
proof (induction s rule: segs_induct)
  case (Cons s r' n)
  then show ?case using DecodeRune_valid [OF Cons(2)] by (auto simp: runes_def)
qed (simp add: runes_def)

lemma RuneCount_le_length: "RuneCountInString s \<le> length s"
proof (induction s rule: segs_induct)
  case (Cons s r n)
  then show ?case by (simp add: RuneCountInString_def)
qed (simp add: RuneCountInString_def)

lemma segs_encode_Cons:
  assumes "valid_rune r"
  shows "segs (map char_of (EncodeRune r) @ t) = (r, map char_of (EncodeRune r)) # segs t"
proof -
  let ?e = "map char_of (EncodeRune r) :: string"
  have "map byte ?e = EncodeRune r"
    using EncodeRune_bytes by (auto simp: o_def intro!: map_idI)
  then have "DecodeRune (map byte (?e @ t)) = (r, length ?e)"
    using DecodeRune_EncodeRune [OF assms] by simp
  moreover have "?e @ t \<noteq> []" by (simp add: EncodeRune_def)
  ultimately show ?thesis using segs_unfold [of "?e @ t" r "length ?e"] by simp
qed

lemma runes_string_of_runes: "list_all valid_rune rs \<Longrightarrow> runes (string_of_runes rs) = rs"
  by (induction rs) (simp_all add: runes_def string_of_runes_def segs_encode_Cons)

lemma string_of_runes_ascii: "list_all (\<lambda>r. r < 128) rs \<Longrightarrow> string_of_runes rs = map char_of rs"
  by (induction rs) (simp_all add: string_of_runes_def EncodeRune_def)

section \<open>Trimming and lowering\<close>

lemma trim_ends_eq_take_drop:
  "\<exists>i k. trim_ends p xs = take k (drop i xs)"
proof -
  have "dropWhile p xs = drop (length (takeWhile p xs)) xs" by (simp add: dropWhile_eq_drop)
  moreover have "rev (dropWhile p (rev ys)) = take (length ys - length (takeWhile p (rev ys))) ys" for ys
    by (simp add: dropWhile_eq_drop rev_drop)
  ultimately show ?thesis unfolding trim_ends_def by metis
qed

lemma trim_ends_hd: "trim_ends p xs \<noteq> [] \<Longrightarrow> \<not> p (hd (trim_ends p xs))"
proof -
  assume ne: "trim_ends p xs \<noteq> []"
  let ?ys = "dropWhile p xs"
  obtain k where t: "trim_ends p xs = take k ?ys"
    by (metis trim_ends_def dropWhile_eq_drop rev_drop rev_rev_ident)
  with ne have "hd (trim_ends p xs) = hd ?ys" by (simp add: hd_take)
  moreover have "?ys \<noteq> []" using ne t by auto
  ultimately show ?thesis using hd_dropWhile [of p xs] by (metis dropWhile_eq_Nil_conv)
qed

lemma trim_ends_last: "trim_ends p xs \<noteq> [] \<Longrightarrow> \<not> p (last (trim_ends p xs))"
  unfolding trim_ends_def
  by (metis dropWhile_eq_Nil_conv hd_dropWhile last_rev rev_is_Nil_conv)

lemma trim_ends_id: "xs = [] \<or> \<not> p (hd xs) \<and> \<not> p (last xs) \<Longrightarrow> trim_ends p xs = xs"
proof (cases "xs = []")
  case False
  assume "xs = [] \<or> \<not> p (hd xs) \<and> \<not> p (last xs)"
  with False have "dropWhile p xs = xs" "dropWhile p (rev xs) = rev xs"
    by (metis dropWhile_eq_self_iff, metis dropWhile_eq_self_iff hd_rev)
  then show ?thesis by (simp add: trim_ends_def)
qed (simp add: trim_ends_def)

lemma trim_ends_idem: "trim_ends p (trim_ends p xs) = trim_ends p xs"
  using trim_ends_hd trim_ends_last trim_ends_id by metis

lemma segs_TrimSpace: "segs (TrimSpace s) = trim_ends (\<lambda>(r, _). IsSpace r) (segs s)"
proof -
  obtain i k where "trim_ends (\<lambda>(r, _). IsSpace r) (segs s) = take k (drop i (segs s))"
    using trim_ends_eq_take_drop by blast
  moreover have "segs (concat (map snd (take k (drop i (segs s))))) = take k (drop i (segs s))"
    using segs_take [of k "concat (map snd (drop i (segs s)))"] by (simp add: segs_drop)
  ultimately show ?thesis by (simp add: TrimSpace_def)
qed

lemma TrimSpace_idem [simp]: "TrimSpace (TrimSpace s) = TrimSpace s"
  by (subst TrimSpace_def) (simp add: segs_TrimSpace trim_ends_idem, simp add: TrimSpace_def)

lemma TrimSpace_empty [simp]: "TrimSpace [] = []"
  by (simp add: TrimSpace_def trim_ends_def)

lemma TrimSpace_ends:
  "TrimSpace s \<noteq> [] \<Longrightarrow> \<not> IsSpace (hd (runes (TrimSpace s))) \<and> \<not> IsSpace (last (runes (TrimSpace s)))"
  using trim_ends_hd [of "\<lambda>(r, _). IsSpace r" "segs s"] trim_ends_last [of "\<lambda>(r, _). IsSpace r" "segs s"]
  by (auto simp: runes_def segs_TrimSpace hd_map last_map case_prod_beta simp flip: segs_eq_Nil)

lemma TrimSpace_id: "s = [] \<or> \<not> IsSpace (hd (runes s)) \<and> \<not> IsSpace (last (runes s)) \<Longrightarrow> TrimSpace s = s"
proof -
  assume "s = [] \<or> \<not> IsSpace (hd (runes s)) \<and> \<not> IsSpace (last (runes s))"
  then have "segs s = [] \<or> \<not> (\<lambda>(r, _). IsSpace r) (hd (segs s)) \<and> \<not> (\<lambda>(r, _). IsSpace r) (last (segs s))"
    by (auto simp: runes_def hd_map last_map case_prod_beta)
  then have "trim_ends (\<lambda>(r, _). IsSpace r) (segs s) = segs s" by (rule trim_ends_id)
  then show ?thesis by (simp add: TrimSpace_def)
qed

lemma RuneCount_TrimSpace: "RuneCountInString (TrimSpace s) \<le> RuneCountInString s"
proof -
  obtain i k where "trim_ends (\<lambda>(r, _). IsSpace r) (segs s) = take k (drop i (segs s))"
    using trim_ends_eq_take_drop by blast
  then show ?thesis by (simp add: RuneCountInString_def segs_TrimSpace)
qed

text \<open>
  What the lower-case table says of ASCII: two code points above it lower to an ASCII letter,
  the dotted capital \<open>U+0130\<close> and the Kelvin sign \<open>U+212A\<close>.
\<close>

definition range_ok :: "nat \<times> nat \<times> nat \<times> int \<Rightarrow> bool" where
  "range_ok = (\<lambda>(lo, hi, step, d). 
     int lo + d \<ge> 0 \<and>
     (int lo + d \<ge> 128 \<or> lo = hi \<and> (lo = 304 \<or> lo = 8490)) \<and>
     (int hi + d < 55296 \<or> 57344 \<le> int lo + d \<and> int hi + d < 1114112))"

lemma lower_ranges_ok: "list_all range_ok lower_ranges"
  by (simp add: lower_ranges_def range_ok_def)

lemma rune_ToLower_cases:
  obtains "rune_ToLower r = r" | "65 \<le> r" "r \<le> 90" "rune_ToLower r = r + 32"
  | lo hi step d where "128 \<le> r" "(lo, hi, step, d) \<in> set lower_ranges" "lo \<le> r" "r \<le> hi"
      "rune_ToLower r = nat (int r + d)" "range_ok (lo, hi, step, d)"
proof (cases "r < 128")
  case True
  then show ?thesis using that(1,2) by (cases "65 \<le> r \<and> r \<le> 90") (auto simp: rune_ToLower_def)
next
  case False
  show ?thesis
  proof (cases "find (in_range r) lower_ranges")
    case None
    with False show ?thesis using that(1) by (simp add: rune_ToLower_def)
  next
    case (Some x)
    obtain lo hi step d where x: "x = (lo, hi, step, d)" by (cases x)
    have mem: "x \<in> set lower_ranges" "in_range r x"
      using Some by (auto simp: find_Some_iff in_set_conv_nth)
    moreover have "range_ok x" using mem(1) lower_ranges_ok by (auto simp: list_all_iff)
    ultimately show ?thesis
      using False Some x that(3) [of lo hi step d] by (simp add: rune_ToLower_def in_range_def)
  qed
qed

lemma rune_ToLower_ascii: "rune_ToLower r < 128 \<Longrightarrow> r < 128 \<or> r = 304 \<or> r = 8490"
  by (rule rune_ToLower_cases [of r]) (auto simp: range_ok_def)

lemma rune_ToLower_not_upper: "\<not> (65 \<le> rune_ToLower r \<and> rune_ToLower r \<le> 90)"
proof
  assume *: "65 \<le> rune_ToLower r \<and> rune_ToLower r \<le> 90"
  then have "r < 128 \<or> r = 304 \<or> r = 8490" by (intro rune_ToLower_ascii) simp
  moreover have "rune_ToLower 304 = 105" "rune_ToLower 8490 = 107"
    by (simp_all add: rune_ToLower_def lower_ranges_def in_range_def)
  ultimately show False using * by (auto simp: rune_ToLower_def split: if_splits)
qed

lemma rune_ToLower_valid: "valid_rune r \<Longrightarrow> valid_rune (rune_ToLower r)"
  by (rule rune_ToLower_cases [of r]) (auto simp: range_ok_def valid_rune_def)

lemma runes_ToLower: "runes (ToLower s) = map rune_ToLower (runes s)"
  unfolding ToLower_def
  by (rule runes_string_of_runes) (auto simp: list_all_iff intro: rune_ToLower_valid runes_valid)

lemma ToLower_eq_Nil [simp]: "ToLower s = [] \<longleftrightarrow> s = []"
  by (metis map_is_Nil_conv runes_ToLower runes_eq_Nil)

lemma ToLower_id:
  assumes "list_all (\<lambda>c. byte c < (128::nat) \<and> \<not> (65 \<le> (byte c::nat) \<and> (byte c::nat) \<le> 90)) s"
  shows "ToLower s = s"
proof -
  have a: "list_all (\<lambda>c. byte c < (128::nat)) s" using assms by (auto simp: list_all_iff)
  have "map rune_ToLower (runes s) = map byte s"
    using assms by (auto simp: runes_ascii [OF a] list_all_iff rune_ToLower_def)
  then show ?thesis
    using a by (simp add: ToLower_def string_of_runes_ascii list_all_iff o_def)
qed

text \<open>On ASCII text both are plain list functions; with these equations concrete strings are evaluated by simplification.\<close>

lemma TrimSpace_ascii:
  assumes "list_all (\<lambda>c. byte c < (128::nat)) s"
  shows "TrimSpace s = trim_ends (\<lambda>c. IsSpace (byte c)) s"
proof -
  have "(\<lambda>(r, _). IsSpace r) \<circ> (\<lambda>c. (byte c, [c])) = (\<lambda>c. IsSpace (byte c))" by (simp add: fun_eq_iff)
  then have "trim_ends (\<lambda>(r, _). IsSpace r) (map (\<lambda>c. (byte c, [c])) s) =
      map (\<lambda>c. (byte c, [c])) (trim_ends (\<lambda>c. IsSpace (byte c)) s)"
    by (simp add: trim_ends_def dropWhile_map rev_map)
  then show ?thesis by (simp add: TrimSpace_def segs_ascii [OF assms] comp_def)
qed

lemma ToLower_ascii:
  assumes "list_all (\<lambda>c. byte c < (128::nat)) s"
  shows "ToLower s = map (\<lambda>c. if 65 \<le> (byte c :: nat) \<and> (byte c :: nat) \<le> 90 then char_of (byte c + 32 :: nat) else c) s"
proof -
  have l: "rune_ToLower (byte c) = (if 65 \<le> (byte c :: nat) \<and> (byte c :: nat) \<le> 90 then byte c + 32 else byte c)" if "byte c < (128::nat)" for c
    using that by (simp add: rune_ToLower_def)
  have "list_all (\<lambda>r. r < 128) (map rune_ToLower (runes s))"
    using assms l by (auto simp: runes_ascii list_all_iff)
  from string_of_runes_ascii [OF this] show ?thesis
    using assms l by (auto simp: ToLower_def runes_ascii list_all_iff)
qed

lemmas ascii_text = TrimSpace_ascii ToLower_ascii trim_ends_def IsSpace_def

section \<open>Printing and parsing integers\<close>

lemma is_digit_char_of [simp]: "(n::nat) < 10 \<Longrightarrow> is_digit (char_of (48 + n))"
  by (simp add: is_digit_def)

lemma digits_of_digits: "list_all is_digit (digits_of n)"
proof (induction n rule: digits_of.induct)
  case (1 n)
  then show ?case by (cases "n < 10") (simp_all add: digits_of.simps [of n])
qed

lemma digits_of_not_Nil [simp]: "digits_of n \<noteq> []"
  by (subst digits_of.simps) simp

lemma digits_value_snoc: "digits_value (s @ [c]) = 10 * digits_value s + (int (byte c) - 48)"
  by (simp add: digits_value_def)

lemma digits_value_of: "digits_value (digits_of n) = int n"
proof (induction n rule: digits_of.induct)
  case (1 n)
  show ?case
  proof (cases "n < 10")
    case True
    then show ?thesis by (simp add: digits_of.simps [of n] digits_value_def)
  next
    case False
    have "digits_value (digits_of n) = 10 * int (n div 10) + int (n mod 10)"
      using 1 [OF False] False by (simp add: digits_of.simps [of n] digits_value_snoc)
    also have "\<dots> = int n" by presburger
    finally show ?thesis .
  qed
qed

lemma split_sign_digits: "list_all is_digit s \<Longrightarrow> split_sign s = (False, s)"
  by (cases s) (auto simp: split_sign_def is_digit_def)

lemma ParseInt10_Itoa:
  assumes "- (2 ^ (bits - 1)) \<le> n" "n < 2 ^ (bits - 1)"
  shows "ParseInt10 (Itoa n) bits = Some n"
proof (cases "n < 0")
  case True
  then have "ParseInt10 (CHR ''-'' # digits_of (nat (- n))) bits = Some n"
    using assms by (simp add: ParseInt10_def split_sign_def digits_of_digits digits_value_of)
  with True show ?thesis by (simp add: Itoa_def)
next
  case False
  then have "ParseInt10 (digits_of (nat n)) bits = Some n"
    using assms by (simp add: ParseInt10_def split_sign_digits digits_of_digits digits_value_of)
  with False show ?thesis by (simp add: Itoa_def)
qed

lemma Itoa_not_Nil: "Itoa n \<noteq> []"
  by (auto simp: Itoa_def elim: digits_of.elims)

lemma Atoi_Itoa: "- (2 ^ 63) \<le> n \<Longrightarrow> n < 2 ^ 63 \<Longrightarrow> Atoi (Itoa n) = Some n"
  by (simp add: Atoi_def ParseInt10_Itoa)

lemma ParseInt10_range: "ParseInt10 s bits = Some n \<Longrightarrow> - (2 ^ (bits - 1)) \<le> n \<and> n < 2 ^ (bits - 1)"
  by (auto simp: ParseInt10_def Let_def split: prod.splits if_splits)

section \<open>Cutting\<close>

lemma Cut_found: "c \<notin> set s \<Longrightarrow> Cut (s @ c # t) c = (s, t, True)"
  by (subst Cut_def, subst dropWhile_append2, blast, subst takeWhile_append2, blast) simp

lemma Cut_not_found: "c \<notin> set s \<Longrightarrow> Cut s c = (s, [], False)"
proof -
  assume "c \<notin> set s"
  then have d: "dropWhile (\<lambda>x. x \<noteq> c) s = []" by auto
  show ?thesis unfolding Cut_def d by simp
qed

lemma Cut_split: "Cut s c = (a, b, True) \<Longrightarrow> s = a @ c # b \<and> c \<notin> set a"
proof -
  assume cut: "Cut s c = (a, b, True)"
  then obtain x where d: "dropWhile (\<lambda>x. x \<noteq> c) s = x # b" and a: "a = takeWhile (\<lambda>x. x \<noteq> c) s"
    by (auto simp: Cut_def split: list.splits)
  have "x = c" using d by (metis (full_types) dropWhile_eq_Nil_conv hd_dropWhile list.distinct(1) list.sel(1))
  then show ?thesis using a d takeWhile_dropWhile_id [of "\<lambda>x. x \<noteq> c" s]
    by (auto dest: set_takeWhileD)
qed

lemma Split_not_Nil [simp]: "Split s c \<noteq> []"
  by (cases s) (auto split: list.splits)

lemma Split_no_sep: "w \<in> set (Split s c) \<Longrightarrow> c \<notin> set w"
proof (induction s arbitrary: w)
  case (Cons x xs)
  then show ?case by (cases "Split xs c") (auto split: if_splits)
qed simp

end
