(* ===== verification/Rooms.thy ===== *)
theory Rooms
  imports GoStrings
begin

text \<open>
  Room names and the identifier checks that go with them: \<open>NormalizeRoom\<close> and
  \<open>truncateRunes\<close> of \<open>db/database.go\<close>, \<open>validUsername\<close> and
  \<open>validMessageBody\<close> of \<open>message.go\<close>, \<open>validIdentifier\<close> of
  \<open>internal/auth/session.go\<close> and its copy \<open>validUserID\<close> in
  \<open>internal/events/envelope.go\<close>. The canonical form of a room name is stated
  independently of the code, and \<open>NormalizeRoom\<close> is shown to be the projection onto it.
\<close>

section \<open>NormalizeRoom\<close>

definition DefaultRoom :: string where
  "DefaultRoom = ''general''"

definition maxRoomRunes :: nat where
  "maxRoomRunes = 32"

datatype room_error = RoomTooLong | RoomBadStart | RoomBadChar

definition is_lower_letter :: "rune \<Rightarrow> bool" where
  "is_lower_letter r \<longleftrightarrow> 97 \<le> r \<and> r \<le> 122"

definition is_digit_rune :: "rune \<Rightarrow> bool" where
  "is_digit_rune r \<longleftrightarrow> 48 \<le> r \<and> r \<le> 57"

text \<open>The loop \<open>for i, r := range runes\<close> of \<open>NormalizeRoom\<close>.\<close>

fun room_runes_loop :: "nat \<Rightarrow> rune list \<Rightarrow> room_error option" where
  "room_runes_loop i [] = None"
| "room_runes_loop i (r # rs) =
     (let isLetter = is_lower_letter r; isDigit = is_digit_rune r in
      if i = 0 then (if \<not> isLetter \<and> \<not> isDigit then Some RoomBadStart else room_runes_loop (i + 1) rs)
      else if \<not> isLetter \<and> \<not> isDigit \<and> r \<noteq> 95 \<and> r \<noteq> 45 then Some RoomBadChar
      else room_runes_loop (i + 1) rs)"

definition NormalizeRoom :: "string \<Rightarrow> (room_error, string) result" where
  "NormalizeRoom room0 =
     (let room = ToLower (TrimSpace room0) in
      if room = [] then Inr DefaultRoom
      else if length (runes room) > maxRoomRunes then Inl RoomTooLong
      else case room_runes_loop 0 (runes room) of
             Some e \<Rightarrow> Inl e
           | None \<Rightarrow> Inr room)"

section \<open>Canonical room names\<close>

definition room_start :: "rune \<Rightarrow> bool" where
  "room_start r \<longleftrightarrow> is_lower_letter r \<or> is_digit_rune r"

definition room_rune :: "rune \<Rightarrow> bool" where
  "room_rune r \<longleftrightarrow> room_start r \<or> r = 95 \<or> r = 45"

definition canonical_room :: "string \<Rightarrow> bool" where
  "canonical_room s \<longleftrightarrow> s \<noteq> [] \<and> length s \<le> maxRoomRunes \<and> room_start (byte (hd s)) \<and>
     list_all (\<lambda>c. room_rune (byte c)) s"

lemma room_start_ascii: "room_start r \<Longrightarrow> r < 128 \<and> \<not> (65 \<le> r \<and> r \<le> 90) \<and> \<not> IsSpace r"
  by (auto simp: room_start_def is_lower_letter_def is_digit_rune_def IsSpace_def)

lemma room_rune_ascii: "room_rune r \<Longrightarrow> r < 128 \<and> \<not> (65 \<le> r \<and> r \<le> 90) \<and> \<not> IsSpace r"
  using room_start_ascii by (auto simp: room_rune_def IsSpace_def)

lemma room_runes_loop_Suc:
  "room_runes_loop (Suc i) rs = None \<longleftrightarrow> list_all room_rune rs"
  by (induction rs arbitrary: i)
    (auto simp: Let_def room_rune_def room_start_def)

lemma room_runes_loop_0:
  "room_runes_loop 0 (r # rs) = None \<longleftrightarrow> room_start r \<and> list_all room_rune rs"
  using room_runes_loop_Suc [of 0 rs] by (auto simp: Let_def room_start_def)

lemma canonical_ascii: "canonical_room s \<Longrightarrow> list_all (\<lambda>c. byte c < (128::nat)) s"
  using room_rune_ascii by (auto simp: canonical_room_def list_all_iff)

lemma canonical_runes: "canonical_room s \<Longrightarrow> runes s = map byte s"
  by (simp add: runes_ascii canonical_ascii)

lemma room_loop_canonical:
  assumes "room \<noteq> []" "length (runes room) \<le> maxRoomRunes"
  shows "room_runes_loop 0 (runes room) = None \<longleftrightarrow> canonical_room room"
proof
  assume none: "room_runes_loop 0 (runes room) = None"
  obtain r rs where rr: "runes room = r # rs" using assms(1) by (metis list.exhaust runes_eq_Nil)
  then have all: "list_all room_rune (runes room)" "room_start (hd (runes room))"
    using none room_runes_loop_0 by (auto simp: room_rune_def)
  then have "list_all (\<lambda>r. r < 128) (runes room)"
    using room_rune_ascii by (auto simp: list_all_iff)
  then have ascii: "list_all (\<lambda>c. byte c < (128::nat)) room" by (rule ascii_if_runes_ascii)
  then have "runes room = map byte room" by (rule runes_ascii)
  with all assms show "canonical_room room"
    by (auto simp: canonical_room_def list_all_iff hd_map)
next
  assume can: "canonical_room room"
  then show "room_runes_loop 0 (runes room) = None"
    using room_runes_loop_0 by (cases room) (auto simp: canonical_runes canonical_room_def list_all_iff)
qed

lemma canonical_TrimSpace [room_simps]: "canonical_room s \<Longrightarrow> TrimSpace s = s"
proof -
  assume c: "canonical_room s"
  then have "s \<noteq> []" "list_all (\<lambda>c. room_rune (byte c)) s" by (auto simp: canonical_room_def)
  then have "\<not> IsSpace (byte (hd s))" "\<not> IsSpace (byte (last s))"
    using room_rune_ascii by (auto simp: list_all_iff)
  then show "TrimSpace s = s"
    using c \<open>s \<noteq> []\<close> by (intro TrimSpace_id) (simp add: canonical_runes hd_map last_map)
qed

lemma canonical_ToLower [room_simps]: "canonical_room s \<Longrightarrow> ToLower s = s"
  using room_rune_ascii by (intro ToLower_id) (fastforce simp: canonical_room_def list_all_iff)

lemma canonical_not_Nil [room_simps]: "canonical_room s \<Longrightarrow> s \<noteq> []"
  by (simp add: canonical_room_def)

lemma canonical_DefaultRoom [simp]: "canonical_room DefaultRoom"
  by code_simp

text \<open>A canonical name is a fixed point, and every accepted name is canonical.\<close>

lemma NormalizeRoom_canonical_id [room_simps]: "canonical_room s \<Longrightarrow> NormalizeRoom s = Inr s"
  using room_loop_canonical [of s]
  by (simp add: NormalizeRoom_def room_simps canonical_runes) (simp add: canonical_room_def)

lemma NormalizeRoom_canonical: "NormalizeRoom s = Inr r \<Longrightarrow> canonical_room r"
  using room_loop_canonical [of "ToLower (TrimSpace s)"]
  by (auto simp: NormalizeRoom_def Let_def not_less split: if_splits option.splits)

lemma NormalizeRoom_fixpoint: "NormalizeRoom s = Inr r \<Longrightarrow> NormalizeRoom r = Inr r"
  by (rule NormalizeRoom_canonical_id [OF NormalizeRoom_canonical])

lemma canonical_room_iff: "canonical_room s \<longleftrightarrow> NormalizeRoom s = Inr s"
  using NormalizeRoom_canonical NormalizeRoom_canonical_id by blast

text \<open>Exactly which inputs are accepted, and what they become.\<close>

lemma NormalizeRoom_spec:
  "NormalizeRoom s = Inr r \<longleftrightarrow>
     (TrimSpace s = [] \<and> r = DefaultRoom) \<or>
     (TrimSpace s \<noteq> [] \<and> canonical_room r \<and> map rune_ToLower (runes (TrimSpace s)) = map byte r)"
proof (cases "TrimSpace s = []")
  case True
  then show ?thesis by (auto simp: NormalizeRoom_def)
next
  case False
  let ?t = "ToLower (TrimSpace s)"
  have ne: "?t \<noteq> []" using False by simp
  have "NormalizeRoom s = Inr r \<longleftrightarrow> canonical_room r \<and> ?t = r"
  proof
    assume "NormalizeRoom s = Inr r"
    then show "canonical_room r \<and> ?t = r"
      using NormalizeRoom_canonical [of s r] False
      by (auto simp: NormalizeRoom_def Let_def split: if_splits option.splits)
  next
    assume r: "canonical_room r \<and> ?t = r"
    then have "length (runes r) \<le> maxRoomRunes" by (simp add: canonical_runes) (simp add: canonical_room_def)
    with r room_loop_canonical [of r] ne show "NormalizeRoom s = Inr r"
      by (simp add: NormalizeRoom_def)
  qed
  moreover have "canonical_room r \<Longrightarrow> ?t = r \<longleftrightarrow> runes ?t = map byte r"
  proof
    assume c: "canonical_room r" and "runes ?t = map byte r"
    then have eq: "map rune_ToLower (runes (TrimSpace s)) = map byte r" by (simp add: runes_ToLower)
    have "list_all (\<lambda>x. x < 128) (map byte r :: nat list)"
      using canonical_ascii [OF c] by (simp add: list_all_iff)
    then show "?t = r" using eq by (simp add: ToLower_def string_of_runes_ascii o_def)
  qed (simp add: canonical_runes)
  ultimately show ?thesis using False by (auto simp: runes_ToLower)
qed

section \<open>Text limits\<close>

definition truncateRunes :: "string \<Rightarrow> int \<Rightarrow> string" where
  "truncateRunes s limit =
     (if limit < 1 \<or> int (RuneCountInString s) \<le> limit then s
      else string_of_runes (take (nat limit) (runes s)))"

definition maxUsernameRunes :: nat where "maxUsernameRunes = 64"
definition maxMessageRunes :: nat where "maxMessageRunes = 4000"

definition validUsername :: "string \<Rightarrow> bool" where
  "validUsername s = (if s = [] then False else RuneCountInString s \<le> maxUsernameRunes)"

definition validMessageBody :: "string \<Rightarrow> bool" where
  "validMessageBody s = (if s = [] then False else RuneCountInString s \<le> maxMessageRunes)"

lemma runes_truncateRunes:
  "1 \<le> limit \<Longrightarrow> runes (truncateRunes s limit) = take (nat limit) (runes s)"
proof (cases "int (RuneCountInString s) \<le> limit")
  case True
  then show ?thesis by (simp add: truncateRunes_def length_runes nat_le_eq_zle)
next
  case False
  assume "1 \<le> limit"
  have "list_all valid_rune (take (nat limit) (runes s))"
    by (auto simp: list_all_iff dest: in_set_takeD runes_valid)
  with False \<open>1 \<le> limit\<close> show ?thesis by (simp add: truncateRunes_def runes_string_of_runes)
qed

lemma truncateRunes_bound: "1 \<le> limit \<Longrightarrow> int (RuneCountInString (truncateRunes s limit)) \<le> limit"
  by (simp add: runes_truncateRunes flip: length_runes)

section \<open>User identifiers\<close>

definition identifier_rune :: "rune \<Rightarrow> bool" where
  "identifier_rune r \<longleftrightarrow> 97 \<le> r \<and> r \<le> 122 \<or> 65 \<le> r \<and> r \<le> 90 \<or> 48 \<le> r \<and> r \<le> 57 \<or>
     r = 46 \<or> r = 95 \<or> r = 58 \<or> r = 45"

fun identifier_loop :: "rune list \<Rightarrow> bool" where
  "identifier_loop [] = True"
| "identifier_loop (r # rs) =
     (let isLetter = 97 \<le> r \<and> r \<le> 122 \<or> 65 \<le> r \<and> r \<le> 90; isDigit = 48 \<le> r \<and> r \<le> 57 in
      if \<not> isLetter \<and> \<not> isDigit \<and> r \<noteq> 46 \<and> r \<noteq> 95 \<and> r \<noteq> 58 \<and> r \<noteq> 45 then False
      else identifier_loop rs)"

definition validIdentifier :: "string \<Rightarrow> bool" where
  "validIdentifier value = (if length value = 0 \<or> length value > 128 then False else identifier_loop (runes value))"

lemma identifier_loop_iff: "identifier_loop rs \<longleftrightarrow> list_all identifier_rune rs"
  by (induction rs) (auto simp: identifier_rune_def Let_def)

lemma identifier_rune_ascii: "identifier_rune r \<Longrightarrow> r < 128 \<and> \<not> IsSpace r"
  by (auto simp: identifier_rune_def IsSpace_def)

lemma validIdentifier_iff:
  "validIdentifier s \<longleftrightarrow> s \<noteq> [] \<and> length s \<le> 128 \<and> list_all (\<lambda>c. identifier_rune (byte c)) s"
proof -
  have "list_all identifier_rune (runes s) \<longleftrightarrow> list_all (\<lambda>c. identifier_rune (byte c)) s" (is "?l \<longleftrightarrow> ?r")
  proof
    assume ?l
    then have "list_all (\<lambda>r. r < 128) (runes s)" using identifier_rune_ascii by (auto simp: list_all_iff)
    then have "runes s = map byte s" by (intro runes_ascii ascii_if_runes_ascii)
    with \<open>?l\<close> show ?r by (simp add: list_all_iff)
  next
    assume ?r
    then have "list_all (\<lambda>c. byte c < (128::nat)) s" using identifier_rune_ascii by (auto simp: list_all_iff)
    with \<open>?r\<close> show ?l by (simp add: runes_ascii list_all_iff)
  qed
  then show ?thesis by (auto simp: validIdentifier_def identifier_loop_iff)
qed

lemma validIdentifier_TrimSpace: "validIdentifier s \<Longrightarrow> TrimSpace s = s"
proof -
  assume v: "validIdentifier s"
  then have ids: "list_all (\<lambda>c. identifier_rune (byte c)) s" "s \<noteq> []" by (auto simp: validIdentifier_iff)
  then have "list_all (\<lambda>c. byte c < (128::nat)) s" using identifier_rune_ascii by (auto simp: list_all_iff)
  then have "runes s = map byte s" by (rule runes_ascii)
  moreover have "\<not> IsSpace (byte (hd s))" "\<not> IsSpace (byte (last s))"
    using ids identifier_rune_ascii by (auto simp: list_all_iff)
  ultimately show "TrimSpace s = s" using ids by (intro TrimSpace_id) (simp add: hd_map last_map)
qed

end
