(* ===== verification/GoTime.thy ===== *)
theory GoTime
  imports Prelude
begin

text \<open>
  The part of Go's \<open>time\<close> package the repository computes with. A \<open>time.Time\<close> is an
  instant, in nanoseconds since the zero time (1 January of year 1, UTC), and a location, of
  which only "is it \<open>time.UTC\<close>" is ever read. Durations are \<open>int\<close> nanoseconds.
  Seconds since 1970 are 64-bit in the code, and \<open>time.Unix\<close> adds an offset to them that
  wraps around; \<open>Time.Sub\<close> saturates. Both are kept.
\<close>

datatype location = UTC | Local | FixedZone int

record gotime =
  instant :: int
  zone :: location

definition zero_time :: gotime where
  "zero_time = \<lparr>instant = 0, zone = UTC\<rparr>"

definition IsZero :: "gotime \<Rightarrow> bool" where
  "IsZero t \<longleftrightarrow> instant t = 0"

definition time_UTC :: "gotime \<Rightarrow> gotime" where
  "time_UTC t = t\<lparr>zone := UTC\<rparr>"

definition Before :: "gotime \<Rightarrow> gotime \<Rightarrow> bool" where
  "Before t u \<longleftrightarrow> instant t < instant u"

definition After :: "gotime \<Rightarrow> gotime \<Rightarrow> bool" where
  "After t u \<longleftrightarrow> instant u < instant t"

definition time_Equal :: "gotime \<Rightarrow> gotime \<Rightarrow> bool" where
  "time_Equal t u \<longleftrightarrow> instant t = instant u"

definition Add :: "gotime \<Rightarrow> int \<Rightarrow> gotime" where
  "Add t d = t\<lparr>instant := instant t + d\<rparr>"

text \<open>\<open>t.AddDate(0, 0, n)\<close> of a UTC time: \<open>n\<close> days of 24 hours.\<close>

definition second :: int where "second = 1000000000"
definition minute :: int where "minute = 60 * second"
definition hour :: int where "hour = 60 * minute"
definition day :: int where "day = 24 * hour"

lemmas duration_defs = second_def minute_def hour_def day_def

definition AddDays :: "gotime \<Rightarrow> int \<Rightarrow> gotime" where
  "AddDays t n = Add t (n * day)"

text \<open>The years 1 to 9999, which both database engines and RFC 3339 text can represent.\<close>

definition db_range :: "gotime \<Rightarrow> bool" where
  "db_range t \<longleftrightarrow> 0 \<le> instant t \<and> instant t < 315537897600 * second"

definition sat64 :: "int \<Rightarrow> int" where
  "sat64 x = max (- (2 ^ 63)) (min (2 ^ 63 - 1) x)"

definition wrap64 :: "int \<Rightarrow> int" where
  "wrap64 x = (x + 2 ^ 63) mod 2 ^ 64 - 2 ^ 63"

definition Sub :: "gotime \<Rightarrow> gotime \<Rightarrow> int" where
  "Sub t u = sat64 (instant t - instant u)"

text \<open>Division of durations truncates towards zero.\<close>

definition Duration_div :: "int \<Rightarrow> int \<Rightarrow> int" where
  "Duration_div d e = sgn d * sgn e * (\<bar>d\<bar> div \<bar>e\<bar>)"

text \<open>Seconds from the zero time to 1 January 1970.\<close>

definition unix_offset :: int where
  "unix_offset = 62135596800"

definition time_Unix :: "int \<Rightarrow> gotime" where
  "time_Unix s = \<lparr>instant = wrap64 (s + unix_offset) * second, zone = Local\<rparr>"

definition Unix :: "gotime \<Rightarrow> int" where
  "Unix t = wrap64 (instant t div second - unix_offset)"

definition Truncate_second :: "gotime \<Rightarrow> gotime" where
  "Truncate_second t = t\<lparr>instant := instant t - instant t mod second\<rparr>"

section \<open>Lemmas\<close>

lemma time_UTC_simps [simp]:
  "instant (time_UTC t) = instant t" "zone (time_UTC t) = UTC" "time_UTC (time_UTC t) = time_UTC t"
  by (simp_all add: time_UTC_def)

lemma db_range_UTC [simp]: "db_range (time_UTC t) \<longleftrightarrow> db_range t"
  by (simp add: db_range_def)

lemma time_UTC_id [simp]: "zone t = UTC \<Longrightarrow> time_UTC t = t"
  by (simp add: time_UTC_def)

lemma Add_simps [simp]: "instant (Add t d) = instant t + d" "zone (Add t d) = zone t"
  by (simp_all add: Add_def)

lemma wrap64_id: "- (2 ^ 63) \<le> x \<Longrightarrow> x < 2 ^ 63 \<Longrightarrow> wrap64 x = x"
  by (simp add: wrap64_def)

lemma sat64_id: "- (2 ^ 63) \<le> x \<Longrightarrow> x < 2 ^ 63 \<Longrightarrow> sat64 x = x"
  by (simp add: sat64_def)

lemma Truncate_second_simps [simp]:
  "zone (Truncate_second t) = zone t" "instant (Truncate_second t) \<le> instant t"
  "second dvd instant (Truncate_second t)" "instant t < instant (Truncate_second t) + second"
  by (simp_all add: Truncate_second_def second_def dvd_minus_mod pos_mod_bound)

text \<open>
  A whole-second instant whose Unix time is within the 64-bit range (years 1 to 292 billion)
  survives the trip through its Unix seconds.
\<close>

definition unix_range :: "gotime \<Rightarrow> bool" where
  "unix_range t \<longleftrightarrow> 0 \<le> instant t \<and> instant t div second < 2 ^ 63"

lemma time_Unix_Unix_trunc:
  assumes "unix_range t"
  shows "instant (time_Unix (Unix t)) = instant (Truncate_second t)"
proof -
  let ?s = "instant t div second"
  have "0 \<le> ?s" using assms by (simp add: unix_range_def second_def pos_imp_zdiv_nonneg_iff)
  have "wrap64 (?s - unix_offset) = ?s - unix_offset"
    using assms \<open>0 \<le> ?s\<close> by (intro wrap64_id) (simp_all add: unix_range_def unix_offset_def)
  moreover have "wrap64 ?s = ?s"
    using assms \<open>0 \<le> ?s\<close> by (intro wrap64_id) (simp_all add: unix_range_def)
  ultimately show ?thesis by (simp add: time_Unix_def Unix_def Truncate_second_def minus_mod_eq_div_mult)
qed

lemma time_Unix_Unix:
  "unix_range t \<Longrightarrow> second dvd instant t \<Longrightarrow> instant (time_Unix (Unix t)) = instant t"
  by (simp add: time_Unix_Unix_trunc Truncate_second_def)

lemma time_UTC_eqI: "instant t = instant u \<Longrightarrow> zone u = UTC \<Longrightarrow> time_UTC t = u"
  by (simp add: time_UTC_def)

end
