(* ===== verification/Repository.thy ===== *)
theory Repository
  imports Rooms GoTime "HOL-Library.Option_ord"
begin

text \<open>
  The storage boundary of \<open>db/repository.go\<close>: the rows both backends keep, the
  \<open>Repository\<close> interface as a record of operations over a backend state, and the contract
  the rest of the program relies on as locales. The two backends are modelled in theories
  \<open>Sqlite\<close> and \<open>Postgres\<close>, each of which interprets the locales on its own operations.

  The database engine itself is a service. Its SQL statements are in the source and are
  modelled here as functions on the rows of a table (\<open>WHERE\<close>, \<open>ORDER BY\<close> and
  \<open>LIMIT\<close>); what the driver does beyond that, fail at some call or hand out an identifier,
  is a field of the backend state that the environment chooses before each call.
\<close>

section \<open>Rows\<close>

record db_Message =
  db_ID :: int
  db_UserID :: string
  db_Username :: string
  db_Content :: string
  db_Type :: string
  db_Room :: string
  db_Timestamp :: gotime

record ModerationEvent =
  ev_ID :: int
  ev_SessionID :: string
  ev_UserID :: string
  ev_Username :: string
  ev_Reason :: string
  ev_ContentPreview :: string
  ev_ContentLength :: int
  ev_Timestamp :: gotime

definition maxAuditPreviewRunes :: int where
  "maxAuditPreviewRunes = 256"

datatype db_error = RoomInvalid room_error | DriverError string

text \<open>
  What the driver does during one operation. \<open>NextFails k\<close> and \<open>ScanFails k\<close> stop the
  reading of a result set after \<open>k\<close> rows; \<open>ReturningFails e applied\<close> is a failed
  \<open>INSERT \<dots> RETURNING\<close>, whose row may or may not have been stored.
\<close>

datatype fault =
    NoFault
  | PrepareFails string
  | ExecFails string
  | InsertIdFails string
  | RowsAffectedFails string
  | QueryFails string
  | NextFails nat string
  | ScanFails nat string
  | ReturningFails string bool
  | PingFails string

section \<open>Positions in a room's history\<close>

text \<open>
  The sort key of \<open>ORDER BY timestamp DESC, id DESC\<close>, and the continuation boundary of a
  history page: the stored timestamp as the engine compares it (\<open>None\<close> is SQL's
  \<open>NULL\<close>, which sorts first), then the row identifier.
\<close>

datatype position = Position (pos_stamp: "int option") (pos_id: int)

instantiation position :: linorder
begin

definition less_eq_position :: "position \<Rightarrow> position \<Rightarrow> bool" where
  "less_eq_position p q \<longleftrightarrow>
     pos_stamp p < pos_stamp q \<or> pos_stamp p = pos_stamp q \<and> pos_id p \<le> pos_id q"

definition less_position :: "position \<Rightarrow> position \<Rightarrow> bool" where
  "less_position p q \<longleftrightarrow>
     pos_stamp p < pos_stamp q \<or> pos_stamp p = pos_stamp q \<and> pos_id p < pos_id q"

instance
proof
  fix x y z :: position
  show "x < y \<longleftrightarrow> x \<le> y \<and> \<not> y \<le> x"
    by (auto simp: less_eq_position_def less_position_def)
  show "x \<le> x" by (simp add: less_eq_position_def)
  show "x \<le> y \<Longrightarrow> y \<le> z \<Longrightarrow> x \<le> z"
    unfolding less_eq_position_def by (elim disjE conjE) (auto intro: less_trans)
  show "x \<le> y \<Longrightarrow> y \<le> x \<Longrightarrow> x = y"
    unfolding less_eq_position_def by (elim disjE conjE) (auto intro: position.expand dest: less_asym)
  show "x \<le> y \<or> y \<le> x"
    unfolding less_eq_position_def by (metis linear neq_iff)
qed

end

section \<open>SQL on a list of rows\<close>

definition sql_order_desc :: "('r \<Rightarrow> position) \<Rightarrow> 'r list \<Rightarrow> 'r list" where
  "sql_order_desc key rows = rev (sort_key key rows)"

definition sql_lt :: "int option \<Rightarrow> int option \<Rightarrow> bool" where
  "sql_lt a b = (case (a, b) of (Some x, Some y) \<Rightarrow> x < y | _ \<Rightarrow> False)"

definition sql_eq :: "int option \<Rightarrow> int option \<Rightarrow> bool" where
  "sql_eq a b = (case (a, b) of (Some x, Some y) \<Rightarrow> x = y | _ \<Rightarrow> False)"

lemma sql_compare_Some [simp]:
  "sql_lt (Some x) (Some y) \<longleftrightarrow> x < y" "sql_eq (Some x) (Some y) \<longleftrightarrow> x = y"
  by (simp_all add: sql_lt_def sql_eq_def)

lemma sort_key_strict:
  assumes "distinct (map key rows)"
  shows "sorted_wrt (\<lambda>a b. key a < key b) (sort_key key rows)"
proof -
  have "distinct (map key (sort_key key rows))"
    using assms by (metis distinct_map distinct_sort set_sort)
  then have "sorted_wrt (<) (map key (sort_key key rows))"
    by (simp add: strict_sorted_iff)
  then show ?thesis by (simp add: sorted_wrt_map)
qed

lemma take_sql_order_desc: "rev (take n (sql_order_desc key rows)) = lastn n (sort_key key rows)"
  by (simp add: sql_order_desc_def lastn_rev_take)

lemma filter_sort_key: "filter P (sort_key key rows) = sort_key key (filter P rows)"
  by (simp add: filter_sort)

section \<open>Reading a result set\<close>

text \<open>
  The loop \<open>for rows.Next() { rows.Scan(...); messages = append(messages, msg) }\<close>: it
  stops with an error when a \<open>Scan\<close> fails, and otherwise hands over the rows read and
  what \<open>rows.Err()\<close> reports.
\<close>

fun scan_rows :: "fault \<Rightarrow> ('r \<Rightarrow> 'm) \<Rightarrow> nat \<Rightarrow> 'r list \<Rightarrow> 'm list \<Rightarrow> (db_error, 'm list \<times> db_error option) result" where
  "scan_rows f rd i [] acc =
     Inr (acc, (case f of NextFails k e \<Rightarrow> if k = i then Some (DriverError e) else None | _ \<Rightarrow> None))"
| "scan_rows f rd i (r # rs) acc =
     (case f of
        NextFails k e \<Rightarrow> if k = i then Inr (acc, Some (DriverError e)) else scan_rows f rd (i + 1) rs (acc @ [rd r])
      | ScanFails k e \<Rightarrow> if k = i then Inl (DriverError e) else scan_rows f rd (i + 1) rs (acc @ [rd r])
      | _ \<Rightarrow> scan_rows f rd (i + 1) rs (acc @ [rd r]))"

lemma scan_rows_complete:
  "scan_rows f rd i rs acc = Inr (out, None) \<Longrightarrow> out = acc @ map rd rs"
proof (induction rs arbitrary: i acc)
  case (Cons r rs)
  from Cons.prems have "scan_rows f rd (i + 1) rs (acc @ [rd r]) = Inr (out, None)"
    by (simp split: fault.splits if_splits)
  then show ?case using Cons.IH by fastforce
qed simp

lemma scan_rows_NoFault: "scan_rows NoFault rd i rs acc = Inr (acc @ map rd rs, None)"
  by (induction rs arbitrary: i acc) auto

section \<open>The Repository interface\<close>

record 's Repository =
  SaveMessageInRoomContext ::
    "'s \<Rightarrow> string \<Rightarrow> string \<Rightarrow> string \<Rightarrow> string \<Rightarrow> (db_error, db_Message) result \<times> 's"
  SaveMessageForUserInRoomContext ::
    "'s \<Rightarrow> string \<Rightarrow> string \<Rightarrow> string \<Rightarrow> string \<Rightarrow> string \<Rightarrow> (db_error, db_Message) result \<times> 's"
  GetRecentMessagesInRoomContext :: "'s \<Rightarrow> string \<Rightarrow> int \<Rightarrow> (db_error, db_Message list) result"
  GetMessagesBeforeInRoomContext ::
    "'s \<Rightarrow> string \<Rightarrow> gotime \<Rightarrow> int \<Rightarrow> int \<Rightarrow> (db_error, db_Message list) result"
  SaveModerationEventContext ::
    "'s \<Rightarrow> string \<Rightarrow> string \<Rightarrow> string \<Rightarrow> string \<Rightarrow> (db_error, ModerationEvent) result \<times> 's"
  SaveModerationEventForUserContext ::
    "'s \<Rightarrow> string \<Rightarrow> string \<Rightarrow> string \<Rightarrow> string \<Rightarrow> string \<Rightarrow> (db_error, ModerationEvent) result \<times> 's"
  PruneMessagesBeforeContext :: "'s \<Rightarrow> gotime \<Rightarrow> (db_error, int) result \<times> 's"
  PruneModerationEventsBeforeContext :: "'s \<Rightarrow> gotime \<Rightarrow> (db_error, int) result \<times> 's"
  PingContext :: "'s \<Rightarrow> db_error option"

section \<open>The contract: reading\<close>

text \<open>
  What a backend promises to its readers. \<open>history s room\<close> is the room's durable history,
  oldest first; \<open>stamp\<close> is the engine's view of a timestamp. A page is the newest end of
  the history, or of the part of it before a boundary, which is some part of it even when the engine
  cannot order the boundary (\<open>before_part\<close>); the driver can make a call fail, but
  never shorten, reorder or mix a page.
\<close>

definition message_pos :: "(gotime \<Rightarrow> int option) \<Rightarrow> db_Message \<Rightarrow> position" where
  "message_pos stamp m = Position (stamp (db_Timestamp m)) (db_ID m)"

locale history_reader =
  fixes R :: "'s Repository"
    and invar :: "'s \<Rightarrow> bool"
    and quiet :: "'s \<Rightarrow> bool"
    and history :: "'s \<Rightarrow> string \<Rightarrow> db_Message list"
    and stamp :: "gotime \<Rightarrow> int option"
  assumes recent_sound: "invar s \<Longrightarrow> canonical_room room \<Longrightarrow> 0 \<le> n \<Longrightarrow>
      GetRecentMessagesInRoomContext R s room n = Inr ms \<Longrightarrow> ms = lastn (nat n) (history s room)"
    and recent_total: "invar s \<Longrightarrow> quiet s \<Longrightarrow> canonical_room room \<Longrightarrow> 0 \<le> n \<Longrightarrow>
      is_ok (GetRecentMessagesInRoomContext R s room n)"
    and before_sound: "invar s \<Longrightarrow> canonical_room room \<Longrightarrow> 0 \<le> n \<Longrightarrow> zone t = UTC \<Longrightarrow> db_range t \<Longrightarrow>
      GetMessagesBeforeInRoomContext R s room t i n = Inr ms \<Longrightarrow>
      ms = lastn (nat n) (filter (\<lambda>m. message_pos stamp m < Position (stamp t) i) (history s room))"
    and before_total: "invar s \<Longrightarrow> quiet s \<Longrightarrow> canonical_room room \<Longrightarrow> 0 \<le> n \<Longrightarrow>
      is_ok (GetMessagesBeforeInRoomContext R s room t i n)"
    and history_sorted: "invar s \<Longrightarrow>
      sorted_wrt (\<lambda>a b. message_pos stamp a < message_pos stamp b) (history s room)"
    and history_row: "invar s \<Longrightarrow> m \<in> set (history s room) \<Longrightarrow>
      db_Room m = room \<and> canonical_room room \<and> 1 \<le> db_ID m \<and> \<not> IsZero (db_Timestamp m) \<and>
      zone (db_Timestamp m) = UTC \<and> db_range (db_Timestamp m)"
    and before_part: "invar s \<Longrightarrow> canonical_room room \<Longrightarrow> 0 \<le> n \<Longrightarrow> zone t = UTC \<Longrightarrow>
      GetMessagesBeforeInRoomContext R s room t i n = Inr ms \<Longrightarrow> \<exists>P. ms = lastn (nat n) (filter P (history s room))"
begin

lemma recent_eq: "invar s \<Longrightarrow> quiet s \<Longrightarrow> canonical_room room \<Longrightarrow> 0 \<le> n \<Longrightarrow>
    GetRecentMessagesInRoomContext R s room n = Inr (lastn (nat n) (history s room))"
  using recent_total [of s room n] recent_sound [of s room n] by (auto simp: is_ok_iff)

lemma before_eq: "invar s \<Longrightarrow> quiet s \<Longrightarrow> canonical_room room \<Longrightarrow> 0 \<le> n \<Longrightarrow> zone t = UTC \<Longrightarrow> db_range t \<Longrightarrow>
    GetMessagesBeforeInRoomContext R s room t i n =
      Inr (lastn (nat n) (filter (\<lambda>m. message_pos stamp m < Position (stamp t) i) (history s room)))"
  using before_total [of s room n t i] before_sound [of s room n t i] by (auto simp: is_ok_iff)

text \<open>The part of a history before one of its own messages is what precedes it in the list.\<close>

lemma before_member:
  assumes "invar s" "history s room = xs @ m # ys"
  shows "filter (\<lambda>x. message_pos stamp x < message_pos stamp m) (history s room) = xs"
  using sorted_wrt_cut [of "message_pos stamp" xs m ys] history_sorted [OF assms(1), of room]
  by (simp add: assms(2))

end

section \<open>The contract: writing\<close>

text \<open>
  What a backend promises to its writers: an accepted message is a durable row with a fresh
  positive identifier and a UTC timestamp, in the normalized room, and no other room changes;
  the handshake type \<open>username\<close> is answered without a row.
\<close>

locale history_writer = history_reader R invar quiet history stamp
  for R :: "'s Repository" and invar quiet history stamp +
  assumes save_room: "SaveMessageForUserInRoomContext R s room u n c t = (Inr m, s') \<Longrightarrow>
      NormalizeRoom room = Inr (db_Room m) \<and> db_UserID m = u \<and> db_Username m = n \<and> db_Content m = c \<and>
      db_Type m = t \<and> zone (db_Timestamp m) = UTC"
    and save_invar: "invar s \<Longrightarrow> SaveMessageForUserInRoomContext R s room u n c t = (r, s') \<Longrightarrow> invar s'"
    and save_adds: "invar s \<Longrightarrow> t \<noteq> ''username'' \<Longrightarrow>
      SaveMessageForUserInRoomContext R s room u n c t = (Inr m, s') \<Longrightarrow>
      set (history s' (db_Room m)) = insert m (set (history s (db_Room m))) \<and>
      (\<forall>rm. \<forall>x \<in> set (history s rm). db_ID x < db_ID m)"
    and save_other: "invar s \<Longrightarrow> SaveMessageForUserInRoomContext R s room u n c t = (r, s') \<Longrightarrow>
      NormalizeRoom room \<noteq> Inr rm \<Longrightarrow> history s' rm = history s rm"
    and save_handshake: "invar s \<Longrightarrow> SaveMessageForUserInRoomContext R s room u n c ''username'' = (r, s') \<Longrightarrow> s' = s"
    and audit_history: "invar s \<Longrightarrow> SaveModerationEventForUserContext R s sid u n rsn c = (ev, s') \<Longrightarrow>
      invar s' \<and> history s' = history s"
begin

lemma saved_message_ok:
  assumes "invar s" "t \<noteq> ''username''" "SaveMessageForUserInRoomContext R s room u n c t = (Inr m, s')"
  shows "1 \<le> db_ID m \<and> \<not> IsZero (db_Timestamp m) \<and> canonical_room (db_Room m) \<and>
    m \<in> set (history s' (db_Room m))"
proof -
  have "m \<in> set (history s' (db_Room m))" using save_adds [OF assms] by simp
  with history_row [OF save_invar [OF assms(1,3)] this] show ?thesis by simp
qed

end

end
