(* ===== verification/GoHttp.thy ===== *)
theory GoHttp
  imports GoStrings GoTime
begin

text \<open>
  The part of \<open>net/http\<close> the handlers touch: a parsed request, cookies, and the response
  writer as a record that a handler returns updated. A handler is a function from a writer and
  a request to a writer; its body is a value of the handler's own type, since what
  \<open>encoding/json\<close> prints is not read back by the program.
\<close>

section \<open>Requests\<close>

record Request =
  req_Method :: string
  req_Path :: string
  req_Query :: "(string \<times> string) list"
  req_Header :: "(string \<times> string) list"
  req_Cookies :: "(string \<times> string) list"
  req_RemoteAddr :: string

text \<open>All values of a key, in order; and \<open>Get\<close>, the first one or the empty string.\<close>

definition values_of :: "(string \<times> string) list \<Rightarrow> string \<Rightarrow> string list" where
  "values_of kvs k = map snd (filter (\<lambda>kv. fst kv = k) kvs)"

definition Values_Get :: "(string \<times> string) list \<Rightarrow> string \<Rightarrow> string" where
  "Values_Get kvs k = (case values_of kvs k of [] \<Rightarrow> [] | v # _ \<Rightarrow> v)"

text \<open>\<open>r.Cookie(name)\<close>: the first cookie of that name, or \<open>http.ErrNoCookie\<close>.\<close>

definition Request_Cookie :: "Request \<Rightarrow> string \<Rightarrow> string option" where
  "Request_Cookie r name = (case values_of (req_Cookies r) name of [] \<Rightarrow> None | v # _ \<Rightarrow> Some v)"

text \<open>\<open>net.SplitHostPort\<close>, with \<open>None\<close> for each of its errors; only the host is used.\<close>

definition after_last :: "char \<Rightarrow> string \<Rightarrow> string" where
  "after_last c s = rev (takeWhile (\<lambda>x. x \<noteq> c) (rev s))"

definition SplitHostPort_host :: "string \<Rightarrow> string option" where
  "SplitHostPort_host hostport =
     (if CHR '':'' \<notin> set hostport then None
      else let i = length hostport - length (after_last (CHR '':'') hostport) - 1 in
        if hd hostport = CHR ''['' then
          (if CHR '']'' \<notin> set hostport then None
           else let e = length (takeWhile (\<lambda>x. x \<noteq> CHR '']'') hostport) in
             if e + 1 \<noteq> i then None
             else if CHR ''['' \<in> set (drop 1 hostport) \<or> CHR '']'' \<in> set (drop (e + 1) hostport) then None
             else Some (drop 1 (take e hostport)))
        else let host = take i hostport in
          if CHR '':'' \<in> set host then None
          else if CHR ''['' \<in> set hostport \<or> CHR '']'' \<in> set hostport then None
          else Some host)"

section \<open>Cookies and the response writer\<close>

datatype SameSite = SameSiteDefaultMode | SameSiteLaxMode | SameSiteStrictMode | SameSiteNoneMode

record Cookie =
  ck_Name :: string
  ck_Value :: string
  ck_Path :: string
  ck_Expires :: gotime
  ck_MaxAge :: int
  ck_HttpOnly :: bool
  ck_Secure :: bool
  ck_SameSite :: SameSite

record 'b ResponseWriter =
  w_headers :: "(string \<times> string) list"
  w_status :: "nat option"
  w_cookies :: "Cookie list"
  w_body :: "'b option"

definition new_writer :: "'b ResponseWriter" where
  "new_writer = \<lparr>w_headers = [], w_status = None, w_cookies = [], w_body = None\<rparr>"

definition Header_Set :: "string \<Rightarrow> string \<Rightarrow> 'b ResponseWriter \<Rightarrow> 'b ResponseWriter" where
  "Header_Set k v w = w\<lparr>w_headers := filter (\<lambda>kv. fst kv \<noteq> k) (w_headers w) @ [(k, v)]\<rparr>"

definition Header_Add :: "string \<Rightarrow> string \<Rightarrow> 'b ResponseWriter \<Rightarrow> 'b ResponseWriter" where
  "Header_Add k v w = w\<lparr>w_headers := w_headers w @ [(k, v)]\<rparr>"

definition Header_Del :: "string \<Rightarrow> 'b ResponseWriter \<Rightarrow> 'b ResponseWriter" where
  "Header_Del k w = w\<lparr>w_headers := filter (\<lambda>kv. fst kv \<noteq> k) (w_headers w)\<rparr>"

text \<open>Only the first call of \<open>WriteHeader\<close> counts; a body written before it implies 200.\<close>

definition WriteHeader :: "nat \<Rightarrow> 'b ResponseWriter \<Rightarrow> 'b ResponseWriter" where
  "WriteHeader code w = (case w_status w of None \<Rightarrow> w\<lparr>w_status := Some code\<rparr> | Some _ \<Rightarrow> w)"

definition write_body :: "'b \<Rightarrow> 'b ResponseWriter \<Rightarrow> 'b ResponseWriter" where
  "write_body b w = (WriteHeader 200 w)\<lparr>w_body := Some b\<rparr>"

definition SetCookie :: "Cookie \<Rightarrow> 'b ResponseWriter \<Rightarrow> 'b ResponseWriter" where
  "SetCookie c w = w\<lparr>w_cookies := w_cookies w @ [c]\<rparr>"

definition w_header :: "'b ResponseWriter \<Rightarrow> string \<Rightarrow> string" where
  "w_header w k = Values_Get (w_headers w) k"

section \<open>Lemmas\<close>

lemma values_of_simps [simp]:
  "values_of [] k = []"
  "values_of ((j, v) # kvs) k = (if j = k then v # values_of kvs k else values_of kvs k)"
  "values_of (xs @ ys) k = values_of xs k @ values_of ys k"
  by (simp_all add: values_of_def)

lemma values_of_filter [simp]:
  "values_of (filter (\<lambda>kv. fst kv \<noteq> j) kvs) k = (if j = k then [] else values_of kvs k)"
  by (induction kvs) (auto simp: values_of_def)

lemma header_ops [simp]:
  "w_status (Header_Set k v w) = w_status w" "w_cookies (Header_Set k v w) = w_cookies w"
  "w_body (Header_Set k v w) = w_body w"
  "w_status (Header_Add k v w) = w_status w" "w_cookies (Header_Add k v w) = w_cookies w"
  "w_body (Header_Add k v w) = w_body w"
  "w_status (Header_Del k w) = w_status w" "w_cookies (Header_Del k w) = w_cookies w"
  "w_body (Header_Del k w) = w_body w"
  by (simp_all add: Header_Set_def Header_Add_def Header_Del_def)

lemma write_ops [simp]:
  "w_status (write_body b w) = Some (case w_status w of None \<Rightarrow> 200 | Some c \<Rightarrow> c)"
  "w_cookies (write_body b w) = w_cookies w" "w_body (write_body b w) = Some b"
  "w_headers (write_body b w) = w_headers w"
  "w_status (WriteHeader c w) = Some (case w_status w of None \<Rightarrow> c | Some d \<Rightarrow> d)"
  "w_cookies (WriteHeader c w) = w_cookies w" "w_body (WriteHeader c w) = w_body w"
  "w_headers (WriteHeader c w) = w_headers w"
  "w_status (SetCookie ck w) = w_status w" "w_cookies (SetCookie ck w) = w_cookies w @ [ck]"
  "w_body (SetCookie ck w) = w_body w" "w_headers (SetCookie ck w) = w_headers w"
  by (simp_all add: write_body_def WriteHeader_def SetCookie_def split: option.splits)

lemma w_header_simps [simp]:
  "w_header (Header_Set k v w) j = (if k = j then v else w_header w j)"
  "w_header (write_body b w) j = w_header w j"
  "w_header (WriteHeader c w) j = w_header w j"
  "w_header (SetCookie ck w) j = w_header w j"
  by (simp_all add: w_header_def Values_Get_def Header_Set_def)

lemma w_header_Add: "k \<noteq> j \<Longrightarrow> w_header (Header_Add k v w) j = w_header w j"
  by (simp add: w_header_def Values_Get_def Header_Add_def)

lemma new_writer_simps [simp]:
  "w_status new_writer = None" "w_headers new_writer = []" "w_cookies new_writer = []" "w_body new_writer = None"
  "w_header new_writer k = []"
  by (simp_all add: new_writer_def w_header_def Values_Get_def)

end
