(* ===== verification/Config.thy ===== *)
theory Config
  imports GoHttp GoStrings Complex_Main
begin

text \<open>
  Process configuration, \<open>internal/config/config.go\<close>: reading the environment with its
  defaults and clamps, the origin allowlist, and the list splitter. The environment is a
  function from variable names to values; \<open>strconv.ParseFloat\<close> and
  \<open>time.ParseDuration\<close> are parameters (\<open>number_lib\<close>), because their results depend on
  IEEE rounding. A \<open>float64\<close> is only ever compared with zero: its finite values are
  rationals, beside the two infinities and NaN, with which every comparison is false.
\<close>

section \<open>Floating-point rates\<close>

datatype float64 = Finite rat | PosInf | NegInf | NaN

definition float_le_zero :: "float64 \<Rightarrow> bool" where
  "float_le_zero f = (case f of Finite q \<Rightarrow> q \<le> 0 | PosInf \<Rightarrow> False | NegInf \<Rightarrow> True | NaN \<Rightarrow> False)"

definition float_gt_zero :: "float64 \<Rightarrow> bool" where
  "float_gt_zero f = (case f of Finite q \<Rightarrow> q > 0 | PosInf \<Rightarrow> True | NegInf \<Rightarrow> False | NaN \<Rightarrow> False)"

record number_lib =
  ParseFloat :: "string \<Rightarrow> float64 option"
  ParseDuration :: "string \<Rightarrow> int option"

section \<open>Configuration\<close>

definition defaultHTTPAddr :: string where "defaultHTTPAddr = '':8080''"
definition defaultDBPath :: string where "defaultDBPath = ''./chatster.db''"
definition defaultStorage :: string where "defaultStorage = ''sqlite''"
definition defaultPostgresMinConns :: int where "defaultPostgresMinConns = 2"
definition defaultPostgresMaxConns :: int where "defaultPostgresMaxConns = 10"
definition defaultWSUpgradeRPS :: float64 where "defaultWSUpgradeRPS = Finite 5"
definition defaultWSUpgradeBurst :: int where "defaultWSUpgradeBurst = 10"
definition defaultMessageRPS :: float64 where "defaultMessageRPS = Finite 5"
definition defaultMessageBurst :: int where "defaultMessageBurst = 10"
definition defaultRedisNamespace :: string where "defaultRedisNamespace = ''development''"
definition defaultAuthMode :: string where "defaultAuthMode = ''anonymous''"
definition config_defaultSessionTTL :: int where "config_defaultSessionTTL = hour"

lemmas config_defaults = defaultHTTPAddr_def defaultDBPath_def defaultStorage_def defaultPostgresMinConns_def
  defaultPostgresMaxConns_def defaultWSUpgradeRPS_def defaultWSUpgradeBurst_def defaultMessageRPS_def
  defaultMessageBurst_def defaultRedisNamespace_def defaultAuthMode_def config_defaultSessionTTL_def

record Config =
  HTTPAddr :: string
  DBPath :: string
  Storage :: string
  PostgresDSN :: string
  PostgresMinConns :: int
  PostgresMaxConns :: int
  RedisURL :: string
  RedisNamespace :: string
  InstanceID :: string
  StaticDir :: string
  AllowedOrigins :: "string list"
  AuthMode :: string
  SessionSecret :: string
  AuthUsersJSON :: string
  SessionTTL :: int
  SessionCookieSecure :: bool
  WSUpgradeRPS :: float64
  WSUpgradeBurst :: int
  DisableWSRateLimit :: bool
  MessageRPS :: float64
  MessageBurst :: int
  DisableMessageRateLimit :: bool
  MessageRetentionDays :: int
  AuditRetentionDays :: int

type_synonym environ = "string \<Rightarrow> string"

section \<open>Helpers\<close>

definition parsePoolSizeEnv :: "environ \<Rightarrow> string \<Rightarrow> int \<Rightarrow> int" where
  "parsePoolSizeEnv getenv name defaultValue =
     (let raw = TrimSpace (getenv name) in
      if raw = [] then defaultValue
      else case ParseInt10 raw 32 of
             None \<Rightarrow> - 1
           | Some n \<Rightarrow> if n < 1 then - 1 else n)"

definition platformHTTPAddr :: "environ \<Rightarrow> string" where
  "platformHTTPAddr getenv =
     (let port = TrimSpace (getenv ''PORT'') in
      if port = [] then defaultHTTPAddr
      else case Atoi port of
             None \<Rightarrow> defaultHTTPAddr
           | Some portNumber \<Rightarrow>
             if portNumber < 1 \<or> portNumber > 65535 then defaultHTTPAddr
             else '':'' @ Itoa portNumber)"

fun split_loop :: "string list \<Rightarrow> string list \<Rightarrow> string list" where
  "split_loop [] out = out"
| "split_loop (p0 # parts) out =
     (let p = TrimSpace p0 in if p \<noteq> [] then split_loop parts (out @ [p]) else split_loop parts out)"

definition splitCSV :: "string \<Rightarrow> string list" where
  "splitCSV s = (if s = [] then [] else split_loop (Split s (CHR '','')) [])"

fun origin_loop :: "string list \<Rightarrow> string \<Rightarrow> bool" where
  "origin_loop [] origin = False"
| "origin_loop (o1 # os) origin = (if o1 = origin then True else origin_loop os origin)"

definition OriginAllowed :: "Config \<Rightarrow> Request \<Rightarrow> bool" where
  "OriginAllowed c r =
     (if length (AllowedOrigins c) = 0 then True
      else let origin = Values_Get (req_Header r) ''Origin'' in
        if origin = [] then True else origin_loop (AllowedOrigins c) origin)"

section \<open>FromEnv\<close>

text \<open>
  The two blocks that read a positive integer, the two that read a rate, and then the
  function itself, one definition per group of its statements, in their order.
\<close>

definition positive_env :: "environ \<Rightarrow> string \<Rightarrow> int option" where
  "positive_env getenv name =
     (let v = TrimSpace (getenv name) in
      if v = [] then None
      else case Atoi v of None \<Rightarrow> None | Some n \<Rightarrow> if n > 0 then Some n else None)"

datatype rate_setting = RateKeep | RateDisable | RateSet float64

definition rate_env :: "number_lib \<Rightarrow> environ \<Rightarrow> string \<Rightarrow> rate_setting" where
  "rate_env N getenv name =
     (let v = TrimSpace (getenv name) in
      if v = ''0'' then RateDisable
      else if v = [] then RateKeep
      else case ParseFloat N v of
             None \<Rightarrow> RateKeep
           | Some f \<Rightarrow> if float_le_zero f then RateDisable else RateSet f)"

definition env_initial :: "environ \<Rightarrow> Config" where
  "env_initial getenv =
     (let env = (\<lambda>name. TrimSpace (getenv name)) in
      \<lparr>HTTPAddr = env ''CHATSTER_HTTP_ADDR'',
       DBPath = env ''CHATSTER_DB_PATH'',
       Storage = ToLower (env ''CHATSTER_STORAGE''),
       PostgresDSN = env ''CHATSTER_POSTGRES_DSN'',
       PostgresMinConns = parsePoolSizeEnv getenv ''CHATSTER_POSTGRES_MIN_CONNS'' defaultPostgresMinConns,
       PostgresMaxConns = parsePoolSizeEnv getenv ''CHATSTER_POSTGRES_MAX_CONNS'' defaultPostgresMaxConns,
       RedisURL = env ''CHATSTER_REDIS_URL'',
       RedisNamespace = env ''CHATSTER_REDIS_NAMESPACE'',
       InstanceID = env ''CHATSTER_INSTANCE_ID'',
       StaticDir = env ''CHATSTER_STATIC_DIR'',
       AllowedOrigins = splitCSV (getenv ''CHATSTER_ALLOWED_ORIGINS''),
       AuthMode = ToLower (env ''CHATSTER_AUTH_MODE''),
       SessionSecret = getenv ''CHATSTER_SESSION_SECRET'',
       AuthUsersJSON = getenv ''CHATSTER_AUTH_USERS_JSON'',
       SessionTTL = config_defaultSessionTTL,
       SessionCookieSecure = True,
       WSUpgradeRPS = defaultWSUpgradeRPS,
       WSUpgradeBurst = defaultWSUpgradeBurst,
       DisableWSRateLimit = False,
       MessageRPS = defaultMessageRPS,
       MessageBurst = defaultMessageBurst,
       DisableMessageRateLimit = False,
       MessageRetentionDays = 0,
       AuditRetentionDays = 0\<rparr>)"

definition env_defaults :: "environ \<Rightarrow> Config \<Rightarrow> Config" where
  "env_defaults getenv cfg =
     (let cfg = (if HTTPAddr cfg = [] then cfg\<lparr>HTTPAddr := platformHTTPAddr getenv\<rparr> else cfg);
          cfg = (if DBPath cfg = [] then cfg\<lparr>DBPath := defaultDBPath\<rparr> else cfg);
          cfg = (if Storage cfg = [] then cfg\<lparr>Storage := defaultStorage\<rparr> else cfg);
          cfg = (if RedisNamespace cfg = [] then cfg\<lparr>RedisNamespace := defaultRedisNamespace\<rparr> else cfg)
      in if AuthMode cfg = [] then cfg\<lparr>AuthMode := defaultAuthMode\<rparr> else cfg)"

definition env_session :: "number_lib \<Rightarrow> environ \<Rightarrow> Config \<Rightarrow> Config" where
  "env_session N getenv cfg =
     (let raw = TrimSpace (getenv ''CHATSTER_SESSION_TTL'');
          cfg = (if raw \<noteq> [] then (case ParseDuration N raw of
                                    None \<Rightarrow> cfg\<lparr>SessionTTL := - 1\<rparr>
                                  | Some parsed \<Rightarrow> cfg\<lparr>SessionTTL := parsed\<rparr>)
                 else cfg)
      in if EqualFold (TrimSpace (getenv ''CHATSTER_SESSION_COOKIE_SECURE'')) ''false''
         then cfg\<lparr>SessionCookieSecure := False\<rparr> else cfg)"

definition env_retention :: "environ \<Rightarrow> Config \<Rightarrow> Config" where
  "env_retention getenv cfg =
     (let cfg = (case positive_env getenv ''CHATSTER_MESSAGE_RETENTION_DAYS'' of
                   None \<Rightarrow> cfg | Some n \<Rightarrow> cfg\<lparr>MessageRetentionDays := n\<rparr>)
      in case positive_env getenv ''CHATSTER_AUDIT_RETENTION_DAYS'' of
           None \<Rightarrow> cfg | Some n \<Rightarrow> cfg\<lparr>AuditRetentionDays := n\<rparr>)"

definition env_ws_limit :: "number_lib \<Rightarrow> environ \<Rightarrow> Config \<Rightarrow> Config" where
  "env_ws_limit N getenv cfg =
     (let cfg = (case rate_env N getenv ''CHATSTER_WS_UPGRADE_RPS'' of
                   RateKeep \<Rightarrow> cfg
                 | RateDisable \<Rightarrow> cfg\<lparr>DisableWSRateLimit := True\<rparr>
                 | RateSet f \<Rightarrow> cfg\<lparr>WSUpgradeRPS := f\<rparr>)
      in case positive_env getenv ''CHATSTER_WS_UPGRADE_BURST'' of
           None \<Rightarrow> cfg | Some n \<Rightarrow> cfg\<lparr>WSUpgradeBurst := n\<rparr>)"

definition env_message_limit :: "number_lib \<Rightarrow> environ \<Rightarrow> Config \<Rightarrow> Config" where
  "env_message_limit N getenv cfg =
     (let cfg = (case rate_env N getenv ''CHATSTER_MESSAGE_RPS'' of
                   RateKeep \<Rightarrow> cfg
                 | RateDisable \<Rightarrow> cfg\<lparr>DisableMessageRateLimit := True\<rparr>
                 | RateSet f \<Rightarrow> cfg\<lparr>MessageRPS := f\<rparr>)
      in case positive_env getenv ''CHATSTER_MESSAGE_BURST'' of
           None \<Rightarrow> cfg | Some n \<Rightarrow> cfg\<lparr>MessageBurst := n\<rparr>)"

definition FromEnv :: "number_lib \<Rightarrow> environ \<Rightarrow> Config" where
  "FromEnv N getenv =
     env_message_limit N getenv (env_ws_limit N getenv (env_retention getenv
       (env_session N getenv (env_defaults getenv (env_initial getenv)))))"

section \<open>Lemmas\<close>

lemma split_loop_eq: "split_loop parts out = out @ filter (\<lambda>p. p \<noteq> []) (map TrimSpace parts)"
  by (induction parts arbitrary: out) (auto simp: Let_def)

lemma splitCSV_eq: "splitCSV s = filter (\<lambda>p. p \<noteq> []) (map TrimSpace (Split s (CHR '','')))"
  by (simp add: splitCSV_def split_loop_eq TrimSpace_empty)

lemma origin_loop_iff: "origin_loop os origin \<longleftrightarrow> origin \<in> set os"
  by (induction os) auto

lemma OriginAllowed_iff:
  "OriginAllowed c r \<longleftrightarrow> AllowedOrigins c = [] \<or> Values_Get (req_Header r) ''Origin'' = [] \<or>
     Values_Get (req_Header r) ''Origin'' \<in> set (AllowedOrigins c)"
  by (simp add: OriginAllowed_def origin_loop_iff Let_def)

lemma parsePoolSizeEnv_range:
  assumes "1 \<le> d" "d < 2 ^ 31"
  shows "parsePoolSizeEnv getenv name d = - 1 \<or> 1 \<le> parsePoolSizeEnv getenv name d \<and> parsePoolSizeEnv getenv name d < 2 ^ 31"
  using assms ParseInt10_range [of "TrimSpace (getenv name)" 32]
  by (auto simp: parsePoolSizeEnv_def Let_def split: option.splits)

text \<open>What every configuration read from an environment satisfies, whatever the variables hold.\<close>

definition config_ok :: "Config \<Rightarrow> bool" where
  "config_ok c \<longleftrightarrow> HTTPAddr c \<noteq> [] \<and> DBPath c \<noteq> [] \<and> Storage c \<noteq> [] \<and> RedisNamespace c \<noteq> [] \<and> AuthMode c \<noteq> [] \<and>
     (PostgresMinConns c = - 1 \<or> 1 \<le> PostgresMinConns c \<and> PostgresMinConns c < 2 ^ 31) \<and>
     (PostgresMaxConns c = - 1 \<or> 1 \<le> PostgresMaxConns c \<and> PostgresMaxConns c < 2 ^ 31) \<and>
     1 \<le> WSUpgradeBurst c \<and> 1 \<le> MessageBurst c \<and> 0 \<le> MessageRetentionDays c \<and> 0 \<le> AuditRetentionDays c \<and>
     \<not> float_le_zero (WSUpgradeRPS c) \<and> \<not> float_le_zero (MessageRPS c) \<and>
     (\<forall>o1 \<in> set (AllowedOrigins c). o1 \<noteq> [] \<and> TrimSpace o1 = o1)"

lemma positive_env_pos: "positive_env getenv name = Some n \<Longrightarrow> 1 \<le> n"
  by (auto simp: positive_env_def Let_def split: if_splits option.splits)

lemma rate_env_pos: "rate_env N getenv name = RateSet f \<Longrightarrow> \<not> float_le_zero f"
  by (auto simp: rate_env_def Let_def split: if_splits option.splits)

lemma splitCSV_trimmed: "o1 \<in> set (splitCSV s) \<Longrightarrow> o1 \<noteq> [] \<and> TrimSpace o1 = o1"
  by (auto simp: splitCSV_eq TrimSpace_idem)

lemma platformHTTPAddr_ne: "platformHTTPAddr getenv \<noteq> []"
  by (simp add: platformHTTPAddr_def Let_def defaultHTTPAddr_def split: option.splits)

text \<open>
  \<open>FromEnv\<close> field by field: each variable decides its own field and no other, so the
  sequence of updates collapses to one record.
\<close>

definition or_default :: "string \<Rightarrow> string \<Rightarrow> string" where
  "or_default v d = (if v = [] then d else v)"

definition rate_value :: "rate_setting \<Rightarrow> float64 \<Rightarrow> float64" where
  "rate_value s d = (case s of RateSet f \<Rightarrow> f | _ \<Rightarrow> d)"

definition int_or :: "int \<Rightarrow> int option \<Rightarrow> int" where
  "int_or d x = (case x of None \<Rightarrow> d | Some n \<Rightarrow> n)"

definition ttl_setting :: "number_lib \<Rightarrow> string \<Rightarrow> int \<Rightarrow> int" where
  "ttl_setting N raw d = (if raw \<noteq> [] then int_or (- 1) (ParseDuration N raw) else d)"

lemma env_defaults_eq:
  "env_defaults getenv cfg = cfg\<lparr>HTTPAddr := or_default (HTTPAddr cfg) (platformHTTPAddr getenv),
     DBPath := or_default (DBPath cfg) defaultDBPath, Storage := or_default (Storage cfg) defaultStorage,
     RedisNamespace := or_default (RedisNamespace cfg) defaultRedisNamespace,
     AuthMode := or_default (AuthMode cfg) defaultAuthMode\<rparr>"
  by (cases cfg) (simp add: env_defaults_def or_default_def)

lemma env_session_eq:
  "env_session N getenv cfg = cfg\<lparr>
     SessionTTL := ttl_setting N (TrimSpace (getenv ''CHATSTER_SESSION_TTL'')) (SessionTTL cfg),
     SessionCookieSecure := (SessionCookieSecure cfg \<and>
        \<not> EqualFold (TrimSpace (getenv ''CHATSTER_SESSION_COOKIE_SECURE'')) ''false'')\<rparr>"
  by (cases cfg) (simp add: env_session_def ttl_setting_def int_or_def Let_def split: option.split)

lemma env_retention_eq:
  "env_retention getenv cfg = cfg\<lparr>
     MessageRetentionDays := int_or (MessageRetentionDays cfg) (positive_env getenv ''CHATSTER_MESSAGE_RETENTION_DAYS''),
     AuditRetentionDays := int_or (AuditRetentionDays cfg) (positive_env getenv ''CHATSTER_AUDIT_RETENTION_DAYS'')\<rparr>"
  by (cases cfg) (simp add: env_retention_def int_or_def split: option.split)

lemma env_ws_limit_eq:
  "env_ws_limit N getenv cfg = cfg\<lparr>
     WSUpgradeRPS := rate_value (rate_env N getenv ''CHATSTER_WS_UPGRADE_RPS'') (WSUpgradeRPS cfg),
     DisableWSRateLimit := (DisableWSRateLimit cfg \<or> rate_env N getenv ''CHATSTER_WS_UPGRADE_RPS'' = RateDisable),
     WSUpgradeBurst := int_or (WSUpgradeBurst cfg) (positive_env getenv ''CHATSTER_WS_UPGRADE_BURST'')\<rparr>"
  by (cases cfg) (simp add: env_ws_limit_def rate_value_def int_or_def split: option.split rate_setting.split)

lemma env_message_limit_eq:
  "env_message_limit N getenv cfg = cfg\<lparr>
     MessageRPS := rate_value (rate_env N getenv ''CHATSTER_MESSAGE_RPS'') (MessageRPS cfg),
     DisableMessageRateLimit := (DisableMessageRateLimit cfg \<or> rate_env N getenv ''CHATSTER_MESSAGE_RPS'' = RateDisable),
     MessageBurst := int_or (MessageBurst cfg) (positive_env getenv ''CHATSTER_MESSAGE_BURST'')\<rparr>"
  by (cases cfg) (simp add: env_message_limit_def rate_value_def int_or_def split: option.split rate_setting.split)

lemma FromEnv_eq:
  "FromEnv N g =
     \<lparr>HTTPAddr = or_default (TrimSpace (g ''CHATSTER_HTTP_ADDR'')) (platformHTTPAddr g),
      DBPath = or_default (TrimSpace (g ''CHATSTER_DB_PATH'')) defaultDBPath,
      Storage = or_default (ToLower (TrimSpace (g ''CHATSTER_STORAGE''))) defaultStorage,
      PostgresDSN = TrimSpace (g ''CHATSTER_POSTGRES_DSN''),
      PostgresMinConns = parsePoolSizeEnv g ''CHATSTER_POSTGRES_MIN_CONNS'' 2,
      PostgresMaxConns = parsePoolSizeEnv g ''CHATSTER_POSTGRES_MAX_CONNS'' 10,
      RedisURL = TrimSpace (g ''CHATSTER_REDIS_URL''),
      RedisNamespace = or_default (TrimSpace (g ''CHATSTER_REDIS_NAMESPACE'')) defaultRedisNamespace,
      InstanceID = TrimSpace (g ''CHATSTER_INSTANCE_ID''),
      StaticDir = TrimSpace (g ''CHATSTER_STATIC_DIR''),
      AllowedOrigins = splitCSV (g ''CHATSTER_ALLOWED_ORIGINS''),
      AuthMode = or_default (ToLower (TrimSpace (g ''CHATSTER_AUTH_MODE''))) defaultAuthMode,
      SessionSecret = g ''CHATSTER_SESSION_SECRET'',
      AuthUsersJSON = g ''CHATSTER_AUTH_USERS_JSON'',
      SessionTTL = ttl_setting N (TrimSpace (g ''CHATSTER_SESSION_TTL'')) hour,
      SessionCookieSecure = (\<not> EqualFold (TrimSpace (g ''CHATSTER_SESSION_COOKIE_SECURE'')) ''false''),
      WSUpgradeRPS = rate_value (rate_env N g ''CHATSTER_WS_UPGRADE_RPS'') (Finite 5),
      WSUpgradeBurst = int_or 10 (positive_env g ''CHATSTER_WS_UPGRADE_BURST''),
      DisableWSRateLimit = (rate_env N g ''CHATSTER_WS_UPGRADE_RPS'' = RateDisable),
      MessageRPS = rate_value (rate_env N g ''CHATSTER_MESSAGE_RPS'') (Finite 5),
      MessageBurst = int_or 10 (positive_env g ''CHATSTER_MESSAGE_BURST''),
      DisableMessageRateLimit = (rate_env N g ''CHATSTER_MESSAGE_RPS'' = RateDisable),
      MessageRetentionDays = int_or 0 (positive_env g ''CHATSTER_MESSAGE_RETENTION_DAYS''),
      AuditRetentionDays = int_or 0 (positive_env g ''CHATSTER_AUDIT_RETENTION_DAYS'')\<rparr>"
  unfolding FromEnv_def env_initial_def Let_def env_defaults_eq
  unfolding config_defaults
  by (simp add: env_session_eq env_retention_eq env_ws_limit_eq env_message_limit_eq)

lemma or_default_ne [simp]: "or_default v d \<noteq> [] \<longleftrightarrow> v \<noteq> [] \<or> d \<noteq> []"
  by (simp add: or_default_def)

lemma FromEnv_config_ok: "config_ok (FromEnv N g)"
proof -
  have "\<not> float_le_zero (rate_value (rate_env N g v) (Finite 5))" for v
    using rate_env_pos [of N g v] by (auto simp: rate_value_def float_le_zero_def split: rate_setting.splits)
  moreover have "1 \<le> int_or 10 (positive_env g v)" "0 \<le> int_or 0 (positive_env g v)" for v
    using positive_env_pos [of g v] by (auto simp: int_or_def split: option.splits)
  ultimately show ?thesis
    using parsePoolSizeEnv_range [of 2 g "''CHATSTER_POSTGRES_MIN_CONNS''"]
      parsePoolSizeEnv_range [of 10 g "''CHATSTER_POSTGRES_MAX_CONNS''"] splitCSV_trimmed
    by (simp add: config_ok_def FromEnv_eq platformHTTPAddr_ne config_defaults)
qed

end
