(* ===== verification/RateLimit.thy ===== *)
theory RateLimit
  imports Config
begin

text \<open>
  Rate limiting: the per-address WebSocket upgrade limiter of
  \<open>internal/ratelimit/ws_upgrade.go\<close> and the construction of the limiters in
  \<open>mountWithAuth\<close> and \<open>newMessageLimiter\<close>. The token bucket itself is
  \<open>golang.org/x/time/rate\<close>, a third-party package: \<open>rate_lib\<close> holds its constructor
  and its \<open>Allow\<close>, which reads the clock and updates the bucket.
\<close>

record 'l rate_lib =
  rate_NewLimiter :: "float64 \<Rightarrow> int \<Rightarrow> 'l"
  rate_Allow :: "gotime \<Rightarrow> 'l \<Rightarrow> bool \<times> 'l"

record 'l WSUpgrade =
  limiters :: "string \<rightharpoonup> 'l"
  ws_r :: float64
  ws_burst :: int

definition NewWSUpgrade :: "float64 \<Rightarrow> int \<Rightarrow> 'l WSUpgrade" where
  "NewWSUpgrade rps burst0 =
     (let burst = (if burst0 < 1 then 1 else burst0) in
      \<lparr>limiters = Map.empty, ws_r = rps, ws_burst = burst\<rparr>)"

definition WSUpgrade_Allow :: "'l rate_lib \<Rightarrow> gotime \<Rightarrow> 'l WSUpgrade \<Rightarrow> string \<Rightarrow> bool \<times> 'l WSUpgrade" where
  "WSUpgrade_Allow X now w clientIP =
     (let bucket = (case limiters w clientIP of Some b \<Rightarrow> b | None \<Rightarrow> rate_NewLimiter X (ws_r w) (ws_burst w));
          (ok, bucket') = rate_Allow X now bucket
      in (ok, w\<lparr>limiters := (limiters w)(clientIP \<mapsto> bucket')\<rparr>))"

text \<open>The limiter \<open>mountWithAuth\<close> installs, and a client's message limiter; \<open>None\<close> is no limit.\<close>

definition mount_wsRL :: "Config \<Rightarrow> 'l WSUpgrade option" where
  "mount_wsRL cfg =
     (if \<not> DisableWSRateLimit cfg \<and> float_gt_zero (WSUpgradeRPS cfg)
      then Some (NewWSUpgrade (WSUpgradeRPS cfg) (WSUpgradeBurst cfg)) else None)"

definition newMessageLimiter :: "'l rate_lib \<Rightarrow> Config \<Rightarrow> 'l option" where
  "newMessageLimiter X cfg =
     (if DisableMessageRateLimit cfg \<or> float_le_zero (MessageRPS cfg) then None
      else let burst = (if MessageBurst cfg < 1 then 1 else MessageBurst cfg)
        in Some (rate_NewLimiter X (MessageRPS cfg) burst))"

section \<open>Isolation between addresses\<close>

text \<open>
  The specification: every address has a bucket of its own, built on first use, that sees only
  the attempts of that address.
\<close>

fun run_bucket :: "'l rate_lib \<Rightarrow> 'l \<Rightarrow> gotime list \<Rightarrow> bool list" where
  "run_bucket X l [] = []"
| "run_bucket X l (t # ts) = (let (ok, l') = rate_Allow X t l in ok # run_bucket X l' ts)"

fun run_upgrades :: "'l rate_lib \<Rightarrow> 'l WSUpgrade \<Rightarrow> (gotime \<times> string) list \<Rightarrow> (string \<times> bool) list" where
  "run_upgrades X w [] = []"
| "run_upgrades X w ((t, ip) # as) =
     (let (ok, w') = WSUpgrade_Allow X t w ip in (ip, ok) # run_upgrades X w' as)"

definition bucket_of :: "'l rate_lib \<Rightarrow> 'l WSUpgrade \<Rightarrow> string \<Rightarrow> 'l" where
  "bucket_of X w ip = (case limiters w ip of Some l \<Rightarrow> l | None \<Rightarrow> rate_NewLimiter X (ws_r w) (ws_burst w))"

lemma WSUpgrade_Allow_bucket:
  assumes "WSUpgrade_Allow X t w ip = (ok, w')"
  shows "ok = fst (rate_Allow X t (bucket_of X w ip))"
    and "bucket_of X w' j = (if j = ip then snd (rate_Allow X t (bucket_of X w ip)) else bucket_of X w j)"
  using assms by (auto simp: WSUpgrade_Allow_def bucket_of_def Let_def split: prod.splits option.splits)

lemma run_upgrades_bucket:
  "map snd (filter (\<lambda>a. fst a = ip) (run_upgrades X w as)) =
     run_bucket X (bucket_of X w ip) (map fst (filter (\<lambda>a. snd a = ip) as))"
proof (induction as arbitrary: w)
  case (Cons a as)
  obtain t j where a: "a = (t, j)" by fastforce
  obtain ok w' where s: "WSUpgrade_Allow X t w j = (ok, w')" by fastforce
  note b = WSUpgrade_Allow_bucket [OF s]
  show ?case
  proof (cases "j = ip")
    case True
    then show ?thesis using Cons.IH [of w'] b s by (simp add: a case_prod_beta)
  next
    case False
    then show ?thesis using Cons.IH [of w'] b(2) [of ip] by (simp add: a s)
  qed
qed simp

lemma bucket_of_new: "bucket_of X (NewWSUpgrade rps b) ip = rate_NewLimiter X rps (max 1 b)"
  by (simp add: bucket_of_def NewWSUpgrade_def Let_def max_def)

end
