(* ===== verification/Events.thy ===== *)
theory Events
  imports Rooms GoTime
begin

text \<open>
  The cross-instance event contract of \<open>internal/events/envelope.go\<close>: building and
  validating envelopes, the token normalization for namespaces and instance identifiers, and
  the Redis channel and pattern of a namespace.
\<close>

section \<open>Envelopes\<close>

definition Schema :: string where "Schema = ''chatster.room-message''"
definition Version :: int where "Version = 1"
definition maxTokenRunes :: nat where "maxTokenRunes = 64"
definition maxEventIDRunes :: nat where "maxEventIDRunes = 128"

record event_Message =
  em_ID :: int
  em_UserID :: string
  em_Username :: string
  em_Content :: string
  em_Type :: string

record Envelope =
  env_Schema :: string
  env_Version :: int
  env_EventID :: string
  env_Room :: string
  env_OriginInstance :: string
  env_Timestamp :: gotime
  env_Message :: event_Message

datatype token_error = TokenRequired | TokenTooLong | TokenBadChar

datatype event_error =
    UnsupportedSchema
  | UnsupportedVersion
  | EventIDNotToken
  | EventIDTooLong
  | TimestampRequired
  | TimestampNotUTC
  | InvalidEventRoom room_error
  | RoomNotCanonical
  | InvalidOrigin token_error
  | OriginNotCanonical
  | MessageIDNotPositive
  | InvalidUserID
  | UsernameRequired
  | ContentRequired
  | TypeNotDurable

section \<open>Tokens\<close>

definition token_rune :: "rune \<Rightarrow> bool" where
  "token_rune r \<longleftrightarrow> 97 \<le> r \<and> r \<le> 122 \<or> 48 \<le> r \<and> r \<le> 57 \<or> r = 95 \<or> r = 45"

fun token_loop :: "rune list \<Rightarrow> bool" where
  "token_loop [] = True"
| "token_loop (r # rs) =
     (if 97 \<le> r \<and> r \<le> 122 \<or> 48 \<le> r \<and> r \<le> 57 \<or> r = 95 \<or> r = 45 then token_loop rs else False)"

definition normalizeToken :: "string \<Rightarrow> (token_error, string) result" where
  "normalizeToken value0 =
     (let value = ToLower (TrimSpace value0) in
      if value = [] then Inl TokenRequired
      else if length (runes value) > maxTokenRunes then Inl TokenTooLong
      else if token_loop (runes value) then Inr value
      else Inl TokenBadChar)"

definition ValidateInstanceID :: "string \<Rightarrow> token_error option" where
  "ValidateInstanceID instanceID = (case normalizeToken instanceID of Inl e \<Rightarrow> Some e | Inr _ \<Rightarrow> None)"

text \<open>The same check as \<open>validIdentifier\<close> of package \<open>auth\<close>, written a second time in the source.\<close>

fun userID_loop :: "rune list \<Rightarrow> bool" where
  "userID_loop [] = True"
| "userID_loop (c # cs) =
     (let isLetter = 97 \<le> c \<and> c \<le> 122 \<or> 65 \<le> c \<and> c \<le> 90; isDigit = 48 \<le> c \<and> c \<le> 57 in
      if \<not> isLetter \<and> \<not> isDigit \<and> c \<noteq> 46 \<and> c \<noteq> 95 \<and> c \<noteq> 58 \<and> c \<noteq> 45 then False else userID_loop cs)"

definition validUserID :: "string \<Rightarrow> bool" where
  "validUserID value = (if length value = 0 \<or> length value > 128 then False else userID_loop (runes value))"

section \<open>Validation\<close>

definition Validate :: "Envelope \<Rightarrow> event_error option" where
  "Validate e =
     (if env_Schema e \<noteq> Schema then Some UnsupportedSchema
      else if env_Version e \<noteq> Version then Some UnsupportedVersion
      else if env_EventID e = [] \<or> env_EventID e \<noteq> TrimSpace (env_EventID e) then Some EventIDNotToken
      else if length (runes (env_EventID e)) > maxEventIDRunes then Some EventIDTooLong
      else if IsZero (env_Timestamp e) then Some TimestampRequired
      else if zone (env_Timestamp e) \<noteq> UTC then Some TimestampNotUTC
      else case NormalizeRoom (env_Room e) of
        Inl err \<Rightarrow> Some (InvalidEventRoom err)
      | Inr room \<Rightarrow>
        if room \<noteq> env_Room e then Some RoomNotCanonical
        else case normalizeToken (env_OriginInstance e) of
          Inl err \<Rightarrow> Some (InvalidOrigin err)
        | Inr originInstance \<Rightarrow>
          if originInstance \<noteq> env_OriginInstance e then Some OriginNotCanonical
          else let m = env_Message e in
            if em_ID m \<le> 0 then Some MessageIDNotPositive
            else if em_UserID m \<noteq> [] \<and> (\<not> validUserID (em_UserID m) \<or> em_UserID m \<noteq> TrimSpace (em_UserID m))
              then Some InvalidUserID
            else if TrimSpace (em_Username m) = [] then Some UsernameRequired
            else if em_Content m = [] then Some ContentRequired
            else if em_Type m = [] \<or> em_Type m = ''username'' then Some TypeNotDurable
            else None)"

definition New :: "string \<Rightarrow> string \<Rightarrow> string \<Rightarrow> event_Message \<Rightarrow> gotime \<Rightarrow> (event_error, Envelope) result" where
  "New eventID room originInstance message timestamp =
     (let envelope = \<lparr>env_Schema = Schema, env_Version = Version, env_EventID = eventID, env_Room = room,
                      env_OriginInstance = originInstance, env_Timestamp = time_UTC timestamp,
                      env_Message = message\<rparr>
      in case Validate envelope of Some err \<Rightarrow> Inl err | None \<Rightarrow> Inr envelope)"

section \<open>Channels\<close>

datatype channel_error = InvalidNamespace token_error | InvalidChannelRoom room_error

definition channel_prefix :: "string \<Rightarrow> string" where
  "channel_prefix namespace = ''chatster:v'' @ Itoa Version @ '':'' @ namespace @ '':room:''"

definition Channel :: "string \<Rightarrow> string \<Rightarrow> (channel_error, string) result" where
  "Channel namespace0 room0 =
     (case normalizeToken namespace0 of
        Inl e \<Rightarrow> Inl (InvalidNamespace e)
      | Inr namespace \<Rightarrow>
        (case NormalizeRoom room0 of
           Inl e \<Rightarrow> Inl (InvalidChannelRoom e)
         | Inr room \<Rightarrow> Inr (channel_prefix namespace @ room)))"

definition ChannelPattern :: "string \<Rightarrow> (channel_error, string) result" where
  "ChannelPattern namespace0 =
     (case normalizeToken namespace0 of
        Inl e \<Rightarrow> Inl (InvalidNamespace e)
      | Inr namespace \<Rightarrow> Inr (channel_prefix namespace @ ''*''))"

section \<open>Lemmas\<close>

definition canonical_token :: "string \<Rightarrow> bool" where
  "canonical_token s \<longleftrightarrow> s \<noteq> [] \<and> length s \<le> maxTokenRunes \<and> list_all (\<lambda>c. token_rune (byte c)) s"

lemma token_loop_iff: "token_loop rs \<longleftrightarrow> list_all token_rune rs"
  by (induction rs) (auto simp: token_rune_def)

lemma token_rune_ascii: "token_rune r \<Longrightarrow> r < 128 \<and> \<not> (65 \<le> r \<and> r \<le> 90) \<and> \<not> IsSpace r"
  by (auto simp: token_rune_def IsSpace_def)

lemma token_runes_canonical: "list_all token_rune (runes s) \<longleftrightarrow> list_all (\<lambda>c. token_rune (byte c)) s"
proof
  assume l: "list_all token_rune (runes s)"
  then have "list_all (\<lambda>r. r < 128) (runes s)" using token_rune_ascii by (auto simp: list_all_iff)
  then have "runes s = map byte s" by (intro runes_ascii ascii_if_runes_ascii)
  with l show "list_all (\<lambda>c. token_rune (byte c)) s" by (simp add: list_all_iff)
next
  assume r: "list_all (\<lambda>c. token_rune (byte c)) s"
  then have "list_all (\<lambda>c. byte c < (128::nat)) s" using token_rune_ascii by (auto simp: list_all_iff)
  with r show "list_all token_rune (runes s)" by (simp add: runes_ascii list_all_iff)
qed

lemma canonical_token_runes: "canonical_token s \<Longrightarrow> runes s = map byte s"
  using token_rune_ascii by (intro runes_ascii) (auto simp: canonical_token_def list_all_iff)

lemma normalizeToken_canonical: "normalizeToken s = Inr t \<Longrightarrow> canonical_token t"
proof -
  assume "normalizeToken s = Inr t"
  then have "t \<noteq> []" "length (runes t) \<le> maxTokenRunes" "list_all token_rune (runes t)"
    by (auto simp: normalizeToken_def token_loop_iff Let_def split: if_splits)
  moreover then have "list_all (\<lambda>c. token_rune (byte c)) t" by (simp add: token_runes_canonical)
  moreover then have "runes t = map byte t"
    using token_rune_ascii by (intro runes_ascii) (auto simp: list_all_iff)
  ultimately show ?thesis by (simp add: canonical_token_def)
qed

lemma canonical_token_id: "canonical_token s \<Longrightarrow> normalizeToken s = Inr s"
proof -
  assume c: "canonical_token s"
  then have all: "list_all (\<lambda>c. token_rune (byte c)) s" "s \<noteq> []" "length s \<le> maxTokenRunes"
    by (auto simp: canonical_token_def)
  have r: "runes s = map byte s" using c by (rule canonical_token_runes)
  have "\<not> IsSpace (byte (hd s))" "\<not> IsSpace (byte (last s))"
    using all token_rune_ascii by (auto simp: list_all_iff)
  then have "TrimSpace s = s" using all r by (intro TrimSpace_id) (simp add: hd_map last_map)
  moreover have "ToLower s = s"
    using all token_rune_ascii by (intro ToLower_id) (fastforce simp: list_all_iff)
  ultimately show ?thesis
    using all token_runes_canonical [of s] by (simp add: normalizeToken_def token_loop_iff r)
qed

lemma validUserID_validIdentifier: "validUserID s = validIdentifier s"
proof -
  have "userID_loop rs = identifier_loop rs" for rs by (induction rs) auto
  then show ?thesis by (simp add: validUserID_def validIdentifier_def)
qed

text \<open>What an accepted envelope guarantees, stated without reference to the order of the checks.\<close>

definition envelope_ok :: "Envelope \<Rightarrow> bool" where
  "envelope_ok e \<longleftrightarrow> env_Schema e = Schema \<and> env_Version e = Version \<and>
     env_EventID e \<noteq> [] \<and> TrimSpace (env_EventID e) = env_EventID e \<and>
     RuneCountInString (env_EventID e) \<le> maxEventIDRunes \<and>
     \<not> IsZero (env_Timestamp e) \<and> zone (env_Timestamp e) = UTC \<and>
     canonical_room (env_Room e) \<and> canonical_token (env_OriginInstance e) \<and>
     1 \<le> em_ID (env_Message e) \<and>
     (em_UserID (env_Message e) = [] \<or> validIdentifier (em_UserID (env_Message e))) \<and>
     TrimSpace (em_Username (env_Message e)) \<noteq> [] \<and> em_Content (env_Message e) \<noteq> [] \<and>
     em_Type (env_Message e) \<noteq> [] \<and> em_Type (env_Message e) \<noteq> ''username''"

lemma guard_None: "(if b then Some x else y) = None \<longleftrightarrow> \<not> b \<and> y = None"
  by simp

lemma sum_guard_None:
  "(case r of Inl err \<Rightarrow> Some (f err) | Inr a \<Rightarrow> if a \<noteq> b then Some x else y) = None \<longleftrightarrow> r = Inr b \<and> y = None"
  by (cases r) auto

lemma normalizeToken_fixpoint: "normalizeToken t = Inr t \<longleftrightarrow> canonical_token t"
  using canonical_token_id normalizeToken_canonical by blast

lemma userID_guard: "\<not> (u \<noteq> [] \<and> (\<not> validUserID u \<or> u \<noteq> TrimSpace u)) \<longleftrightarrow> u = [] \<or> validIdentifier u"
  using validUserID_validIdentifier validIdentifier_TrimSpace by metis

lemma Validate_ok_iff: "Validate e = None \<longleftrightarrow> envelope_ok e"
  unfolding Validate_def Let_def guard_None sum_guard_None userID_guard normalizeToken_fixpoint
    envelope_ok_def canonical_room_iff [symmetric]
  by (simp add: not_less not_le length_runes eq_commute [of _ "TrimSpace (env_EventID e)"])
     (simp add: conj_ac int_one_le_iff_zero_less)

lemma New_ok: "New eid room origin m ts = Inr e \<Longrightarrow> envelope_ok e \<and> env_EventID e = eid \<and> env_Room e = room \<and>
    env_OriginInstance e = origin \<and> env_Message e = m \<and> env_Timestamp e = time_UTC ts"
  by (auto simp: New_def Let_def Validate_ok_iff split: option.splits)

lemma Channel_eq:
  "Channel ns room = Inr c \<longleftrightarrow>
     (\<exists>n r. normalizeToken ns = Inr n \<and> NormalizeRoom room = Inr r \<and> c = channel_prefix n @ r)"
  by (auto simp: Channel_def split: sum.splits)

lemma colon_not_token: "canonical_token n \<Longrightarrow> CHR '':'' \<notin> set n"
  by (auto simp: canonical_token_def list_all_iff token_rune_def)

lemma split_at_unique:
  "a @ x # b = c @ x # d \<Longrightarrow> x \<notin> set a \<Longrightarrow> x \<notin> set c \<Longrightarrow> a = c \<and> b = d"
  by (induction a arbitrary: c) (auto simp: Cons_eq_append_conv)

lemma channel_prefix_inj:
  assumes "canonical_token n" "canonical_token n'" "channel_prefix n @ r = channel_prefix n' @ r'"
  shows "n = n' \<and> r = r'"
proof -
  have "n @ CHR '':'' # (''room:'' @ r) = n' @ CHR '':'' # (''room:'' @ r')"
    using assms(3) by (simp add: channel_prefix_def)
  from split_at_unique [OF this] colon_not_token [OF assms(1)] colon_not_token [OF assms(2)]
  show ?thesis by simp
qed

lemma Channel_inj:
  assumes "Channel ns room = Inr c" "Channel ns' room' = Inr c"
  shows "normalizeToken ns = normalizeToken ns' \<and> NormalizeRoom room = NormalizeRoom room'"
  using assms channel_prefix_inj normalizeToken_canonical unfolding Channel_eq by metis

text \<open>
  The subscription pattern ends in the only wildcard it contains, so it selects the channels that
  start with the rest of it: exactly the channels of its own namespace.
\<close>

lemma ChannelPattern_eq:
  "ChannelPattern ns = Inr p \<longleftrightarrow> (\<exists>n. normalizeToken ns = Inr n \<and> p = channel_prefix n @ ''*'')"
  by (auto simp: ChannelPattern_def split: sum.splits)

lemma HasPrefix_iff: "HasPrefix s p \<longleftrightarrow> (\<exists>t. s = p @ t)"
  unfolding HasPrefix_def by (metis append_eq_conv_conj)

lemma pattern_selects:
  assumes p: "ChannelPattern ns = Inr p" and c: "Channel ns' room = Inr c"
  shows "HasPrefix c (butlast p) \<longleftrightarrow> normalizeToken ns' = normalizeToken ns"
proof -
  obtain n where n: "normalizeToken ns = Inr n" "p = channel_prefix n @ ''*''"
    using p by (auto simp: ChannelPattern_eq)
  obtain n' r where c': "normalizeToken ns' = Inr n'" "c = channel_prefix n' @ r"
    using c by (auto simp: Channel_eq)
  have "HasPrefix c (butlast p) \<longleftrightarrow> (\<exists>t. channel_prefix n' @ r = channel_prefix n @ t)"
    by (simp add: HasPrefix_iff n(2) c'(2) butlast_append)
  also have "\<dots> \<longleftrightarrow> n' = n"
    using channel_prefix_inj [OF normalizeToken_canonical normalizeToken_canonical, OF c'(1) n(1)] by blast
  finally show ?thesis by (simp add: n(1) c'(1))
qed

end
