(* ===== verification/GoCodecs.thy ===== *)
theory GoCodecs
  imports GoStrings
begin

text \<open>
  The two byte codecs the repository uses from Go's library: \<open>encoding/hex\<close> (opaque
  identifiers) and \<open>base64.RawURLEncoding\<close> (session cookies and history cursors), with
  their round trips, and the end-of-input test of the JSON readers. The base64 decoder is the library's default, non-strict one: it skips
  carriage returns and line feeds and does not look at the unused low bits of the last digit.
\<close>

section \<open>Trailing data of a JSON stream\<close>

text \<open>
  A \<open>json.Decoder\<close> that has read one value reports \<open>io.EOF\<close> on the next read exactly
  when nothing but JSON white space is left.
\<close>

definition json_space :: "char \<Rightarrow> bool" where
  "json_space c \<longleftrightarrow> byte c \<in> {9, 10, 13, 32 :: nat}"

definition json_eof :: "string \<Rightarrow> bool" where
  "json_eof rest \<longleftrightarrow> list_all json_space rest"

section \<open>Hexadecimal\<close>

definition hex_digit :: "nat \<Rightarrow> char" where
  "hex_digit n = char_of (if n < 10 then 48 + n else 87 + n)"

definition hex_EncodeToString :: "nat list \<Rightarrow> string" where
  "hex_EncodeToString bs = concat (map (\<lambda>b. [hex_digit (b div 16), hex_digit (b mod 16)]) bs)"

definition hex_value :: "char \<Rightarrow> nat option" where
  "hex_value c = (let b = byte c in
     if 48 \<le> b \<and> b \<le> 57 then Some (b - 48)
     else if 97 \<le> b \<and> b \<le> 102 then Some (b - 87)
     else if 65 \<le> b \<and> b \<le> 70 then Some (b - 55)
     else None)"

fun hex_DecodeString :: "string \<Rightarrow> nat list option" where
  "hex_DecodeString [] = Some []"
| "hex_DecodeString [c] = None"
| "hex_DecodeString (c # d # s) =
     (case (hex_value c, hex_value d, hex_DecodeString s) of
        (Some h, Some l, Some bs) \<Rightarrow> Some ((16 * h + l) # bs)
      | _ \<Rightarrow> None)"

lemma hex_value_digit [simp]: "n < 16 \<Longrightarrow> hex_value (hex_digit n) = Some n"
  by (auto simp: hex_value_def hex_digit_def Let_def)

lemma hex_roundtrip: "list_all (\<lambda>b. b < 256) bs \<Longrightarrow> hex_DecodeString (hex_EncodeToString bs) = Some bs"
proof (induction bs)
  case (Cons b bs)
  then have "b div 16 < 16" by auto
  with Cons show ?case by (simp add: hex_EncodeToString_def)
qed (simp add: hex_EncodeToString_def)

lemma length_hex_EncodeToString [simp]: "length (hex_EncodeToString bs) = 2 * length bs"
  by (induction bs) (simp_all add: hex_EncodeToString_def)

section \<open>Base64, URL alphabet, no padding\<close>

text \<open>The alphabet is \<open>A..Z\<close>, \<open>a..z\<close>, \<open>0..9\<close>, \<open>-\<close>, \<open>_\<close>.\<close>

definition b64_char :: "nat \<Rightarrow> char" where
  "b64_char n = char_of (if n < 26 then 65 + n else if n < 52 then 71 + n
     else if n < 62 then n - 4 else if n = 62 then 45 else 95)"

definition b64_value :: "char \<Rightarrow> nat option" where
  "b64_value c = (let b = byte c in
     if 65 \<le> b \<and> b \<le> 90 then Some (b - 65)
     else if 97 \<le> b \<and> b \<le> 122 then Some (b - 71)
     else if 48 \<le> b \<and> b \<le> 57 then Some (b + 4)
     else if b = 45 then Some 62
     else if b = 95 then Some 63
     else None)"

fun b64_digits :: "nat list \<Rightarrow> nat list" where
  "b64_digits (a # b # c # r) =
     [a div 4, a mod 4 * 16 + b div 16, b mod 16 * 4 + c div 64, c mod 64] @ b64_digits r"
| "b64_digits [a, b] = [a div 4, a mod 4 * 16 + b div 16, b mod 16 * 4]"
| "b64_digits [a] = [a div 4, a mod 4 * 16]"
| "b64_digits [] = []"

fun b64_bytes :: "nat list \<Rightarrow> nat list option" where
  "b64_bytes (w # x # y # z # r) =
     map_option ((@) [w * 4 + x div 16, x mod 16 * 16 + y div 4, y mod 4 * 64 + z]) (b64_bytes r)"
| "b64_bytes [w, x, y] = Some [w * 4 + x div 16, x mod 16 * 16 + y div 4]"
| "b64_bytes [w, x] = Some [w * 4 + x div 16]"
| "b64_bytes [w] = None"
| "b64_bytes [] = Some []"

definition RawURL_EncodeToString :: "string \<Rightarrow> string" where
  "RawURL_EncodeToString s = map b64_char (b64_digits (map byte s))"

definition RawURL_DecodeString :: "string \<Rightarrow> string option" where
  "RawURL_DecodeString s =
     (let ds = map b64_value (filter (\<lambda>c. byte c \<noteq> (10::nat) \<and> byte c \<noteq> (13::nat)) s) in
      if None \<in> set ds then None else map_option (map char_of) (b64_bytes (map the ds)))"

lemma b64_value_char: "n < 64 \<Longrightarrow> b64_value (b64_char n) = Some n"
  by (auto simp: b64_value_def b64_char_def Let_def)

lemma b64_char_byte: "n < 64 \<Longrightarrow> byte (b64_char n) \<in> {45, 95} \<union> {48..57} \<union> {65..90} \<union> {97..122::nat}"
  by (auto simp: b64_char_def)

lemma b64_digit2: "b < 256 \<Longrightarrow> a mod 4 * 16 + b div 16 < (64::nat)"
proof -
  assume "b < 256"
  then have "b div 16 < 16" by simp
  with mod_less_divisor [of 4 a] show ?thesis by linarith
qed

lemma b64_digit3: "c < 256 \<Longrightarrow> b mod 16 * 4 + c div 64 < (64::nat)"
proof -
  assume "c < 256"
  then have "c div 64 < 4" by simp
  with mod_less_divisor [of 16 b] show ?thesis by linarith
qed

lemma b64_digits_range: "list_all (\<lambda>b. b < 256) bs \<Longrightarrow> list_all (\<lambda>d. d < 64) (b64_digits bs)"
  using b64_digit2 [of 0] b64_digit3 [of 0]
  by (induction bs rule: b64_digits.induct) (auto simp: b64_digit2 b64_digit3)

lemma b64_join1: "b < 256 \<Longrightarrow> a div 4 * 4 + (a mod 4 * 16 + b div 16) div 16 = (a::nat)"
  by simp

lemma b64_join2: "b < 256 \<Longrightarrow> c < 256 \<Longrightarrow>
    (a mod 4 * 16 + b div 16) mod 16 * 16 + (b mod 16 * 4 + c div 64) div 4 = (b::nat)"
proof -
  assume "b < 256" "c < 256"
  then have "b div 16 < 16" "c div 64 < 4" by simp_all
  then have "(a mod 4 * 16 + b div 16) mod 16 = b div 16" "(b mod 16 * 4 + c div 64) div 4 = b mod 16"
    by simp_all
  then show ?thesis by simp
qed

lemma b64_join3: "c < 256 \<Longrightarrow> (b mod 16 * 4 + c div 64) mod 4 * 64 + c mod 64 = (c::nat)"
proof -
  assume "c < 256"
  then have "c div 64 < 4" by simp
  then have "(b mod 16 * 4 + c div 64) mod 4 = c div 64" by simp
  then show ?thesis by simp
qed

lemma b64_bytes_digits: "list_all (\<lambda>b. b < 256) bs \<Longrightarrow> b64_bytes (b64_digits bs) = Some bs"
proof (induction bs rule: b64_digits.induct)
  case (1 a b c r)
  then show ?case using b64_join1 [of b a] b64_join2 [of b c a] b64_join3 [of c b] by simp
next
  case (2 a b)
  then show ?case using b64_join1 [of b a] b64_join2 [of b 0 a] by simp
next
  case (3 a)
  then show ?case using b64_join1 [of 0 a] by simp
qed simp

lemma bytes_of_string: "list_all (\<lambda>b. b < 256) (map byte s :: nat list)"
proof -
  have "byte c < (256::nat)" for c by (metis of_char_mod_256 mod_less_divisor zero_less_numeral)
  then show ?thesis by (simp add: list_all_iff)
qed

lemma RawURL_char_set:
  "c \<in> set (RawURL_EncodeToString s) \<Longrightarrow> byte c \<in> {45, 95} \<union> {48..57} \<union> {65..90} \<union> {97..122::nat}"
  using b64_digits_range [OF bytes_of_string, of s] b64_char_byte
  by (fastforce simp: RawURL_EncodeToString_def list_all_iff)

theorem RawURL_roundtrip: "RawURL_DecodeString (RawURL_EncodeToString s) = Some s"
proof -
  let ?ds = "b64_digits (map byte s)"
  have ok: "list_all (\<lambda>d. d < 64) ?ds" by (rule b64_digits_range [OF bytes_of_string])
  have "filter (\<lambda>c. byte c \<noteq> (10::nat) \<and> byte c \<noteq> (13::nat)) (RawURL_EncodeToString s) = RawURL_EncodeToString s"
    using RawURL_char_set by (fastforce intro!: filter_True)
  moreover have "map b64_value (map b64_char ?ds) = map Some ?ds"
    using ok by (simp add: list_all_iff b64_value_char)
  moreover have "map the (map Some ?ds) = ?ds" by (simp add: o_def)
  ultimately have "RawURL_DecodeString (RawURL_EncodeToString s) = map_option (map char_of) (b64_bytes ?ds)"
    unfolding RawURL_DecodeString_def Let_def by (simp only: RawURL_EncodeToString_def) auto
  then show ?thesis by (simp add: b64_bytes_digits [OF bytes_of_string] o_def)
qed

lemma length_b64_digits: "length (b64_digits bs) = (4 * length bs + 2) div 3"
  by (induction bs rule: b64_digits.induct) auto

lemma length_RawURL_Encode: "length (RawURL_EncodeToString s) = (4 * length s + 2) div 3"
  by (simp add: RawURL_EncodeToString_def length_b64_digits)

lemma RawURL_Encode_eq_Nil [simp]: "RawURL_EncodeToString s = [] \<longleftrightarrow> s = []"
  by (metis RawURL_roundtrip RawURL_EncodeToString_def b64_digits.simps(4) list.simps(8) option.inject)

lemma RawURL_no_dot: "CHR ''.'' \<notin> set (RawURL_EncodeToString s)"
  using RawURL_char_set [of "CHR ''.''" s] by auto

end
