(* ===== verification/HistoryCursor.thy ===== *)
theory HistoryCursor
  imports Repository GoCodecs
begin

text \<open>
  The opaque history cursor of \<open>history_cursor.go\<close>: encoding a message's position, decoding
  and validating what a client sends back, and the room match. How \<open>encoding/json\<close> prints
  and reads the cursor struct is a parameter (\<open>cursor_codec\<close>); that the second read of
  \<open>decodeHistoryCursor\<close> reports \<open>io.EOF\<close> is computed from the rest of the input.
\<close>

section \<open>The cursor\<close>

definition historyCursorVersion :: int where "historyCursorVersion = 1"
definition maxHistoryCursorSize :: nat where "maxHistoryCursorSize = 512"

record historyCursor =
  hc_Version :: int
  hc_Room :: string
  hc_Timestamp :: gotime
  hc_ID :: int

record cursor_codec =
  marshal_cursor :: "historyCursor \<Rightarrow> string option"
  decode_cursor :: "string \<Rightarrow> (historyCursor \<times> string) option"

datatype cursor_error = errInvalidHistoryCursor | CursorMarshalError

definition cursor_of :: "string \<Rightarrow> db_Message \<Rightarrow> historyCursor" where
  "cursor_of room message =
     \<lparr>hc_Version = historyCursorVersion, hc_Room = room, hc_Timestamp = time_UTC (db_Timestamp message),
      hc_ID = db_ID message\<rparr>"

definition encodeHistoryCursor :: "cursor_codec \<Rightarrow> string \<Rightarrow> db_Message \<Rightarrow> (cursor_error, string) result" where
  "encodeHistoryCursor J room message =
     (case marshal_cursor J (cursor_of room message) of
        None \<Rightarrow> Inl CursorMarshalError
      | Some payload \<Rightarrow> Inr (RawURL_EncodeToString payload))"

definition decodeHistoryCursor :: "cursor_codec \<Rightarrow> string \<Rightarrow> (cursor_error, historyCursor) result" where
  "decodeHistoryCursor J raw =
     (if raw = [] \<or> length raw > maxHistoryCursorSize then Inl errInvalidHistoryCursor
      else case RawURL_DecodeString raw of
             None \<Rightarrow> Inl errInvalidHistoryCursor
           | Some payload \<Rightarrow>
             if length payload = 0 \<or> length payload > maxHistoryCursorSize then Inl errInvalidHistoryCursor
             else case decode_cursor J payload of
                    None \<Rightarrow> Inl errInvalidHistoryCursor
                  | Some (cursor, rest) \<Rightarrow>
                    if \<not> json_eof rest then Inl errInvalidHistoryCursor
                    else case NormalizeRoom (hc_Room cursor) of
                           Inl _ \<Rightarrow> Inl errInvalidHistoryCursor
                         | Inr room \<Rightarrow>
                           if room \<noteq> hc_Room cursor \<or> hc_Version cursor \<noteq> historyCursorVersion \<or>
                              hc_ID cursor < 1 \<or> IsZero (hc_Timestamp cursor)
                           then Inl errInvalidHistoryCursor
                           else Inr (cursor\<lparr>hc_Room := room, hc_Timestamp := time_UTC (hc_Timestamp cursor)\<rparr>))"

definition historyCursorRoomMatches :: "historyCursor \<Rightarrow> string \<Rightarrow> bool" where
  "historyCursorRoomMatches cursor room = EqualFold (hc_Room cursor) room"

section \<open>Lemmas\<close>

text \<open>
  What the JSON library is relied on for, at one cursor: what \<open>Marshal\<close> prints is not
  empty, fits the cursor size once encoded, and reads back as the same struct with nothing
  left over.
\<close>

definition cursor_codec_ok :: "cursor_codec \<Rightarrow> historyCursor \<Rightarrow> bool" where
  "cursor_codec_ok J c \<longleftrightarrow>
     (case marshal_cursor J c of
        None \<Rightarrow> False
      | Some p \<Rightarrow> p \<noteq> [] \<and> (4 * length p + 2) div 3 \<le> maxHistoryCursorSize \<and>
          (case decode_cursor J p of None \<Rightarrow> False | Some (c', rest) \<Rightarrow> c' = c \<and> json_eof rest))"

lemma cursor_codec_okE:
  assumes "cursor_codec_ok J c"
  obtains p rest where "marshal_cursor J c = Some p" "p \<noteq> []" "(4 * length p + 2) div 3 \<le> maxHistoryCursorSize"
    "decode_cursor J p = Some (c, rest)" "json_eof rest"
  using assms by (auto simp: cursor_codec_ok_def split: option.splits)

lemma cursor_roundtrip:
  assumes "canonical_room room" "1 \<le> db_ID m" "\<not> IsZero (db_Timestamp m)"
    and "cursor_codec_ok J (cursor_of room m)"
  shows "\<exists>raw. encodeHistoryCursor J room m = Inr raw \<and> decodeHistoryCursor J raw = Inr (cursor_of room m)"
proof -
  obtain p rest where p: "marshal_cursor J (cursor_of room m) = Some p" "p \<noteq> []"
    "(4 * length p + 2) div 3 \<le> maxHistoryCursorSize"
    "decode_cursor J p = Some (cursor_of room m, rest)" "json_eof rest"
    using assms(4) by (rule cursor_codec_okE)
  then have "length p \<le> maxHistoryCursorSize" by linarith
  moreover have "cursor_of room m = (cursor_of room m)\<lparr>hc_Room := room, hc_Timestamp := time_UTC (db_Timestamp m)\<rparr>"
    by (simp add: cursor_of_def)
  ultimately have "decodeHistoryCursor J (RawURL_EncodeToString p) = Inr (cursor_of room m)"
    using p assms(1-3)
    by (simp add: decodeHistoryCursor_def length_RawURL_Encode RawURL_roundtrip room_simps cursor_of_def IsZero_def)
  then show ?thesis using p(1) by (simp add: encodeHistoryCursor_def)
qed

lemma decodeHistoryCursor_valid:
  assumes "decodeHistoryCursor J raw = Inr c"
  shows "canonical_room (hc_Room c) \<and> hc_Version c = historyCursorVersion \<and> 1 \<le> hc_ID c \<and>
    \<not> IsZero (hc_Timestamp c) \<and> zone (hc_Timestamp c) = UTC \<and> raw \<noteq> [] \<and> length raw \<le> maxHistoryCursorSize"
  using assms
  by (auto simp: decodeHistoryCursor_def canonical_room_iff IsZero_def not_less
      split: if_splits option.splits sum.splits prod.splits)

lemma rune_fold_canonical: "room_rune r \<Longrightarrow> rune_fold r = r"
  by (auto simp: rune_fold_def room_rune_def room_start_def is_lower_letter_def is_digit_rune_def)

lemma canonical_fold: "canonical_room s \<Longrightarrow> map rune_fold (runes s) = map byte s"
  by (auto simp: canonical_runes canonical_room_def list_all_iff rune_fold_canonical)

lemma map_byte_inj: "map byte s = (map byte t :: nat list) \<longleftrightarrow> s = t"
  by (simp add: inj_map_eq_map inj_on_def)

lemma historyCursorRoomMatches_canonical:
  "canonical_room (hc_Room c) \<Longrightarrow> canonical_room room \<Longrightarrow> historyCursorRoomMatches c room \<longleftrightarrow> hc_Room c = room"
  by (simp add: historyCursorRoomMatches_def EqualFold_def canonical_fold map_byte_inj)

end
