(* ===== verification/Auth.thy ===== *)
theory Auth
  imports Rooms GoCodecs GoHttp
begin

text \<open>
  The signed-session trust boundary of \<open>internal/auth/session.go\<close>: configuration checks,
  token exchange, cookie verification and room authorization. SHA-256, HMAC-SHA-256 and the
  JSON reading and printing of the two structs are parameters (\<open>auth_lib\<close>); base64, hex
  and the reading of the stream's end are modelled. The clock reading and the 16 bytes read
  from the random source are arguments of the operations that use them.
\<close>

section \<open>Data\<close>

definition ModeAnonymous :: string where "ModeAnonymous = ''anonymous''"
definition ModeSession :: string where "ModeSession = ''session''"
definition CookieName :: string where "CookieName = ''chatster_session''"
definition defaultSessionTTL :: int where "defaultSessionTTL = hour"
definition minSessionTTL :: int where "minSessionTTL = minute"
definition maxSessionTTL :: int where "maxSessionTTL = 24 * hour"
definition minSecretBytes :: nat where "minSecretBytes = 32"
definition minTokenBytes :: nat where "minTokenBytes = 32"
definition maxRoomsPerUser :: nat where "maxRoomsPerUser = 64"
definition maxCookieBytes :: nat where "maxCookieBytes = 4096"
definition MaxAccessTokenBytes :: nat where "MaxAccessTokenBytes = 512"

datatype auth_error =
    ErrAuthDisabled
  | ErrInvalidToken
  | ErrSessionRequired
  | ErrInvalidSession
  | ErrExpiredSession
  | ErrRoomDenied
  | SessionIDError string
  | SessionEncodeError
  | CookieLimitExceeded

datatype principal_error =
    BadUserID
  | BadDisplayName
  | BadRoomCount
  | EmptyRoom
  | BadRoom room_error

datatype auth_config_error =
    UnsupportedMode string
  | SecretTooShort
  | TTLOutOfRange
  | CredentialsMissing
  | CredentialsMalformed
  | CredentialsTrailing
  | CredentialsEmpty
  | TokenLength
  | TokenWhitespace
  | InvalidPrincipal principal_error
  | DuplicateToken

record auth_Config =
  ac_Mode :: string
  ac_SessionSecret :: string
  ac_CredentialsJSON :: string
  ac_SessionTTL :: int
  ac_CookieSecure :: bool

record credential =
  cr_Token :: string
  cr_UserID :: string
  cr_DisplayName :: string
  cr_Rooms :: "string list"

record principalTemplate =
  pt_UserID :: string
  pt_DisplayName :: string
  pt_Rooms :: "string list"

record Principal =
  p_UserID :: string
  p_DisplayName :: string
  p_Rooms :: "string list"
  p_Anonymous :: bool
  p_SessionID :: string
  p_ExpiresAt :: gotime

definition Principal_Authenticated :: "Principal \<Rightarrow> bool" where
  "Principal_Authenticated p \<longleftrightarrow> \<not> p_Anonymous p \<and> p_UserID p \<noteq> [] \<and> p_SessionID p \<noteq> []"

record sessionPayload =
  sp_Version :: int
  sp_SessionID :: string
  sp_Subject :: string
  sp_DisplayName :: string
  sp_Rooms :: "string list"
  sp_IssuedAt :: int
  sp_ExpiresAt :: int

record Service =
  sv_mode :: string
  sv_secret :: string
  sv_credentials :: "string \<rightharpoonup> principalTemplate"
  sv_ttl :: int
  sv_cookieSecure :: bool

record auth_lib =
  sha256_Sum256 :: "string \<Rightarrow> string"
  hmac_sha256 :: "string \<Rightarrow> string \<Rightarrow> string"
  marshal_payload :: "sessionPayload \<Rightarrow> string option"
  decode_payload :: "string \<Rightarrow> (sessionPayload \<times> string) option"
  decode_credential_list :: "string \<Rightarrow> (credential list \<times> string) option"

section \<open>Principals and identifiers\<close>

fun normalize_rooms :: "string list \<Rightarrow> string set \<Rightarrow> string list \<Rightarrow> (principal_error, string list) result" where
  "normalize_rooms [] seen out = Inr out"
| "normalize_rooms (room # rooms) seen out =
     (if TrimSpace room = [] then Inl EmptyRoom
      else case NormalizeRoom room of
             Inl e \<Rightarrow> Inl (BadRoom e)
           | Inr normalized \<Rightarrow>
             if normalized \<in> seen then normalize_rooms rooms seen out
             else normalize_rooms rooms (insert normalized seen) (out @ [normalized]))"

definition normalizePrincipal :: "string \<Rightarrow> string \<Rightarrow> string list \<Rightarrow> (principal_error, principalTemplate) result" where
  "normalizePrincipal userID0 displayName0 rooms =
     (let userID = TrimSpace userID0 in
      if \<not> validIdentifier userID then Inl BadUserID
      else let displayName = TrimSpace displayName0 in
        if displayName = [] \<or> RuneCountInString displayName > 64 then Inl BadDisplayName
        else if length rooms = 0 \<or> length rooms > maxRoomsPerUser then Inl BadRoomCount
        else case normalize_rooms rooms {} [] of
               Inl e \<Rightarrow> Inl e
             | Inr normalizedRooms \<Rightarrow>
               Inr \<lparr>pt_UserID = userID, pt_DisplayName = displayName, pt_Rooms = normalizedRooms\<rparr>)"

definition validOpaqueID :: "string \<Rightarrow> string \<Rightarrow> bool" where
  "validOpaqueID value prefix =
     (if \<not> HasPrefix value prefix \<or> length value \<noteq> length prefix + 32 then False
      else hex_DecodeString (drop (length prefix) value) \<noteq> None)"

text \<open>\<open>io.ReadFull\<close> either fills the 16 bytes or fails.\<close>

type_synonym random_read = "(string, nat list) result"

definition Service_newSessionID :: "random_read \<Rightarrow> (auth_error, string) result" where
  "Service_newSessionID rnd =
     (case rnd of Inl e \<Rightarrow> Inl (SessionIDError e) | Inr raw \<Rightarrow> Inr (''sid_'' @ hex_EncodeToString raw))"

section \<open>Configuration\<close>

definition decodeCredentials :: "auth_lib \<Rightarrow> string \<Rightarrow> (auth_config_error, credential list) result" where
  "decodeCredentials L raw =
     (if TrimSpace raw = [] then Inl CredentialsMissing
      else case decode_credential_list L raw of
             None \<Rightarrow> Inl CredentialsMalformed
           | Some (credentials, rest) \<Rightarrow>
             if \<not> json_eof rest then Inl CredentialsTrailing
             else if length credentials = 0 then Inl CredentialsEmpty
             else Inr credentials)"

fun load_credentials ::
  "auth_lib \<Rightarrow> credential list \<Rightarrow> (string \<rightharpoonup> principalTemplate) \<Rightarrow>
     (auth_config_error, string \<rightharpoonup> principalTemplate) result" where
  "load_credentials L [] m = Inr m"
| "load_credentials L (configured # cs) m =
     (let tokenBytes = length (cr_Token configured) in
      if tokenBytes < minTokenBytes \<or> tokenBytes > MaxAccessTokenBytes then Inl TokenLength
      else if TrimSpace (cr_Token configured) \<noteq> cr_Token configured \<or>
              ContainsAny (cr_Token configured) [CHR '' '', CHR 0x09, CHR 0x0D, CHR 0x0A]
        then Inl TokenWhitespace
      else case normalizePrincipal (cr_UserID configured) (cr_DisplayName configured) (cr_Rooms configured) of
             Inl e \<Rightarrow> Inl (InvalidPrincipal e)
           | Inr template \<Rightarrow>
             let tokenHash = sha256_Sum256 L (cr_Token configured) in
             if m tokenHash \<noteq> None then Inl DuplicateToken
             else load_credentials L cs (m(tokenHash \<mapsto> template)))"

definition auth_New :: "auth_lib \<Rightarrow> auth_Config \<Rightarrow> (auth_config_error, Service) result" where
  "auth_New L cfg =
     (let mode0 = ToLower (TrimSpace (ac_Mode cfg));
          mode = (if mode0 = [] then ModeAnonymous else mode0);
          service = \<lparr>sv_mode = mode, sv_secret = [], sv_credentials = Map.empty, sv_ttl = 0,
                     sv_cookieSecure = ac_CookieSecure cfg\<rparr>
      in if mode = ModeAnonymous then Inr service
         else if mode \<noteq> ModeSession then Inl (UnsupportedMode mode)
         else if length (ac_SessionSecret cfg) < minSecretBytes then Inl SecretTooShort
         else let ttl = (if ac_SessionTTL cfg = 0 then defaultSessionTTL else ac_SessionTTL cfg) in
           if ttl < minSessionTTL \<or> ttl > maxSessionTTL then Inl TTLOutOfRange
           else case decodeCredentials L (ac_CredentialsJSON cfg) of
                  Inl e \<Rightarrow> Inl e
                | Inr credentials \<Rightarrow>
                  (case load_credentials L credentials Map.empty of
                     Inl e \<Rightarrow> Inl e
                   | Inr m \<Rightarrow> Inr (service\<lparr>sv_secret := ac_SessionSecret cfg, sv_ttl := ttl, sv_credentials := m\<rparr>)))"

definition Service_Mode :: "Service option \<Rightarrow> string" where
  "Service_Mode s =
     (case s of None \<Rightarrow> ModeAnonymous
      | Some sv \<Rightarrow> if sv_mode sv = [] then ModeAnonymous else sv_mode sv)"

section \<open>The signed cookie\<close>

definition Service_encode :: "auth_lib \<Rightarrow> Service \<Rightarrow> sessionPayload \<Rightarrow> (auth_error, string) result" where
  "Service_encode L s payload =
     (case marshal_payload L payload of
        None \<Rightarrow> Inl SessionEncodeError
      | Some raw \<Rightarrow>
        let encoded = RawURL_EncodeToString raw;
            signature = RawURL_EncodeToString (hmac_sha256 L (sv_secret s) encoded);
            value = encoded @ ''.'' @ signature
        in if length value > maxCookieBytes then Inl CookieLimitExceeded else Inr value)"

definition Service_decode :: "auth_lib \<Rightarrow> Service \<Rightarrow> string \<Rightarrow> (auth_error, sessionPayload) result" where
  "Service_decode L s value =
     (let (encoded, signature, ok) = Cut value (CHR ''.'') in
      if \<not> ok \<or> encoded = [] \<or> signature = [] \<or> CHR ''.'' \<in> set signature then Inl ErrInvalidSession
      else case RawURL_DecodeString signature of
             None \<Rightarrow> Inl ErrInvalidSession
           | Some providedMAC \<Rightarrow>
             if providedMAC \<noteq> hmac_sha256 L (sv_secret s) encoded then Inl ErrInvalidSession
             else case RawURL_DecodeString encoded of
                    None \<Rightarrow> Inl ErrInvalidSession
                  | Some raw \<Rightarrow>
                    (case decode_payload L raw of
                       None \<Rightarrow> Inl ErrInvalidSession
                     | Some (payload, rest) \<Rightarrow>
                       if \<not> json_eof rest then Inl ErrInvalidSession else Inr payload))"

section \<open>Exchange, authentication and authorization\<close>

definition Service_Exchange ::
  "auth_lib \<Rightarrow> Service option \<Rightarrow> gotime \<Rightarrow> random_read \<Rightarrow> string \<Rightarrow>
     (auth_error, Principal \<times> Cookie) result" where
  "Service_Exchange L so clk rnd token =
     (case so of
        None \<Rightarrow> Inl ErrAuthDisabled
      | Some s \<Rightarrow>
        if Service_Mode so \<noteq> ModeSession then Inl ErrAuthDisabled
        else if length token < minTokenBytes \<or> length token > MaxAccessTokenBytes \<or>
                ContainsAny token [CHR '' '', CHR 0x09, CHR 0x0D, CHR 0x0A]
          then Inl ErrInvalidToken
        else case sv_credentials s (sha256_Sum256 L token) of
               None \<Rightarrow> Inl ErrInvalidToken
             | Some template \<Rightarrow>
               (case Service_newSessionID rnd of
                  Inl e \<Rightarrow> Inl e
                | Inr sessionID \<Rightarrow>
                  let now = Truncate_second (time_UTC clk);
                      expiresAt = Add now (sv_ttl s);
                      payload = \<lparr>sp_Version = 1, sp_SessionID = sessionID, sp_Subject = pt_UserID template,
                                 sp_DisplayName = pt_DisplayName template, sp_Rooms = pt_Rooms template,
                                 sp_IssuedAt = Unix now, sp_ExpiresAt = Unix expiresAt\<rparr>
                  in (case Service_encode L s payload of
                        Inl e \<Rightarrow> Inl e
                      | Inr value \<Rightarrow>
                        Inr (\<lparr>p_UserID = sp_Subject payload, p_DisplayName = sp_DisplayName payload,
                              p_Rooms = sp_Rooms payload, p_Anonymous = False,
                              p_SessionID = sp_SessionID payload, p_ExpiresAt = expiresAt\<rparr>,
                             \<lparr>ck_Name = CookieName, ck_Value = value, ck_Path = ''/'', ck_Expires = expiresAt,
                              ck_MaxAge = Duration_div (sv_ttl s) second, ck_HttpOnly = True,
                              ck_Secure = sv_cookieSecure s, ck_SameSite = SameSiteStrictMode\<rparr>))))"

definition anonymous_principal :: Principal where
  "anonymous_principal =
     \<lparr>p_UserID = [], p_DisplayName = ''Anonymous'', p_Rooms = [], p_Anonymous = True, p_SessionID = [],
      p_ExpiresAt = zero_time\<rparr>"

definition Service_Authenticate ::
  "auth_lib \<Rightarrow> Service option \<Rightarrow> gotime \<Rightarrow> Request \<Rightarrow> (auth_error, Principal) result" where
  "Service_Authenticate L so clk r =
     (case so of
        None \<Rightarrow> Inr anonymous_principal
      | Some s \<Rightarrow>
        if Service_Mode so = ModeAnonymous then Inr anonymous_principal
        else case Request_Cookie r CookieName of
               None \<Rightarrow> Inl ErrSessionRequired
             | Some value \<Rightarrow>
               if value = [] \<or> length value > maxCookieBytes then Inl ErrInvalidSession
               else case Service_decode L s value of
                      Inl e \<Rightarrow> Inl e
                    | Inr payload \<Rightarrow>
                      (case normalizePrincipal (sp_Subject payload) (sp_DisplayName payload) (sp_Rooms payload) of
                         Inl _ \<Rightarrow> Inl ErrInvalidSession
                       | Inr template \<Rightarrow>
                         if sp_Version payload \<noteq> 1 \<or> \<not> validOpaqueID (sp_SessionID payload) ''sid_''
                           then Inl ErrInvalidSession
                         else let issuedAt = time_UTC (time_Unix (sp_IssuedAt payload));
                                  expiresAt = time_UTC (time_Unix (sp_ExpiresAt payload));
                                  now = time_UTC clk
                           in if \<not> After expiresAt now then Inl ErrExpiredSession
                              else if sp_IssuedAt payload \<le> 0 \<or> \<not> After expiresAt issuedAt \<or>
                                      After issuedAt (Add now minute)
                                then Inl ErrInvalidSession
                              else if Sub expiresAt issuedAt > sv_ttl s + second then Inl ErrInvalidSession
                              else Inr \<lparr>p_UserID = pt_UserID template, p_DisplayName = pt_DisplayName template,
                                        p_Rooms = pt_Rooms template, p_Anonymous = False,
                                        p_SessionID = sp_SessionID payload, p_ExpiresAt = expiresAt\<rparr>))"

fun room_granted :: "string list \<Rightarrow> string \<Rightarrow> bool" where
  "room_granted [] room = False"
| "room_granted (allowed # rooms) room = (if allowed = room then True else room_granted rooms room)"

definition Service_Authorize ::
  "auth_lib \<Rightarrow> Service option \<Rightarrow> gotime \<Rightarrow> Request \<Rightarrow> string \<Rightarrow> (auth_error, Principal) result" where
  "Service_Authorize L so clk r room0 =
     (case Service_Authenticate L so clk r of
        Inl e \<Rightarrow> Inl e
      | Inr who \<Rightarrow>
        (case NormalizeRoom room0 of
           Inl _ \<Rightarrow> Inl ErrRoomDenied
         | Inr room \<Rightarrow>
           if p_Anonymous who then Inr who
           else if room_granted (p_Rooms who) room then Inr who
           else Inl ErrRoomDenied))"

definition Service_ExpiredCookie :: "Service option \<Rightarrow> Cookie" where
  "Service_ExpiredCookie so =
     \<lparr>ck_Name = CookieName, ck_Value = [], ck_Path = ''/'', ck_Expires = time_UTC (time_Unix 1),
      ck_MaxAge = - 1, ck_HttpOnly = True,
      ck_Secure = (case so of None \<Rightarrow> False | Some s \<Rightarrow> sv_cookieSecure s), ck_SameSite = SameSiteStrictMode\<rparr>"

section \<open>Principals\<close>

lemma normalize_rooms_spec:
  "normalize_rooms rooms (set out) out = Inr res \<Longrightarrow> list_all canonical_room out \<Longrightarrow> distinct out \<Longrightarrow>
     list_all canonical_room res \<and> distinct res \<and> length res \<le> length out + length rooms \<and>
     Inr ` set res = Inr ` set out \<union> NormalizeRoom ` set rooms"
proof (induction rooms arbitrary: out)
  case (Cons room rooms)
  from Cons.prems(1) obtain r where r: "NormalizeRoom room = Inr r"
    "(if r \<in> set out then normalize_rooms rooms (set out) out
      else normalize_rooms rooms (insert r (set out)) (out @ [r])) = Inr res"
    by (auto split: if_splits sum.splits)
  note c = NormalizeRoom_canonical [OF r(1)]
  show ?case
  proof (cases "r \<in> set out")
    case True
    then show ?thesis using Cons.IH [of out] Cons.prems r by auto
  next
    case False
    then have "normalize_rooms rooms (set (out @ [r])) (out @ [r]) = Inr res" using r(2) by simp
    from Cons.IH [OF this] show ?thesis using Cons.prems False c r(1) by auto
  qed
qed simp

lemma normalize_rooms_id:
  "list_all canonical_room rooms \<Longrightarrow> distinct (out @ rooms) \<Longrightarrow> normalize_rooms rooms (set out) out = Inr (out @ rooms)"
proof (induction rooms arbitrary: out)
  case (Cons r rooms)
  then have "NormalizeRoom r = Inr r" "TrimSpace r \<noteq> []" "r \<notin> set out"
    by (auto simp: canonical_TrimSpace NormalizeRoom_canonical_id canonical_room_def)
  then show ?case using Cons.IH [of "out @ [r]"] Cons.prems by simp
qed simp

definition template_ok :: "principalTemplate \<Rightarrow> bool" where
  "template_ok t \<longleftrightarrow> validIdentifier (pt_UserID t) \<and> pt_DisplayName t \<noteq> [] \<and>
     TrimSpace (pt_DisplayName t) = pt_DisplayName t \<and> RuneCountInString (pt_DisplayName t) \<le> 64 \<and>
     pt_Rooms t \<noteq> [] \<and> length (pt_Rooms t) \<le> maxRoomsPerUser \<and> distinct (pt_Rooms t) \<and>
     list_all canonical_room (pt_Rooms t)"

lemma normalizePrincipal_ok: "normalizePrincipal u d rooms = Inr t \<Longrightarrow> template_ok t"
proof -
  assume a: "normalizePrincipal u d rooms = Inr t"
  then have f: "validIdentifier (pt_UserID t)" "pt_DisplayName t = TrimSpace d" "TrimSpace d \<noteq> []"
      "RuneCountInString (TrimSpace d) \<le> 64" "rooms \<noteq> []" "length rooms \<le> maxRoomsPerUser"
      "normalize_rooms rooms (set []) [] = Inr (pt_Rooms t)"
    by (auto simp: normalizePrincipal_def Let_def not_less split: if_splits sum.splits)
  from normalize_rooms_spec [OF f(7)] have "list_all canonical_room (pt_Rooms t)" "distinct (pt_Rooms t)"
      "length (pt_Rooms t) \<le> length rooms" "Inr ` set (pt_Rooms t) = NormalizeRoom ` set rooms"
    by simp_all
  moreover then have "pt_Rooms t \<noteq> []" using \<open>rooms \<noteq> []\<close> by (metis image_is_empty set_empty)
  ultimately show ?thesis using f by (simp add: template_ok_def TrimSpace_idem)
qed

lemma normalizePrincipal_id:
  "template_ok t \<Longrightarrow> normalizePrincipal (pt_UserID t) (pt_DisplayName t) (pt_Rooms t) = Inr t"
  using normalize_rooms_id [of "pt_Rooms t" "[]"]
  by (simp add: template_ok_def normalizePrincipal_def validIdentifier_TrimSpace)

section \<open>Accepted configurations\<close>

text \<open>What holds of every service \<open>New\<close> returns.\<close>

definition service_ok :: "Service \<Rightarrow> bool" where
  "service_ok s \<longleftrightarrow> sv_mode s = ModeAnonymous \<or>
     sv_mode s = ModeSession \<and> minSecretBytes \<le> length (sv_secret s) \<and>
     minSessionTTL \<le> sv_ttl s \<and> sv_ttl s \<le> maxSessionTTL \<and>
     (\<forall>h t. sv_credentials s h = Some t \<longrightarrow> template_ok t)"

definition token_ok :: "string \<Rightarrow> bool" where
  "token_ok token \<longleftrightarrow> minTokenBytes \<le> length token \<and> length token \<le> MaxAccessTokenBytes \<and>
     \<not> ContainsAny token [CHR '' '', CHR 0x09, CHR 0x0D, CHR 0x0A]"

lemma load_credentials_step:
  assumes "load_credentials L (c # cs) m = Inr m'"
  obtains t where "normalizePrincipal (cr_UserID c) (cr_DisplayName c) (cr_Rooms c) = Inr t"
    "token_ok (cr_Token c)" "m (sha256_Sum256 L (cr_Token c)) = None"
    "load_credentials L cs (m(sha256_Sum256 L (cr_Token c) \<mapsto> t)) = Inr m'"
  using assms by (auto simp: Let_def token_ok_def not_less split: if_splits sum.splits)

lemma load_credentials_ok:
  "load_credentials L cs m = Inr m' \<Longrightarrow> \<forall>t \<in> ran m. template_ok t \<Longrightarrow> \<forall>t \<in> ran m'. template_ok t"
proof (induction cs arbitrary: m)
  case (Cons c cs)
  from Cons.prems(1) obtain t where t: "normalizePrincipal (cr_UserID c) (cr_DisplayName c) (cr_Rooms c) = Inr t"
    "m (sha256_Sum256 L (cr_Token c)) = None"
    "load_credentials L cs (m(sha256_Sum256 L (cr_Token c) \<mapsto> t)) = Inr m'"
    by (rule load_credentials_step)
  have "\<forall>x \<in> ran (m(sha256_Sum256 L (cr_Token c) \<mapsto> t)). template_ok x"
    using Cons.prems(2) normalizePrincipal_ok [OF t(1)] by (metis insert_iff ran_map_upd t(2))
  then show ?case by (rule Cons.IH [OF t(3)])
qed simp

text \<open>The loaded map answers exactly the configured tokens, each with its own user.\<close>

lemma load_credentials_lookup:
  "load_credentials L cs m = Inr m' \<Longrightarrow>
     m' h = Some t \<longleftrightarrow> m h = Some t \<or>
       (\<exists>c \<in> set cs. h = sha256_Sum256 L (cr_Token c) \<and>
          normalizePrincipal (cr_UserID c) (cr_DisplayName c) (cr_Rooms c) = Inr t)"
proof (induction cs arbitrary: m)
  case (Cons c cs)
  from Cons.prems obtain u where u: "normalizePrincipal (cr_UserID c) (cr_DisplayName c) (cr_Rooms c) = Inr u"
    "m (sha256_Sum256 L (cr_Token c)) = None"
    "load_credentials L cs (m(sha256_Sum256 L (cr_Token c) \<mapsto> u)) = Inr m'"
    by (rule load_credentials_step)
  from Cons.IH [OF u(3)] show ?case using u(1,2) by (cases "h = sha256_Sum256 L (cr_Token c)") auto
qed simp

lemma auth_New_session:
  assumes "auth_New L cfg = Inr s" "sv_mode s \<noteq> ModeAnonymous"
  obtains cs where "decodeCredentials L (ac_CredentialsJSON cfg) = Inr cs"
    "load_credentials L cs Map.empty = Inr (sv_credentials s)" "sv_mode s = ModeSession"
    "sv_secret s = ac_SessionSecret cfg" "minSecretBytes \<le> length (sv_secret s)"
    "minSessionTTL \<le> sv_ttl s" "sv_ttl s \<le> maxSessionTTL"
  using assms by (auto simp: auth_New_def Let_def not_less split: if_splits sum.splits)

lemma auth_New_ok: "auth_New L cfg = Inr s \<Longrightarrow> service_ok s"
proof (cases "sv_mode s = ModeAnonymous")
  case False
  assume "auth_New L cfg = Inr s"
  then obtain cs where cs: "load_credentials L cs Map.empty = Inr (sv_credentials s)" "sv_mode s = ModeSession"
    "minSecretBytes \<le> length (sv_secret s)" "minSessionTTL \<le> sv_ttl s" "sv_ttl s \<le> maxSessionTTL"
    using False by (rule auth_New_session)
  with load_credentials_ok [OF cs(1)] show ?thesis by (auto simp: service_ok_def ran_def)
qed (simp add: service_ok_def)

section \<open>Sessions\<close>

text \<open>
  What the JSON library is relied on for, at one payload: if \<open>Marshal\<close> prints it, the text
  is not empty and reads back as the same struct with nothing left over.
\<close>

definition payload_codec_ok :: "auth_lib \<Rightarrow> sessionPayload \<Rightarrow> bool" where
  "payload_codec_ok L p \<longleftrightarrow>
     (case marshal_payload L p of
        None \<Rightarrow> True
      | Some raw \<Rightarrow> raw \<noteq> [] \<and>
          (case decode_payload L raw of None \<Rightarrow> False | Some (q, rest) \<Rightarrow> q = p \<and> json_eof rest))"

lemma Service_decode_encode:
  assumes "Service_encode L s p = Inr v" "payload_codec_ok L p" "hmac_sha256 L (sv_secret s) (fst (Cut v (CHR ''.''))) \<noteq> []"
  shows "Service_decode L s v = Inr p \<and> v \<noteq> [] \<and> length v \<le> maxCookieBytes"
proof -
  obtain raw where raw: "marshal_payload L p = Some raw" "length v \<le> maxCookieBytes"
      "v = RawURL_EncodeToString raw @ CHR ''.'' #
             RawURL_EncodeToString (hmac_sha256 L (sv_secret s) (RawURL_EncodeToString raw))"
    using assms(1) by (auto simp: Service_encode_def Let_def not_less split: option.splits if_splits)
  then have cut: "Cut v (CHR ''.'') = (RawURL_EncodeToString raw,
      RawURL_EncodeToString (hmac_sha256 L (sv_secret s) (RawURL_EncodeToString raw)), True)"
    using RawURL_no_dot by (simp add: Cut_found)
  then have mac: "hmac_sha256 L (sv_secret s) (RawURL_EncodeToString raw) \<noteq> []" using assms(3) by simp
  from assms(2) raw(1) obtain rest where d: "raw \<noteq> []" "decode_payload L raw = Some (p, rest)" "json_eof rest"
    by (auto simp: payload_codec_ok_def split: option.splits)
  then have "Service_decode L s v = Inr p"
    using mac by (simp add: Service_decode_def cut RawURL_no_dot RawURL_roundtrip)
  then show ?thesis using raw by simp
qed

text \<open>An accepted cookie carries, in front of its dot, text whose MAC under the service's secret
  is what follows the dot.\<close>

lemma Service_decode_signed:
  assumes "Service_decode L s v = Inr p"
  obtains encoded signature raw rest where "v = encoded @ CHR ''.'' # signature" "CHR ''.'' \<notin> set signature"
    "RawURL_DecodeString signature = Some (hmac_sha256 L (sv_secret s) encoded)"
    "RawURL_DecodeString encoded = Some raw" "decode_payload L raw = Some (p, rest)" "json_eof rest"
proof -
  obtain e g ok where cut: "Cut v (CHR ''.'') = (e, g, ok)" by (metis prod.exhaust)
  then obtain raw rest where "ok" "CHR ''.'' \<notin> set g" "RawURL_DecodeString g = Some (hmac_sha256 L (sv_secret s) e)"
    "RawURL_DecodeString e = Some raw" "decode_payload L raw = Some (p, rest)" "json_eof rest"
    using assms unfolding Service_decode_def Let_def cut prod.case ok_chain by auto
  moreover have "v = e @ CHR ''.'' # g" using Cut_split [of v "CHR ''.''" e g] cut \<open>ok\<close> by simp
  ultimately show thesis by (intro that)
qed

definition payload_of :: "Principal \<Rightarrow> gotime \<Rightarrow> sessionPayload" where
  "payload_of p clk =
     \<lparr>sp_Version = 1, sp_SessionID = p_SessionID p, sp_Subject = p_UserID p, sp_DisplayName = p_DisplayName p,
      sp_Rooms = p_Rooms p, sp_IssuedAt = Unix (Truncate_second (time_UTC clk)), sp_ExpiresAt = Unix (p_ExpiresAt p)\<rparr>"

lemma Exchange_ok:
  assumes "Service_Exchange L (Some s) clk rnd token = Inr (p, ck)"
  obtains t raw where "Service_Mode (Some s) = ModeSession" "token_ok token"
    "sv_credentials s (sha256_Sum256 L token) = Some t" "rnd = Inr raw"
    "p = \<lparr>p_UserID = pt_UserID t, p_DisplayName = pt_DisplayName t, p_Rooms = pt_Rooms t, p_Anonymous = False,
          p_SessionID = ''sid_'' @ hex_EncodeToString raw,
          p_ExpiresAt = Add (Truncate_second (time_UTC clk)) (sv_ttl s)\<rparr>"
    "Service_encode L s (payload_of p clk) = Inr (ck_Value ck)"
    "ck_Name ck = CookieName" "ck_HttpOnly ck" "ck_SameSite ck = SameSiteStrictMode" "ck_Expires ck = p_ExpiresAt p"
  using assms
  by (auto simp: Service_Exchange_def Service_newSessionID_def payload_of_def token_ok_def Let_def not_less
      split: if_splits option.splits sum.splits)

lemma validOpaqueID_hex:
  "length raw = 16 \<Longrightarrow> list_all (\<lambda>b. b < 256) raw \<Longrightarrow> validOpaqueID (prefix @ hex_EncodeToString raw) prefix"
  by (simp add: validOpaqueID_def HasPrefix_def hex_roundtrip)

text \<open>The clock readings at which Unix seconds neither wrap nor are non-positive.\<close>

definition clock_ok :: "gotime \<Rightarrow> bool" where
  "clock_ok t \<longleftrightarrow> (unix_offset + 1) * second \<le> instant t \<and> instant t < 2 ^ 62 * second"

lemma clock_ok_truncate:
  assumes "clock_ok clk"
  shows "(unix_offset + 1) * second \<le> instant (Truncate_second (time_UTC clk))"
    "instant (Truncate_second (time_UTC clk)) < 2 ^ 62 * second"
proof -
  let ?i = "instant clk"
  have i: "(unix_offset + 1) * second \<le> ?i" "?i < 2 ^ 62 * second" using assms by (simp_all add: clock_ok_def)
  have e: "instant (Truncate_second (time_UTC clk)) = ?i div second * second"
    by (simp add: Truncate_second_def minus_mod_eq_div_mult)
  have "unix_offset + 1 \<le> ?i div second"
    using zdiv_mono1 [OF i(1), of second] by (simp add: second_def)
  then show "(unix_offset + 1) * second \<le> instant (Truncate_second (time_UTC clk))"
    unfolding e by (intro mult_right_mono) (simp_all add: second_def)
  have "?i div second * second \<le> ?i" by (simp add: second_def)
  then show "instant (Truncate_second (time_UTC clk)) < 2 ^ 62 * second" unfolding e using i(2) by linarith
qed

lemma issue_times:
  assumes "clock_ok clk" "minSessionTTL \<le> ttl" "ttl \<le> maxSessionTTL"
  defines "iat \<equiv> Truncate_second (time_UTC clk)"
  shows "instant (time_Unix (Unix iat)) = instant iat"
    and "time_UTC (time_Unix (Unix (Add iat ttl))) = Truncate_second (Add iat ttl)"
    and "0 < Unix iat"
proof -
  have b: "(unix_offset + 1) * second \<le> instant iat" "instant iat < 2 ^ 62 * second"
    unfolding iat_def by (rule clock_ok_truncate [OF assms(1)])+
  have t: "0 \<le> ttl" "ttl < 2 ^ 62 * second"
    using assms(2,3) by (simp_all add: duration_defs minSessionTTL_def maxSessionTTL_def)
  have p: "0 \<le> instant iat" using b(1) by (simp add: unix_offset_def second_def)
  have r: "unix_range iat" "unix_range (Add iat ttl)"
    using b(2) t p unfolding unix_range_def second_def by simp_all
  have z: "zone iat = UTC" by (simp add: iat_def)
  show "instant (time_Unix (Unix iat)) = instant iat" using r(1) by (intro time_Unix_Unix) (simp_all add: iat_def)
  show "time_UTC (time_Unix (Unix (Add iat ttl))) = Truncate_second (Add iat ttl)"
    using time_Unix_Unix_trunc [OF r(2)] z by (simp add: time_UTC_eqI)
  have "unix_offset + 1 \<le> instant iat div second"
    using zdiv_mono1 [OF b(1), of second] by (simp add: second_def)
  moreover have "wrap64 (instant iat div second - unix_offset) = instant iat div second - unix_offset"
    using r(1) calculation by (intro wrap64_id) (simp_all add: unix_range_def unix_offset_def)
  ultimately show "0 < Unix iat" by (simp add: Unix_def)
qed

text \<open>Every principal \<open>Authenticate\<close> accepts from a cookie, with what was checked on the way.\<close>

lemma Authenticate_session:
  assumes "Service_Authenticate L (Some s) clk r = Inr p" "Service_Mode (Some s) \<noteq> ModeAnonymous"
  obtains v payload t where "Request_Cookie r CookieName = Some v" "length v \<le> maxCookieBytes"
    "Service_decode L s v = Inr payload"
    "normalizePrincipal (sp_Subject payload) (sp_DisplayName payload) (sp_Rooms payload) = Inr t"
    "validOpaqueID (sp_SessionID payload) ''sid_''"
    "p = \<lparr>p_UserID = pt_UserID t, p_DisplayName = pt_DisplayName t, p_Rooms = pt_Rooms t, p_Anonymous = False,
          p_SessionID = sp_SessionID payload, p_ExpiresAt = time_UTC (time_Unix (sp_ExpiresAt payload))\<rparr>"
    "instant clk < instant (p_ExpiresAt p)" "0 < sp_IssuedAt payload"
    "instant (time_Unix (sp_IssuedAt payload)) \<le> instant clk + minute"
    "Sub (p_ExpiresAt p) (time_Unix (sp_IssuedAt payload)) \<le> sv_ttl s + second"
  using assms unfolding Service_Authenticate_def option.case Let_def
  by (auto simp: ok_chain After_def Sub_def not_less not_le split: sum.splits if_splits)

lemma Authenticate_principal_ok:
  assumes "Service_Authenticate L so clk r = Inr p"
  shows "p = anonymous_principal \<and> Service_Mode so = ModeAnonymous \<or>
    Principal_Authenticated p \<and> Service_Mode so \<noteq> ModeAnonymous \<and> distinct (p_Rooms p) \<and>
    list_all canonical_room (p_Rooms p) \<and> instant clk < instant (p_ExpiresAt p)"
proof (cases "Service_Mode so = ModeAnonymous")
  case True
  then show ?thesis using assms by (auto simp: Service_Authenticate_def split: option.splits)
next
  case False
  then obtain s where so: "so = Some s" by (cases so) (auto simp: Service_Mode_def)
  from assms [unfolded so] False [unfolded so] show ?thesis
  proof (cases rule: Authenticate_session)
    case (1 v payload t)
    from normalizePrincipal_ok [OF 1(4)] have "template_ok t" .
    then have "pt_UserID t \<noteq> []" "distinct (pt_Rooms t)" "list_all canonical_room (pt_Rooms t)"
      by (auto simp: template_ok_def validIdentifier_iff)
    moreover have "sp_SessionID payload \<noteq> []" using 1(5) by (auto simp: validOpaqueID_def)
    ultimately show ?thesis using 1(6,7) False by (simp add: Principal_Authenticated_def)
  qed
qed

lemma room_granted_iff: "room_granted rooms room \<longleftrightarrow> room \<in> set rooms"
  by (induction rooms) auto

lemma Authorize_ok_iff:
  "Service_Authorize L so clk r room0 = Inr p \<longleftrightarrow>
     Service_Authenticate L so clk r = Inr p \<and>
     (\<exists>room. NormalizeRoom room0 = Inr room \<and> (p_Anonymous p \<or> room \<in> set (p_Rooms p)))"
  by (auto simp: Service_Authorize_def room_granted_iff split: sum.splits)

lemma session_roundtrip:
  assumes new: "auth_New L cfg = Inr s"
    and ex: "Service_Exchange L (Some s) t0 (Inr raw) token = Inr (p, ck)"
    and raw: "length raw = 16" "list_all (\<lambda>b. b < 256) raw"
    and lib: "payload_codec_ok L (payload_of p t0)" "\<forall>k m. length (hmac_sha256 L k m) = 32"
    and clk: "clock_ok t0" "instant (Truncate_second t0) \<le> instant t1 + minute"
    and req: "Request_Cookie r CookieName = Some (ck_Value ck)"
  shows "Service_Authenticate L (Some s) t1 r =
    (if instant t1 < instant (Truncate_second (p_ExpiresAt p))
     then Inr (p\<lparr>p_ExpiresAt := Truncate_second (p_ExpiresAt p)\<rparr>) else Inl ErrExpiredSession)"
proof -
  let ?iat = "Truncate_second (time_UTC t0)"
  obtain t where mode: "Service_Mode (Some s) = ModeSession" and cred: "sv_credentials s (sha256_Sum256 L token) = Some t"
    and p: "p = \<lparr>p_UserID = pt_UserID t, p_DisplayName = pt_DisplayName t, p_Rooms = pt_Rooms t, p_Anonymous = False,
          p_SessionID = ''sid_'' @ hex_EncodeToString raw, p_ExpiresAt = Add ?iat (sv_ttl s)\<rparr>"
    and enc: "Service_encode L s (payload_of p t0) = Inr (ck_Value ck)"
    using Exchange_ok [OF ex] by (metis sum.inject(2))
  have ok: "template_ok t" "minSessionTTL \<le> sv_ttl s" "sv_ttl s \<le> maxSessionTTL"
    using auth_New_ok [OF new] mode cred
    by (auto simp: service_ok_def Service_Mode_def ModeSession_def ModeAnonymous_def split: if_splits)
  have "hmac_sha256 L k m \<noteq> []" for k m using lib(2) by (metis list.size(3) zero_neq_numeral)
  then have dec: "Service_decode L s (ck_Value ck) = Inr (payload_of p t0)" "ck_Value ck \<noteq> []"
      "length (ck_Value ck) \<le> maxCookieBytes"
    using Service_decode_encode [OF enc lib(1)] by blast+
  have norm: "normalizePrincipal (pt_UserID t) (pt_DisplayName t) (pt_Rooms t) = Inr t"
    using ok(1) by (rule normalizePrincipal_id)
  let ?exp = "Truncate_second (Add ?iat (sv_ttl s))"
  note times = issue_times [OF clk(1) ok(2,3)]
  have exp: "instant ?iat < instant ?exp" "instant ?exp \<le> instant ?iat + sv_ttl s"
    using Truncate_second_simps(2,4) [of "Add ?iat (sv_ttl s)"] ok(2) by (simp_all add: minSessionTTL_def duration_defs)
  have sub: "Sub ?exp (time_UTC (time_Unix (Unix ?iat))) \<le> sv_ttl s + second"
    using exp ok(3) by (simp add: Sub_def times(1) sat64_def maxSessionTTL_def duration_defs)
  have iat: "instant ?iat \<le> instant t1 + minute" using clk(2) by (simp add: Truncate_second_def)
  have "validOpaqueID (''sid_'' @ hex_EncodeToString raw) ''sid_''" using raw by (rule validOpaqueID_hex)
  moreover have "Service_Mode (Some s) \<noteq> ModeAnonymous" by (simp add: mode ModeSession_def ModeAnonymous_def)
  ultimately show ?thesis
    using dec norm times exp sub iat
    by (simp add: Service_Authenticate_def req payload_of_def p After_def not_less [symmetric] Let_def)
qed

lemma authorize_anonymous:
  "canonical_room room \<Longrightarrow> Service_Authorize L None clk r room = Inr anonymous_principal"
  by (simp add: Service_Authorize_def Service_Authenticate_def NormalizeRoom_canonical_id anonymous_principal_def)

end
