(* ===== verification/Handlers.thy ===== *)
theory Handlers
  imports Repository HistoryCursor Auth Config
begin

text \<open>
  The HTTP handlers of \<open>server.go\<close>: health, history pages, sessions, and the origin
  middleware. Each is a function from the response writer and the request to the writer; the
  storage backend is any \<open>Repository\<close>. The paging theorem is proved once, against the
  reader contract, in the locale \<open>history_pages\<close>.
\<close>

section \<open>Responses\<close>

datatype body =
    PlainText string
  | ApiError string string
  | HealthBody (hb_status: string) (hb_database: string) (hb_service: string)
  | HistoryBody (hp_room: string) (hp_messages: "db_Message list") (hp_limit: int) (hp_has_more: bool)
      (hp_next_cursor: "string option") (hp_viewer: Principal)
  | SessionBody (sb_mode: string) (sb_authenticated: bool) (sb_user: "Principal option") (sb_reason: "string option")

type_synonym writer = "body ResponseWriter"
type_synonym handler = "writer \<Rightarrow> Request \<Rightarrow> writer"

definition http_Error :: "string \<Rightarrow> nat \<Rightarrow> writer \<Rightarrow> writer" where
  "http_Error msg code w =
     write_body (PlainText (msg @ [CHR 0x0A]))
       (WriteHeader code (Header_Set ''X-Content-Type-Options'' ''nosniff''
         (Header_Set ''Content-Type'' ''text/plain; charset=utf-8'' (Header_Del ''Content-Length'' w))))"

definition writeJSONError :: "nat \<Rightarrow> string \<Rightarrow> string \<Rightarrow> writer \<Rightarrow> writer" where
  "writeJSONError status code message w =
     write_body (ApiError code message)
       (WriteHeader status (Header_Set ''Cache-Control'' ''no-store''
         (Header_Set ''Content-Type'' ''application/json'' w)))"

definition writeAuthError :: "auth_error \<Rightarrow> writer \<Rightarrow> writer" where
  "writeAuthError err w =
     (if err = ErrRoomDenied then
        writeJSONError 403 ''room_forbidden'' ''You do not have access to this room.'' w
      else if err = ErrExpiredSession then
        writeJSONError 401 ''session_expired'' ''Your session has expired.'' w
      else
        writeJSONError 401 ''authentication_required'' ''A valid session is required.'' w)"

section \<open>Small helpers\<close>

definition clientIP :: "Request \<Rightarrow> string" where
  "clientIP r = (case SplitHostPort_host (req_RemoteAddr r) of None \<Rightarrow> req_RemoteAddr r | Some host \<Rightarrow> host)"

definition newOpaqueID :: "random_read \<Rightarrow> int \<Rightarrow> string \<Rightarrow> string" where
  "newOpaqueID rnd unixNano prefix =
     (case rnd of Inl _ \<Rightarrow> prefix @ Itoa unixNano | Inr b \<Rightarrow> prefix @ hex_EncodeToString b)"

definition newSessionID :: "random_read \<Rightarrow> int \<Rightarrow> string" where
  "newSessionID rnd unixNano = newOpaqueID rnd unixNano ''sess_''"

definition newInstanceID :: "random_read \<Rightarrow> int \<Rightarrow> string" where
  "newInstanceID rnd unixNano = newOpaqueID rnd unixNano ''instance_''"

definition newEventID :: "random_read \<Rightarrow> int \<Rightarrow> string" where
  "newEventID rnd unixNano = newOpaqueID rnd unixNano ''event_''"

definition bearerToken :: "string \<Rightarrow> string option" where
  "bearerToken header =
     (let (scheme, token, ok) = Cut (TrimSpace header) (CHR '' '') in
      if \<not> ok \<or> \<not> EqualFold scheme ''Bearer'' \<or> token = [] \<or> length token > MaxAccessTokenBytes \<or>
         ContainsAny token [CHR '' '', CHR 0x09, CHR 0x0D, CHR 0x0A]
      then None else Some token)"

section \<open>Health\<close>

definition healthHandler :: "'s Repository \<Rightarrow> 's \<Rightarrow> handler" where
  "healthHandler R s w r =
     (let dbOK = (PingContext R s = None);
          status = (if \<not> dbOK then ''degraded'' else ''ok'');
          code = (if \<not> dbOK then 503 else 200);
          dbStatus = (if dbOK then ''ok'' else ''error'')
      in write_body (HealthBody status dbStatus ''chatster'')
           (WriteHeader code (Header_Set ''Content-Type'' ''application/json'' w)))"

section \<open>History pages\<close>

definition page_limit :: "Request \<Rightarrow> int option" where
  "page_limit r =
     (let raw = Values_Get (req_Query r) ''limit'' in
      if raw = [] then Some 50
      else case Atoi raw of
             None \<Rightarrow> None
           | Some parsed \<Rightarrow> if parsed < 1 then None else Some (if parsed > 100 then 100 else parsed))"

definition page_before :: "cursor_codec \<Rightarrow> Request \<Rightarrow> string \<Rightarrow> historyCursor option option" where
  "page_before J r room =
     (case values_of (req_Query r) ''before'' of
        [] \<Rightarrow> Some None
      | [raw] \<Rightarrow>
        (case decodeHistoryCursor J raw of
           Inl _ \<Rightarrow> None
         | Inr cursor \<Rightarrow> if \<not> historyCursorRoomMatches cursor room then None else Some (Some cursor))
      | _ \<Rightarrow> None)"

definition page_response ::
  "cursor_codec \<Rightarrow> string \<Rightarrow> int \<Rightarrow> Principal \<Rightarrow> db_Message list \<Rightarrow> writer \<Rightarrow> writer" where
  "page_response J room limit viewer ms0 w =
     (let hasMore = int (length ms0) > limit;
          ms = (if hasMore then drop (length ms0 - nat limit) ms0 else ms0)
      in case (if hasMore then map_sum id Some (encodeHistoryCursor J room (hd ms)) else Inr None) of
           Inl _ \<Rightarrow> http_Error ''message history unavailable'' 500 w
         | Inr nextCursor \<Rightarrow>
           write_body (HistoryBody room ms limit hasMore nextCursor viewer)
             (Header_Set ''Content-Type'' ''application/json'' w))"

definition messagesHandler ::
  "'s Repository \<Rightarrow> 's \<Rightarrow> cursor_codec \<Rightarrow> auth_lib \<Rightarrow> Service option \<Rightarrow> gotime \<Rightarrow> handler" where
  "messagesHandler R s J L so clk w0 r =
     (let w = Header_Set ''Cache-Control'' ''private, no-store'' w0 in
      if req_Method r \<noteq> ''GET'' then http_Error ''method not allowed'' 405 w
      else case NormalizeRoom (Values_Get (req_Query r) ''room'') of
        Inl _ \<Rightarrow> http_Error ''invalid room'' 400 w
      | Inr room \<Rightarrow>
        (case Service_Authorize L so clk r room of
           Inl err \<Rightarrow> writeAuthError err w
         | Inr viewer \<Rightarrow>
           (case page_limit r of
              None \<Rightarrow> http_Error ''limit must be a positive integer'' 400 w
            | Some limit \<Rightarrow>
              (case page_before J r room of
                 None \<Rightarrow> http_Error ''invalid history cursor'' 400 w
               | Some before \<Rightarrow>
                 let fetchLimit = limit + 1 in
                 (case (case before of
                          None \<Rightarrow> GetRecentMessagesInRoomContext R s room fetchLimit
                        | Some c \<Rightarrow> GetMessagesBeforeInRoomContext R s room (hc_Timestamp c) (hc_ID c) fetchLimit) of
                    Inl _ \<Rightarrow> http_Error ''message history unavailable'' 500 w
                  | Inr ms0 \<Rightarrow> page_response J room limit viewer ms0 w)))))"

section \<open>Sessions\<close>

definition sessionHandler ::
  "Config \<Rightarrow> auth_lib \<Rightarrow> Service option \<Rightarrow> gotime \<Rightarrow> random_read \<Rightarrow> handler" where
  "sessionHandler cfg L so clk rnd w0 r =
     (let w = Header_Set ''Cache-Control'' ''no-store'' w0 in
      if req_Method r = ''GET'' then
        (let res = Service_Authenticate L so clk r;
             authenticated = (case res of Inl _ \<Rightarrow> False | Inr p \<Rightarrow> Principal_Authenticated p);
             user = (case res of Inl _ \<Rightarrow> None | Inr p \<Rightarrow> Some p);
             reason = (case res of Inr _ \<Rightarrow> None
                       | Inl e \<Rightarrow> Some (if e = ErrExpiredSession then ''session_expired'' else ''authentication_required''))
         in write_body (SessionBody (Service_Mode so) authenticated user reason)
              (Header_Set ''Content-Type'' ''application/json'' w))
      else if req_Method r = ''POST'' then
        (if Service_Mode so \<noteq> ModeSession then
           writeJSONError 409 ''authentication_disabled'' ''Session authentication is disabled.'' w
         else if \<not> OriginAllowed cfg r then
           writeJSONError 403 ''origin_forbidden'' ''The request origin is not allowed.'' w
         else case bearerToken (Values_Get (req_Header r) ''Authorization'') of
           None \<Rightarrow> writeJSONError 401 ''invalid_credentials'' ''The access token is invalid.'' w
         | Some token \<Rightarrow>
           (case Service_Exchange L so clk rnd token of
              Inl err \<Rightarrow>
                if err = ErrInvalidToken then
                  writeJSONError 401 ''invalid_credentials'' ''The access token is invalid.'' w
                else writeJSONError 500 ''session_unavailable'' ''A session could not be created.'' w
            | Inr (p, cookie) \<Rightarrow>
                write_body (SessionBody (Service_Mode so) True (Some p) None)
                  (Header_Set ''Content-Type'' ''application/json'' (SetCookie cookie w))))
      else if req_Method r = ''DELETE'' then
        (if \<not> OriginAllowed cfg r then
           writeJSONError 403 ''origin_forbidden'' ''The request origin is not allowed.'' w
         else WriteHeader 204 (SetCookie (Service_ExpiredCookie so) w))
      else
        writeJSONError 405 ''method_not_allowed'' ''Method not allowed.'' (Header_Set ''Allow'' ''GET, POST, DELETE'' w))"

section \<open>The origin middleware\<close>

text \<open>
  The middleware either answers (\<open>Inl\<close>) or passes the request on with the headers it has set
  (\<open>Inr\<close>).
\<close>

definition cors_gate :: "Config \<Rightarrow> writer \<Rightarrow> Request \<Rightarrow> (writer, writer) result" where
  "cors_gate cfg w r =
     (if req_Path r = ''/ws'' then Inr w
      else let origin = Values_Get (req_Header r) ''Origin'' in
        if origin \<noteq> [] \<and> \<not> OriginAllowed cfg r then
          Inl (writeJSONError 403 ''origin_forbidden'' ''The request origin is not allowed.'' w)
        else
          let w = (if origin \<noteq> [] then
                     Header_Add ''Vary'' ''Origin''
                       (Header_Set ''Access-Control-Allow-Credentials'' ''true''
                         (Header_Set ''Access-Control-Allow-Origin'' origin w))
                   else w);
              w = Header_Set ''Access-Control-Allow-Headers'' ''Content-Type, Authorization''
                    (Header_Set ''Access-Control-Allow-Methods'' ''GET, POST, DELETE, OPTIONS'' w)
          in if req_Method r = ''OPTIONS'' then Inl (WriteHeader 204 w) else Inr w)"

definition enableCORS :: "Config \<Rightarrow> handler \<Rightarrow> handler" where
  "enableCORS cfg next w r = (case cors_gate cfg w r of Inl w \<Rightarrow> w | Inr w \<Rightarrow> next w r)"

section \<open>Following the cursors\<close>

text \<open>
  A client that reads a room's history: it asks for the newest page, then for the page before
  each \<open>next_cursor\<close> it is given, and puts older pages in front. \<open>fuel\<close> bounds the
  number of requests; \<open>None\<close> is a walk that was refused, failed, or ran out of fuel.
\<close>

definition page_request :: "Request \<Rightarrow> string \<Rightarrow> int \<Rightarrow> string option \<Rightarrow> Request" where
  "page_request base room limit cursor =
     base\<lparr>req_Method := ''GET'',
          req_Query := [(''room'', room), (''limit'', Itoa limit)] @
            (case cursor of None \<Rightarrow> [] | Some c \<Rightarrow> [(''before'', c)])\<rparr>"

fun walk_history :: "nat \<Rightarrow> handler \<Rightarrow> Request \<Rightarrow> string \<Rightarrow> int \<Rightarrow> string option \<Rightarrow> db_Message list option" where
  "walk_history 0 handle base room limit cursor = None"
| "walk_history (Suc fuel) handle base room limit cursor =
     (case w_body (handle new_writer (page_request base room limit cursor)) of
        Some (HistoryBody _ ms _ hasMore nxt _) \<Rightarrow>
          if \<not> hasMore then Some ms
          else (case nxt of
                  None \<Rightarrow> None
                | Some c \<Rightarrow> map_option (\<lambda>older. older @ ms) (walk_history fuel handle base room limit (Some c)))
      | _ \<Rightarrow> None)"

lemma page_request_simps [simp]:
  "req_Method (page_request b room n c) = ''GET''" "req_Cookies (page_request b room n c) = req_Cookies b"
  "Values_Get (req_Query (page_request b room n c)) ''room'' = room"
  "Values_Get (req_Query (page_request b room n c)) ''limit'' = Itoa n"
  "values_of (req_Query (page_request b room n c)) ''before'' = (case c of None \<Rightarrow> [] | Some x \<Rightarrow> [x])"
  by (simp_all add: page_request_def Values_Get_def split: option.split)

lemma page_limit_request:
  "1 \<le> n \<Longrightarrow> n < 2 ^ 63 \<Longrightarrow> page_limit (page_request b room n c) = Some (min 100 n)"
  by (simp add: page_limit_def Atoi_Itoa Itoa_not_Nil)

lemma page_limit_bounds: "page_limit r = Some n \<Longrightarrow> 1 \<le> n \<and> n \<le> 100"
  by (auto simp: page_limit_def Let_def split: if_splits option.splits)

lemma Authenticate_cookies:
  "req_Cookies r = req_Cookies r' \<Longrightarrow> Service_Authenticate L so clk r = Service_Authenticate L so clk r'"
proof -
  assume "req_Cookies r = req_Cookies r'"
  then have "Request_Cookie r = Request_Cookie r'" by (simp add: Request_Cookie_def fun_eq_iff)
  then show ?thesis unfolding Service_Authenticate_def by presburger
qed

lemma Authorize_cookies:
  "req_Cookies r = req_Cookies r' \<Longrightarrow> Service_Authorize L so clk r room = Service_Authorize L so clk r' room"
  using Authenticate_cookies [of r r'] by (simp add: Service_Authorize_def)

lemma lastn_hd_split:
  assumes "1 \<le> n" "n < int (length xs)"
  obtains ys where "xs = ys @ lastn (nat n) xs" "length ys = length xs - nat n"
    "lastn (nat n) xs = hd (lastn (nat n) xs) # tl (lastn (nat n) xs)"
proof -
  have "xs = take (length xs - nat n) xs @ lastn (nat n) xs" by (simp add: lastn_def)
  moreover have "length (lastn (nat n) xs) \<noteq> 0" using assms by simp
  then have "lastn (nat n) xs \<noteq> []" by force
  ultimately show thesis using that [of "take (length xs - nat n) xs"] by simp
qed

lemma lastn_Suc_drop: "n < length xs \<Longrightarrow> drop (length (lastn (Suc n) xs) - n) (lastn (Suc n) xs) = lastn n xs"
  by (simp add: lastn_def Suc_diff_Suc)

lemma page_response_body:
  assumes n: "1 \<le> n" and enc: "n < int (length older) \<Longrightarrow> encodeHistoryCursor J room (hd (lastn (nat n) older)) = Inr c"
  shows "w_body (page_response J room n viewer (lastn (nat (n + 1)) older) w) =
    Some (HistoryBody room (lastn (nat n) older) n (n < int (length older))
      (if n < int (length older) then Some c else None) viewer)"
proof (cases "n < int (length older)")
  case True
  then have "int (length (lastn (nat (n + 1)) older)) > n" using n by simp
  moreover have "drop (length (lastn (nat (n + 1)) older) - nat n) (lastn (nat (n + 1)) older) = lastn (nat n) older"
    using lastn_Suc_drop [of "nat n" older] True n by (simp add: nat_add_distrib nat_less_iff)
  ultimately show ?thesis using enc True by (simp add: page_response_def Let_def del: length_lastn)
next
  case False
  then have "\<not> int (length (lastn (nat (n + 1)) older)) > n" "length older \<le> nat (n + 1)" "length older \<le> nat n"
    using n by auto
  then show ?thesis using False by (simp add: page_response_def Let_def lastn_all)
qed

lemma http_Error_body [simp]: "w_body (http_Error m c w) = Some (PlainText (m @ [CHR 0x0A]))"
  by (simp add: http_Error_def)

lemma writeJSONError_simps [simp]:
  "w_body (writeJSONError st c m w) = Some (ApiError c m)"
  "w_status (writeJSONError st c m w) = Some (case w_status w of None \<Rightarrow> st | Some d \<Rightarrow> d)"
  "w_cookies (writeJSONError st c m w) = w_cookies w"
  by (auto simp: writeJSONError_def split: option.splits)

lemma writeAuthError_body: "w_body (writeAuthError e w) \<noteq> Some (HistoryBody a b c d f g)"
  by (simp add: writeAuthError_def)

lemma page_response_page:
  assumes "w_body (page_response J room0 n0 viewer0 ms0 w) = Some (HistoryBody room ms n hm nxt viewer)"
  shows "room = room0 \<and> n = n0 \<and> viewer = viewer0 \<and> hm = (n < int (length ms0)) \<and>
    ms = (if hm then drop (length ms0 - nat n) ms0 else ms0)"
  using assms by (auto simp: page_response_def Let_def split: if_splits sum.splits)

text \<open>Whatever the driver does, a page that is served was asked for, authorized and read from storage.\<close>

lemma messagesHandler_page:
  assumes "w_body (messagesHandler R s J L so clk w r) = Some (HistoryBody room ms n hm nxt viewer)"
  obtains ms0 before where "NormalizeRoom (Values_Get (req_Query r) ''room'') = Inr room"
    "Service_Authorize L so clk r room = Inr viewer" "page_limit r = Some n" "page_before J r room = Some before"
    "(case before of
        None \<Rightarrow> GetRecentMessagesInRoomContext R s room (n + 1)
      | Some c \<Rightarrow> GetMessagesBeforeInRoomContext R s room (hc_Timestamp c) (hc_ID c) (n + 1)) = Inr ms0"
    "hm = (n < int (length ms0))" "ms = (if hm then drop (length ms0 - nat n) ms0 else ms0)"
proof -
  note a = assms [unfolded messagesHandler_def Let_def]
  have g: "req_Method r = ''GET''" using a by (simp split: if_splits)
  obtain room1 where r1: "NormalizeRoom (Values_Get (req_Query r) ''room'') = Inr room1"
    using a g by (cases "NormalizeRoom (Values_Get (req_Query r) ''room'')") simp_all
  obtain v1 where v1: "Service_Authorize L so clk r room1 = Inr v1"
    using a g r1 by (cases "Service_Authorize L so clk r room1") (simp_all add: writeAuthError_body)
  obtain n1 where n1: "page_limit r = Some n1" using a g r1 v1 by (cases "page_limit r") simp_all
  obtain before where b: "page_before J r room1 = Some before"
    using a g r1 v1 n1 by (cases "page_before J r room1") simp_all
  let ?q = "case before of
        None \<Rightarrow> GetRecentMessagesInRoomContext R s room1 (n1 + 1)
      | Some c \<Rightarrow> GetMessagesBeforeInRoomContext R s room1 (hc_Timestamp c) (hc_ID c) (n1 + 1)"
  obtain ms0 where q: "?q = Inr ms0" using a g r1 v1 n1 b by (cases ?q) simp_all
  have "w_body (page_response J room1 n1 v1 ms0 (Header_Set ''Cache-Control'' ''private, no-store'' w)) =
      Some (HistoryBody room ms n hm nxt viewer)"
    using a g r1 v1 n1 b q by simp
  from page_response_page [OF this] have "room = room1" "n = n1" "viewer = v1" "hm = (n < int (length ms0))"
      "ms = (if hm then drop (length ms0 - nat n) ms0 else ms0)" by simp_all
  with that [of before ms0] r1 v1 n1 b q show thesis by metis
qed

text \<open>The history handler over any backend that keeps the reader contract.\<close>

locale history_pages = history_reader R invar quiet history stamp
  for R :: "'s Repository" and invar quiet history stamp
begin

text \<open>
  One page: \<open>older\<close> is the part of the history the request asks about, the whole of it
  without a cursor and what precedes the cursor's message with one.
\<close>

lemma page_of_rows:
  assumes room: "canonical_room room" and ok: "Service_Authorize L so clk r room = Inr viewer"
    and meth: "req_Method r = ''GET''" and q: "Values_Get (req_Query r) ''room'' = room"
    and lim: "page_limit r = Some n" and bef: "page_before J r room = Some before"
    and rows: "(case before of
        None \<Rightarrow> GetRecentMessagesInRoomContext R s room (n + 1)
      | Some c \<Rightarrow> GetMessagesBeforeInRoomContext R s room (hc_Timestamp c) (hc_ID c) (n + 1)) =
        Inr (lastn (nat (n + 1)) older)"
    and enc: "n < int (length older) \<Longrightarrow> encodeHistoryCursor J room (hd (lastn (nat n) older)) = Inr c"
  shows "w_body (messagesHandler R s J L so clk new_writer r) =
    Some (HistoryBody room (lastn (nat n) older) n (n < int (length older))
      (if n < int (length older) then Some c else None) viewer)"
proof -
  have "1 \<le> n" using page_limit_bounds [OF lim] by simp
  then show ?thesis
    by (simp add: messagesHandler_def meth q ok lim bef rows NormalizeRoom_canonical_id room page_response_body [OF _ enc])
qed

lemma first_page:
  assumes inv: "invar s" "quiet s" and room: "canonical_room room"
    and ok: "Service_Authorize L so clk base room = Inr viewer" and n: "1 \<le> n" "n \<le> 100"
    and enc: "n < int (length (history s room)) \<Longrightarrow>
      encodeHistoryCursor J room (hd (lastn (nat n) (history s room))) = Inr c"
  shows "w_body (messagesHandler R s J L so clk new_writer (page_request base room n None)) =
    Some (HistoryBody room (lastn (nat n) (history s room)) n (n < int (length (history s room)))
      (if n < int (length (history s room)) then Some c else None) viewer)"
proof (rule page_of_rows [OF room])
  show "Service_Authorize L so clk (page_request base room n None) room = Inr viewer"
    using ok Authorize_cookies [of "page_request base room n None" base] by simp
  show "page_limit (page_request base room n None) = Some n" using n by (simp add: page_limit_request)
  show "page_before J (page_request base room n None) room = Some None" by (simp add: page_before_def)
  show "(case None of None \<Rightarrow> GetRecentMessagesInRoomContext R s room (n + 1)
      | Some c \<Rightarrow> GetMessagesBeforeInRoomContext R s room (hc_Timestamp c) (hc_ID c) (n + 1)) =
      Inr (lastn (nat (n + 1)) (history s room))"
    using recent_eq [OF inv room, of "n + 1"] n by simp
qed (use enc in simp_all)

lemma next_page:
  assumes inv: "invar s" "quiet s"
    and ok: "Service_Authorize L so clk base room = Inr viewer" and n: "1 \<le> n" "n \<le> 100"
    and hist: "history s room = xs @ m # ys" and cur: "encodeHistoryCursor J room m = Inr raw"
    and J: "cursor_codec_ok J (cursor_of room m)"
    and enc: "n < int (length xs) \<Longrightarrow> encodeHistoryCursor J room (hd (lastn (nat n) xs)) = Inr c"
  shows "w_body (messagesHandler R s J L so clk new_writer (page_request base room n (Some raw))) =
    Some (HistoryBody room (lastn (nat n) xs) n (n < int (length xs))
      (if n < int (length xs) then Some c else None) viewer)"
proof (rule page_of_rows)
  have row: "db_Room m = room \<and> canonical_room room \<and> 1 \<le> db_ID m \<and> \<not> IsZero (db_Timestamp m) \<and>
      zone (db_Timestamp m) = UTC \<and> db_range (db_Timestamp m)"
    using history_row [OF inv(1), of m room] by (simp add: hist)
  then show room: "canonical_room room" by simp
  have dec: "decodeHistoryCursor J raw = Inr (cursor_of room m)"
    using cursor_roundtrip [of room m J] row J cur by auto
  show "Service_Authorize L so clk (page_request base room n (Some raw)) room = Inr viewer"
    using ok Authorize_cookies [of "page_request base room n (Some raw)" base] by simp
  show "page_limit (page_request base room n (Some raw)) = Some n" using n by (simp add: page_limit_request)
  have "historyCursorRoomMatches (cursor_of room m) room"
    using room by (simp add: historyCursorRoomMatches_canonical cursor_of_def)
  then show "page_before J (page_request base room n (Some raw)) room = Some (Some (cursor_of room m))"
    by (simp add: page_before_def dec)
  have "filter (\<lambda>x. message_pos stamp x < Position (stamp (db_Timestamp m)) (db_ID m)) (history s room) = xs"
    using before_member [OF inv(1) hist] by (simp add: message_pos_def)
  then show "(case Some (cursor_of room m) of None \<Rightarrow> GetRecentMessagesInRoomContext R s room (n + 1)
      | Some c \<Rightarrow> GetMessagesBeforeInRoomContext R s room (hc_Timestamp c) (hc_ID c) (n + 1)) =
      Inr (lastn (nat (n + 1)) xs)"
    using before_eq [OF inv room, of "n + 1" "db_Timestamp m" "db_ID m"] n row by (simp add: cursor_of_def)
qed (use enc in simp_all)

lemma encode_history_cursor:
  assumes "invar s" "m \<in> set (history s room)" "cursor_codec_ok J (cursor_of room m)"
  obtains raw where "encodeHistoryCursor J room m = Inr raw"
  using cursor_roundtrip [of room m J] history_row [OF assms(1,2)] assms(3) by auto

text \<open>The pages before a message, followed to the end, are the history before it.\<close>

lemma walk_before:
  assumes inv: "invar s" "quiet s" and ok: "Service_Authorize L so clk base room = Inr viewer"
    and n: "1 \<le> n" "n \<le> 100"
    and J: "\<And>m. m \<in> set (history s room) \<Longrightarrow> cursor_codec_ok J (cursor_of room m)"
  shows "history s room = xs @ m # ys \<Longrightarrow> encodeHistoryCursor J room m = Inr raw \<Longrightarrow> length xs < fuel \<Longrightarrow>
    walk_history fuel (messagesHandler R s J L so clk) base room n (Some raw) = Some xs"
proof (induction fuel arbitrary: xs m ys raw)
  case (Suc fuel)
  note Jm = J [of m, unfolded Suc.prems(1)]
  show ?case
  proof (cases "n < int (length xs)")
    case False
    then show ?thesis
      using next_page [OF inv ok n Suc.prems(1,2)] Jm by (simp add: lastn_all)
  next
    case True
    obtain zs where zs: "xs = zs @ lastn (nat n) xs" "length zs = length xs - nat n"
        "lastn (nat n) xs = hd (lastn (nat n) xs) # tl (lastn (nat n) xs)"
      using lastn_hd_split [OF n(1) True] by metis
    let ?m = "hd (lastn (nat n) xs)" and ?t = "tl (lastn (nat n) xs)"
    have h: "history s room = zs @ ?m # (?t @ m # ys)" using Suc.prems(1) zs by (metis append.assoc append_Cons)
    obtain c where c: "encodeHistoryCursor J room ?m = Inr c"
      using encode_history_cursor [OF inv(1), of ?m room J] J [of ?m] by (auto simp: h)
    have "walk_history fuel (messagesHandler R s J L so clk) base room n (Some c) = Some zs"
      using Suc.IH [OF h c] Suc.prems(3) zs(2) n True by simp
    then show ?thesis
      using next_page [OF inv ok n Suc.prems(1,2), of c] Jm c True zs(1) by simp
  qed
qed simp

lemma walk_complete:
  assumes inv: "invar s" "quiet s" and room: "canonical_room room"
    and ok: "Service_Authorize L so clk base room = Inr viewer" and n: "1 \<le> n" "n \<le> 100"
    and J: "\<And>m. m \<in> set (history s room) \<Longrightarrow> cursor_codec_ok J (cursor_of room m)"
    and fuel: "length (history s room) < fuel"
  shows "walk_history fuel (messagesHandler R s J L so clk) base room n None = Some (history s room)"
proof -
  let ?xs = "history s room"
  obtain f where f: "fuel = Suc f" using fuel by (cases fuel) auto
  show ?thesis
  proof (cases "n < int (length ?xs)")
    case False
    then show ?thesis using first_page [OF inv room ok n] f by (simp add: lastn_all)
  next
    case True
    obtain zs where zs: "?xs = zs @ lastn (nat n) ?xs" "length zs = length ?xs - nat n"
        "lastn (nat n) ?xs = hd (lastn (nat n) ?xs) # tl (lastn (nat n) ?xs)"
      using lastn_hd_split [OF n(1) True] by metis
    let ?m = "hd (lastn (nat n) ?xs)"
    have h: "?xs = zs @ ?m # tl (lastn (nat n) ?xs)" using zs by metis
    have "?m \<in> set ?xs" by (subst h) simp
    then obtain c where c: "encodeHistoryCursor J room ?m = Inr c"
      using encode_history_cursor [OF inv(1)] J by blast
    have "walk_history f (messagesHandler R s J L so clk) base room n (Some c) = Some zs"
      using walk_before [OF inv ok n J h c, of f] fuel f zs(2) n True by simp
    then show ?thesis using first_page [OF inv room ok n, of J c] c True f zs(1) by simp
  qed
qed

lemma page_sound:
  assumes inv: "invar s"
    and page: "w_body (messagesHandler R s J L so clk w r) = Some (HistoryBody room ms n hm nxt viewer)"
  shows "\<exists>P k. ms = lastn k (filter P (history s room))" and "int (length ms) \<le> n" and "1 \<le> n \<and> n \<le> 100"
    and "Service_Authorize L so clk r room = Inr viewer"
    and "NormalizeRoom (Values_Get (req_Query r) ''room'') = Inr room"
proof -
  obtain ms0 before where h: "NormalizeRoom (Values_Get (req_Query r) ''room'') = Inr room"
    "Service_Authorize L so clk r room = Inr viewer" "page_limit r = Some n" "page_before J r room = Some before"
    "(case before of
        None \<Rightarrow> GetRecentMessagesInRoomContext R s room (n + 1)
      | Some c \<Rightarrow> GetMessagesBeforeInRoomContext R s room (hc_Timestamp c) (hc_ID c) (n + 1)) = Inr ms0"
    "hm = (n < int (length ms0))" "ms = (if hm then drop (length ms0 - nat n) ms0 else ms0)"
    using page by (rule messagesHandler_page)
  show n: "1 \<le> n \<and> n \<le> 100" using h(3) by (rule page_limit_bounds)
  have room: "canonical_room room" using h(1) by (rule NormalizeRoom_canonical)
  have "\<exists>P. ms0 = lastn (nat (n + 1)) (filter P (history s room))"
  proof (cases before)
    case None
    then have "ms0 = lastn (nat (n + 1)) (filter (\<lambda>_. True) (history s room))"
      using recent_sound [OF inv room, of "n + 1" ms0] h(5) n by simp
    then show ?thesis by blast
  next
    case (Some c)
    then obtain raw where "decodeHistoryCursor J raw = Inr c"
      using h(4) by (auto simp: page_before_def split: list.splits sum.splits if_splits)
    then have "zone (hc_Timestamp c) = UTC" using decodeHistoryCursor_valid by blast
    then show ?thesis
      using before_part [OF inv room, of "n + 1" "hc_Timestamp c" "hc_ID c" ms0] h(5) n Some by auto
  qed
  then obtain P where P: "ms0 = lastn (nat (n + 1)) (filter P (history s room))" ..
  have ms: "ms = lastn (nat n) ms0"
    using h(6,7) n by (auto simp: lastn_def not_less)
  show "\<exists>P k. ms = lastn k (filter P (history s room))"
    using P ms lastn_lastn [OF nat_mono, of n "n + 1"] by (metis less_add_one less_imp_le)
  show "int (length ms) \<le> n" using n by (auto simp: ms)
qed (use page in \<open>auto elim: messagesHandler_page\<close>)

lemma page_rows:
  assumes "invar s" "w_body (messagesHandler R s J L so clk w r) = Some (HistoryBody room ms n hm nxt viewer)"
  shows "sorted_wrt (\<lambda>a b. message_pos stamp a < message_pos stamp b) ms"
    and "m \<in> set ms \<Longrightarrow> m \<in> set (history s room) \<and> db_Room m = room"
proof -
  obtain P k where ms: "ms = lastn k (filter P (history s room))" using page_sound(1) [OF assms] by blast
  have "sorted_wrt (\<lambda>a b. message_pos stamp a < message_pos stamp b) (filter P (history s room))"
    using history_sorted [OF assms(1)] by (rule sorted_wrt_filter)
  then show "sorted_wrt (\<lambda>a b. message_pos stamp a < message_pos stamp b) ms"
    unfolding ms lastn_def by (rule sorted_wrt_drop)
  assume "m \<in> set ms"
  then have "m \<in> set (history s room)" using set_lastn [of k "filter P (history s room)"] by (auto simp: ms)
  then show "m \<in> set (history s room) \<and> db_Room m = room" using history_row [OF assms(1)] by blast
qed

end

end
