(* ===== verification/Client.thy ===== *)
theory Client
  imports Repository RateLimit Events Handlers
begin

text \<open>
  One WebSocket client, \<open>client.go\<close>, with the wire message and the storage wrappers of
  \<open>message.go\<close>: the bounded outbound queue, closing, the writer and heartbeat goroutines
  one iteration at a time, the message limiter and the read deadline. The socket is the list of
  the frames written to it and whether it is closed; whether a write succeeds is chosen by the
  environment. The parts of the read loop that involve the hub are in theory \<open>Hub\<close>.
\<close>

section \<open>Messages\<close>

record Message =
  m_ID :: int
  m_UserID :: string
  m_Username :: string
  m_Content :: string
  m_Type :: string
  m_Room :: string
  m_Timestamp :: gotime

definition saveMessageObservedForUserInRoomContext ::
  "'s Repository \<Rightarrow> 's \<Rightarrow> string \<Rightarrow> string \<Rightarrow> string \<Rightarrow> string \<Rightarrow> string \<Rightarrow> (db_error, db_Message) result \<times> 's" where
  "saveMessageObservedForUserInRoomContext R database room userID username content msgType =
     SaveMessageForUserInRoomContext R database room userID username content msgType"

definition saveMessageObservedInRoomContext ::
  "'s Repository \<Rightarrow> 's \<Rightarrow> string \<Rightarrow> string \<Rightarrow> string \<Rightarrow> string \<Rightarrow> (db_error, db_Message) result \<times> 's" where
  "saveMessageObservedInRoomContext R database room username content msgType =
     saveMessageObservedForUserInRoomContext R database room [] username content msgType"

definition saveMessageObservedInRoom ::
  "'s Repository \<Rightarrow> 's \<Rightarrow> string \<Rightarrow> string \<Rightarrow> string \<Rightarrow> string \<Rightarrow> (db_error, db_Message) result \<times> 's" where
  "saveMessageObservedInRoom R database room username content msgType =
     saveMessageObservedInRoomContext R database room username content msgType"

definition saveMessageObserved ::
  "'s Repository \<Rightarrow> 's \<Rightarrow> string \<Rightarrow> string \<Rightarrow> string \<Rightarrow> (db_error, db_Message) result \<times> 's" where
  "saveMessageObserved R database username content msgType =
     saveMessageObservedInRoom R database DefaultRoom username content msgType"

section \<open>The client\<close>

definition outboundQueueSize :: nat where "outboundQueueSize = 256"
definition shutdownCloseCode :: nat where "shutdownCloseCode = 1012"
definition shutdownCloseReason :: string where "shutdownCloseReason = ''server shutting down''"
definition pongWait :: int where "pongWait = 60 * second"
definition writeWait :: int where "writeWait = 10 * second"
definition shutdownCloseWait :: int where "shutdownCloseWait = 250 * (second div 1000)"
definition pingPeriod :: int where "pingPeriod = (pongWait * 9) div 10"
definition maxWebSocketReadBytes :: nat where "maxWebSocketReadBytes = 32 * 1024"

datatype frame = DataFrame Message | PingFrame | CloseFrame nat string

record Conn =
  conn_sent :: "frame list"
  conn_closed :: bool

record 'l Client =
  c_ID :: string
  c_UserID :: string
  c_Conn :: "Conn option"
  c_Username :: string
  c_Authenticated :: bool
  c_AuthExpiresAt :: gotime
  c_Room :: string
  c_msgLimiter :: "'l option"
  c_send :: "Message list"
  c_done :: bool

definition Client_setUsername :: "string \<Rightarrow> 'l Client \<Rightarrow> 'l Client" where
  "Client_setUsername username c = c\<lparr>c_Username := username\<rparr>"

definition Client_username :: "'l Client \<Rightarrow> string" where
  "Client_username c = c_Username c"

definition Client_room :: "'l Client \<Rightarrow> string" where
  "Client_room c = (if c_Room c = [] then DefaultRoom else c_Room c)"

text \<open>
  The two \<open>select\<close> statements of \<open>enqueue\<close> take effect at one point: the message is
  queued if the client is open and its queue has room, and refused otherwise.
\<close>

definition Client_enqueue :: "Message \<Rightarrow> 'l Client \<Rightarrow> bool \<times> 'l Client" where
  "Client_enqueue message c =
     (if c_done c then (False, c)
      else if length (c_send c) < outboundQueueSize then (True, c\<lparr>c_send := c_send c @ [message]\<rparr>)
      else (False, c))"

definition conn_write :: "frame \<Rightarrow> Conn \<Rightarrow> Conn" where
  "conn_write f k = k\<lparr>conn_sent := conn_sent k @ [f]\<rparr>"

definition conn_close :: "Conn \<Rightarrow> Conn" where
  "conn_close k = k\<lparr>conn_closed := True\<rparr>"

text \<open>
  The two writes of a client, one at a time under \<open>writeMu\<close>: a data frame, which fails when
  its deadline cannot be set or the write does not succeed, and a control frame. They answer
  whether they succeeded.
\<close>

definition Client_writeJSON :: "bool \<Rightarrow> Message \<Rightarrow> 'l Client \<Rightarrow> bool \<times> 'l Client" where
  "Client_writeJSON writeOK v c =
     (if writeOK then (True, c\<lparr>c_Conn := map_option (conn_write (DataFrame v)) (c_Conn c)\<rparr>) else (False, c))"

definition Client_writeControl :: "bool \<Rightarrow> frame \<Rightarrow> 'l Client \<Rightarrow> bool \<times> 'l Client" where
  "Client_writeControl writeOK message c =
     (if writeOK then (True, c\<lparr>c_Conn := map_option (conn_write message) (c_Conn c)\<rparr>) else (False, c))"

text \<open>\<open>closeOnce\<close> has run exactly when \<open>done\<close> is closed.\<close>

definition Client_close :: "'l Client \<Rightarrow> 'l Client" where
  "Client_close c =
     (if c_done c then c else c\<lparr>c_done := True, c_Conn := map_option conn_close (c_Conn c)\<rparr>)"

definition Client_closeForShutdown :: "bool \<Rightarrow> 'l Client \<Rightarrow> 'l Client" where
  "Client_closeForShutdown writeOK c =
     (let c = (case c_Conn c of
                 Some k \<Rightarrow> if writeOK \<and> \<not> conn_closed k
                           then c\<lparr>c_Conn := Some (conn_write (CloseFrame shutdownCloseCode shutdownCloseReason) k)\<rparr>
                           else c
               | None \<Rightarrow> c)
      in Client_close c)"

definition Client_allowMessage :: "'l rate_lib \<Rightarrow> gotime \<Rightarrow> 'l Client \<Rightarrow> bool \<times> 'l Client" where
  "Client_allowMessage X now c =
     (case c_msgLimiter c of
        None \<Rightarrow> (True, c)
      | Some l \<Rightarrow> let (ok, l') = rate_Allow X now l in (ok, c\<lparr>c_msgLimiter := Some l'\<rparr>))"

definition rateLimitNotice :: "'l Client \<Rightarrow> Message" where
  "rateLimitNotice c =
     \<lparr>m_ID = 0, m_UserID = [], m_Username = ''System'',
      m_Content = ''You are sending messages too quickly. Please slow down.'',
      m_Type = ''notification'', m_Room = Client_room c, m_Timestamp = zero_time\<rparr>"

definition Client_sendRateLimitNotice :: "'l Client \<Rightarrow> 'l Client" where
  "Client_sendRateLimitNotice c = snd (Client_enqueue (rateLimitNotice c) c)"

text \<open>
  One iteration of \<open>writeMessages\<close>: it returns once the client is closed, waits while the
  queue is empty, and otherwise writes the oldest queued message; a failed write closes the
  client and ends the goroutine.
\<close>

datatype write_outcome = WriteReturns | WriteWaits | WriteSent | WriteFails

definition Client_writeMessages :: "bool \<Rightarrow> 'l Client \<Rightarrow> write_outcome \<times> 'l Client" where
  "Client_writeMessages writeOK c =
     (if c_done c then (WriteReturns, c)
      else case c_send c of
             [] \<Rightarrow> (WriteWaits, c)
           | message # rest \<Rightarrow>
             (case Client_writeJSON writeOK message (c\<lparr>c_send := rest\<rparr>) of
                (True, c) \<Rightarrow> (WriteSent, c)
              | (False, c) \<Rightarrow> (WriteFails, Client_close c)))"

definition Client_startHeartbeat :: "bool \<Rightarrow> 'l Client \<Rightarrow> bool \<times> 'l Client" where
  "Client_startHeartbeat writeOK c =
     (case Client_writeControl writeOK PingFrame c of
        (True, c) \<Rightarrow> (True, c)
      | (False, c) \<Rightarrow> (False, Client_close c))"

definition Client_nextReadDeadline :: "gotime \<Rightarrow> 'l Client \<Rightarrow> gotime" where
  "Client_nextReadDeadline now c =
     (let deadline = Add now pongWait in
      if \<not> IsZero (c_AuthExpiresAt c) \<and> Before (c_AuthExpiresAt c) deadline then c_AuthExpiresAt c else deadline)"

section \<open>Lemmas\<close>

text \<open>The writer and the heartbeat with the writes written out.\<close>

lemma Client_writeMessages_eq:
  "Client_writeMessages writeOK c =
     (if c_done c then (WriteReturns, c)
      else case c_send c of
             [] \<Rightarrow> (WriteWaits, c)
           | message # rest \<Rightarrow>
             let c = c\<lparr>c_send := rest\<rparr> in
             if writeOK then (WriteSent, c\<lparr>c_Conn := map_option (conn_write (DataFrame message)) (c_Conn c)\<rparr>)
             else (WriteFails, Client_close c))"
  by (simp add: Client_writeMessages_def Client_writeJSON_def split: list.split)

lemma Client_startHeartbeat_eq:
  "Client_startHeartbeat writeOK c =
     (if writeOK then (True, c\<lparr>c_Conn := map_option (conn_write PingFrame) (c_Conn c)\<rparr>) else (False, Client_close c))"
  by (simp add: Client_startHeartbeat_def Client_writeControl_def)

text \<open>
  A ping is sent before the read deadline that its answer extends has passed, and a write gives up
  before the next ping is due.
\<close>

lemma heartbeat_periods: "writeWait < pingPeriod" "pingPeriod < pongWait" "shutdownCloseWait < writeWait"
  by (simp_all add: writeWait_def pingPeriod_def pongWait_def shutdownCloseWait_def second_def)

text \<open>The fields that identify a client; no operation of this theory but \<open>setUsername\<close> touches them.\<close>

definition identity :: "'l Client \<Rightarrow> string \<times> string \<times> string \<times> bool \<times> gotime \<times> string" where
  "identity c = (c_ID c, c_UserID c, c_Username c, c_Authenticated c, c_AuthExpiresAt c, c_Room c)"

lemma identity_ops [simp]:
  "identity (snd (Client_enqueue m c)) = identity c"
  "identity (Client_close c) = identity c"
  "identity (Client_closeForShutdown ok c) = identity c"
  "identity (snd (Client_allowMessage X now c)) = identity c"
  "identity (Client_sendRateLimitNotice c) = identity c"
  "identity (snd (Client_writeMessages ok c)) = identity c"
  "identity (snd (Client_startHeartbeat ok c)) = identity c"
  by (auto simp: identity_def Client_enqueue_def Client_close_def Client_closeForShutdown_def Client_allowMessage_def
      Client_sendRateLimitNotice_def Client_writeMessages_eq Client_startHeartbeat_eq Let_def
      split: option.splits list.splits prod.splits)

text \<open>The client's part of the hub invariant: its queue is bounded, and everything queued for it
  or written to its socket belongs to its own room.\<close>

fun frame_room_ok :: "string \<Rightarrow> frame \<Rightarrow> bool" where
  "frame_room_ok room (DataFrame m) = (m_Room m = room)"
| "frame_room_ok room _ = True"

definition client_ok :: "'l Client \<Rightarrow> bool" where
  "client_ok c \<longleftrightarrow> canonical_room (c_Room c) \<and> length (c_send c) \<le> outboundQueueSize \<and>
     (\<forall>m \<in> set (c_send c). m_Room m = c_Room c) \<and>
     (\<forall>k. c_Conn c = Some k \<longrightarrow> (\<forall>f \<in> set (conn_sent k). frame_room_ok (c_Room c) f))"

lemma canonical_ne: "canonical_room r \<Longrightarrow> r \<noteq> []"
  by (simp add: canonical_room_def)

lemma client_ok_room: "client_ok c \<Longrightarrow> Client_room c = c_Room c"
  by (auto simp: client_ok_def Client_room_def dest: canonical_ne)

lemma client_ok_enqueue [inv_intros]:
  "client_ok c \<Longrightarrow> m_Room m = c_Room c \<Longrightarrow> client_ok (snd (Client_enqueue m c))"
  by (auto simp: client_ok_def Client_enqueue_def outboundQueueSize_def)

lemma client_ok_close [inv_intros]: "client_ok c \<Longrightarrow> client_ok (Client_close c)"
  by (auto simp: client_ok_def Client_close_def conn_close_def)

lemma client_ok_closeForShutdown [inv_intros]: "client_ok c \<Longrightarrow> client_ok (Client_closeForShutdown ok c)"
  by (auto simp: Client_closeForShutdown_def Let_def client_ok_def conn_write_def Client_close_def conn_close_def
      split: option.splits)

lemma client_ok_allowMessage [inv_intros]: "client_ok c \<Longrightarrow> client_ok (snd (Client_allowMessage X now c))"
  by (auto simp: client_ok_def Client_allowMessage_def split: option.splits prod.splits)

lemma client_ok_setUsername [inv_intros]: "client_ok c \<Longrightarrow> client_ok (Client_setUsername n c)"
  by (auto simp: client_ok_def Client_setUsername_def)

lemma client_ok_notice [inv_intros]: "client_ok c \<Longrightarrow> client_ok (Client_sendRateLimitNotice c)"
  using client_ok_enqueue client_ok_room by (fastforce simp: Client_sendRateLimitNotice_def rateLimitNotice_def)

lemma client_ok_write [inv_intros]: "client_ok c \<Longrightarrow> client_ok (snd (Client_writeMessages ok c))"
  by (auto simp: client_ok_def Client_writeMessages_eq conn_write_def Client_close_def conn_close_def Let_def
      split: list.splits)

lemma client_ok_heartbeat [inv_intros]: "client_ok c \<Longrightarrow> client_ok (snd (Client_startHeartbeat ok c))"
  by (auto simp: client_ok_def Client_startHeartbeat_eq conn_write_def Client_close_def conn_close_def)

lemma close_done [simp]: "c_done (Client_close c)" "c_done (Client_closeForShutdown ok c)"
  by (auto simp: Client_close_def Client_closeForShutdown_def Let_def)

lemma enqueue_result:
  "fst (Client_enqueue m c) \<longleftrightarrow> \<not> c_done c \<and> length (c_send c) < outboundQueueSize"
  "snd (Client_enqueue m c) = (if fst (Client_enqueue m c) then c\<lparr>c_send := c_send c @ [m]\<rparr> else c)"
  by (auto simp: Client_enqueue_def)

lemma nextReadDeadline_bounds:
  "instant (Client_nextReadDeadline now c) \<le> instant now + pongWait"
  "\<not> IsZero (c_AuthExpiresAt c) \<Longrightarrow> instant (Client_nextReadDeadline now c) \<le> instant (c_AuthExpiresAt c)"
  by (auto simp: Client_nextReadDeadline_def Let_def Before_def)

end
