(* ===== verification/Hub.thy ===== *)
theory Hub
  imports Client
begin

text \<open>
  The hub, \<open>hub.go\<close>, and the part of the clients' read loop (\<open>client.go\<close>) that works
  on it. The state keeps the client objects in a store indexed by their address, the hub's maps
  as sets of addresses, its channels as bounded lists, and, for each goroutine that can wait at
  a channel, where it stands. Every operation is a function on that state; a channel operation
  that would block is \<open>None\<close>. Map iteration has no fixed order in Go, so the operations that
  iterate take the order as an argument.
\<close>

section \<open>State\<close>

definition maxSeenBrokerEvents :: nat where "maxSeenBrokerEvents = 4096"
definition leaveNotificationQueueSize :: nat where "leaveNotificationQueueSize = 256"
definition broadcastQueueSize :: nat where "broadcastQueueSize = 1024"
definition brokerQueueSize :: nat where "brokerQueueSize = outboundQueueSize * 4"

text \<open>The counters the hub and the clients increment, by label where the source has labels.\<close>

record Metrics =
  ConnectedClients :: int
  MessagesIngested :: nat
  MessagesRejected :: "string \<Rightarrow> nat"
  WSOutboundDrops :: "string \<Rightarrow> nat"
  RedisDrops :: "string \<Rightarrow> nat"
  WSUpgrades :: "string \<Rightarrow> nat"
  WSDrainStarted :: nat
  WSDrainClientsRemaining :: nat
  WSDrainForcedCloses :: nat

definition inc :: "string \<Rightarrow> (string \<Rightarrow> nat) \<Rightarrow> string \<Rightarrow> nat" where
  "inc label f = f(label := f label + 1)"

text \<open>
  Where the goroutine that serves a connection stands: in \<open>registerClient\<close> after the lock is
  released, waiting to publish the join notification, registered and not yet counted, in the read
  loop, waiting to publish a message, and in the stages of the deferred clean-up of the read loop:
  entered, counted out and waiting for the run loop to take the client, past
  \<open>unregisterClient\<close>, and done.
\<close>

datatype phase =
    Joining
  | JoinPublish Message
  | Joined
  | Reading
  | ReadPublish Message
  | Leaving
  | Unregistering
  | Unregistered
  | Ended

text \<open>The goroutine \<open>sendMessageHistory\<close> of a client: about to query, or with messages left to queue.\<close>

datatype history_phase = Fetching | Pushing "Message list"

text \<open>
  Where \<open>drain\<close> stands: not called, in \<open>stopBroker\<close> with the clients to close, closing the sockets of the clients in the list, waiting
  for the clients in the set to finish (with its counter), past the loop with the clients that
  remain and the number of forced closes, in \<open>stopLeaveNotifications\<close> (entered, then waiting
  for the goroutine), waiting for the run loop with the error of that call, or returned.
\<close>

datatype ctx_error = Canceled | DeadlineExceeded

datatype drain_phase =
    DrainIdle
  | DrainBroker "nat list"
  | DrainClosing "nat list" "nat list"
  | DrainWaiting "nat set" nat
  | DrainLeft nat nat
  | DrainLeaves nat nat
  | DrainLeaveWait nat nat
  | DrainRunWait nat nat "ctx_error option"
  | DrainReturned "ctx_error option"

record ('l, 's) Hub =
  h_heap :: "nat \<rightharpoonup> 'l Client"
  h_clients :: "nat set"
  h_broadcast :: "Message list"
  h_done :: bool
  h_received :: "nat option"
  h_runStarted :: bool
  h_runDone :: bool
  h_draining :: bool
  h_drainEvents :: "nat list option"
  h_drainCap :: nat
  h_drainPending :: "nat set"
  h_finished :: "nat set"
  h_drain :: drain_phase
  h_drainCtxErr :: "ctx_error option"
  h_database :: 's
  h_fanout :: bool
  h_instanceID :: string
  h_brokerPublish :: "Envelope list option"
  h_brokerCancelled :: bool
  h_brokerWG :: nat
  h_seenEvents :: "string set"
  h_seenEventIDs :: "string list"
  h_leaveQueue :: "Message list"
  h_leaveStarted :: bool
  h_leavePending :: "Message option"
  h_leaveStop :: bool
  h_leaveCancelled :: bool
  h_leaveDone :: bool
  h_phase :: "nat \<rightharpoonup> phase"
  h_history :: "nat \<rightharpoonup> history_phase"
  h_metrics :: Metrics

definition newMetrics :: Metrics where
  "newMetrics =
     \<lparr>ConnectedClients = 0, MessagesIngested = 0, MessagesRejected = (\<lambda>_. 0), WSOutboundDrops = (\<lambda>_. 0),
      RedisDrops = (\<lambda>_. 0), WSUpgrades = (\<lambda>_. 0), WSDrainStarted = 0, WSDrainClientsRemaining = 0,
      WSDrainForcedCloses = 0\<rparr>"

text \<open>\<open>fanout\<close> is the instance identifier of the broker, when there is one.\<close>

definition newHub :: "'s \<Rightarrow> string option \<Rightarrow> ('l, 's) Hub" where
  "newHub database fanout =
     \<lparr>h_heap = Map.empty, h_clients = {}, h_broadcast = [], h_done = False, h_received = None,
      h_runStarted = False, h_runDone = False,
      h_draining = False, h_drainEvents = None, h_drainCap = 0, h_drainPending = {}, h_finished = {},
      h_drain = DrainIdle, h_drainCtxErr = None,
      h_database = database, h_fanout = (fanout \<noteq> None),
      h_instanceID = (case fanout of None \<Rightarrow> [] | Some i \<Rightarrow> i),
      h_brokerPublish = None, h_brokerCancelled = False, h_brokerWG = 0, h_seenEvents = {}, h_seenEventIDs = [],
      h_leaveQueue = [], h_leaveStarted = False, h_leavePending = None, h_leaveStop = False, h_leaveCancelled = False, h_leaveDone = False,
      h_phase = Map.empty, h_history = Map.empty, h_metrics = newMetrics\<rparr>"

definition upd_client :: "nat \<Rightarrow> ('l Client \<Rightarrow> 'l Client) \<Rightarrow> ('l, 's) Hub \<Rightarrow> ('l, 's) Hub" where
  "upd_client c f h = h\<lparr>h_heap := (h_heap h)(c := map_option f (h_heap h c))\<rparr>"

definition count :: "(Metrics \<Rightarrow> Metrics) \<Rightarrow> ('l, 's) Hub \<Rightarrow> ('l, 's) Hub" where
  "count f h = h\<lparr>h_metrics := f (h_metrics h)\<rparr>"

definition redis_drop :: "string \<Rightarrow> ('l, 's) Hub \<Rightarrow> ('l, 's) Hub" where
  "redis_drop label = count (RedisDrops_update (inc label))"

definition outbound_drop :: "string \<Rightarrow> ('l, 's) Hub \<Rightarrow> ('l, 's) Hub" where
  "outbound_drop label = count (WSOutboundDrops_update (inc label))"

definition reject :: "string \<Rightarrow> ('l, 's) Hub \<Rightarrow> ('l, 's) Hub" where
  "reject label = count (MessagesRejected_update (inc label))"

definition ws_upgrade :: "string \<Rightarrow> ('l, 's) Hub \<Rightarrow> ('l, 's) Hub" where
  "ws_upgrade label = count (WSUpgrades_update (inc label))"

definition set_phase :: "nat \<Rightarrow> phase \<Rightarrow> ('l, 's) Hub \<Rightarrow> ('l, 's) Hub" where
  "set_phase c p h = h\<lparr>h_phase := (h_phase h)(c \<mapsto> p)\<rparr>"

section \<open>Publishing\<close>

definition startBroker :: "('l, 's) Hub \<Rightarrow> ('l, 's) Hub" where
  "startBroker h = (if \<not> h_fanout h then h
      else h\<lparr>h_brokerPublish := Some [], h_brokerWG := h_brokerWG h + 2\<rparr>)"

definition queueBrokerMessage :: "string \<Rightarrow> Message \<Rightarrow> ('l, 's) Hub \<Rightarrow> ('l, 's) Hub" where
  "queueBrokerMessage eventID message h =
     (if \<not> h_fanout h then h
      else case h_brokerPublish h of
             None \<Rightarrow> h
           | Some q \<Rightarrow>
             if m_ID message \<le> 0 \<or> IsZero (m_Timestamp message) then redis_drop ''not_persisted'' h
             else case New eventID (m_Room message) (h_instanceID h)
                    \<lparr>em_ID = m_ID message, em_UserID = m_UserID message, em_Username = m_Username message,
                     em_Content = m_Content message, em_Type = m_Type message\<rparr> (m_Timestamp message) of
                    Inl _ \<Rightarrow> redis_drop ''invalid_event'' h
                  | Inr event \<Rightarrow>
                    if length q < brokerQueueSize then h\<lparr>h_brokerPublish := Some (q @ [event])\<rparr>
                    else redis_drop ''publish_backpressure'' h)"

text \<open>
  When the hub is stopped between the two \<open>select\<close> statements of \<open>publishContext\<close> and the
  queue has room, Go may take either case: \<open>pick\<close>. It blocks while the hub runs and the queue is
  full.
\<close>

definition publishContext ::
  "bool \<Rightarrow> string \<Rightarrow> Message \<Rightarrow> ('l, 's) Hub \<Rightarrow> (bool \<times> ('l, 's) Hub) option" where
  "publishContext pick eventID message h =
     (if length (h_broadcast h) < broadcastQueueSize \<and> (\<not> h_done h \<or> pick) then
        Some (True, queueBrokerMessage eventID message (h\<lparr>h_broadcast := h_broadcast h @ [message]\<rparr>))
      else if h_done h then Some (False, h)
      else None)"

section \<open>Registration\<close>

definition system_notification :: "string \<Rightarrow> string \<Rightarrow> Message" where
  "system_notification content room =
     \<lparr>m_ID = 0, m_UserID = [], m_Username = ''System'', m_Content = content, m_Type = ''notification'',
      m_Room = room, m_Timestamp = zero_time\<rparr>"

definition stamp_saved :: "(db_error, db_Message) result \<Rightarrow> Message \<Rightarrow> Message" where
  "stamp_saved saved message =
     (case saved of
        Inl _ \<Rightarrow> message
      | Inr persisted \<Rightarrow> message\<lparr>m_ID := db_ID persisted, m_Timestamp := db_Timestamp persisted\<rparr>)"

definition save_notification :: "'s Repository \<Rightarrow> Message \<Rightarrow> ('l, 's) Hub \<Rightarrow> Message \<times> ('l, 's) Hub" where
  "save_notification R message h =
     (let (saved, db') = saveMessageObservedInRoomContext R (h_database h) (m_Room message) (m_Username message)
                           (m_Content message) (m_Type message)
      in (stamp_saved saved message, h\<lparr>h_database := db'\<rparr>))"

text \<open>
  \<open>registerClient\<close>: the locked section, the start of the history goroutine, then the
  persisted join notification, then its publication.
\<close>

definition register_locked :: "nat \<Rightarrow> ('l, 's) Hub \<Rightarrow> bool \<times> ('l, 's) Hub" where
  "register_locked c h =
     (if h_draining h then (False, h) else (True, h\<lparr>h_clients := insert c (h_clients h)\<rparr>))"

definition join_notification :: "'l Client \<Rightarrow> Message" where
  "join_notification client =
     system_notification (Client_username client @ '' joined the chat'') (Client_room client)"

definition registerClient ::
  "'s Repository \<Rightarrow> bool \<Rightarrow> string \<Rightarrow> nat \<Rightarrow> 'l Client \<Rightarrow> ('l, 's) Hub \<Rightarrow> (bool \<times> ('l, 's) Hub) option" where
  "registerClient R pick eventID c client h =
     (let (ok, h) = register_locked c h in
      if \<not> ok then Some (False, h)
      else let h = h\<lparr>h_history := (h_history h)(c \<mapsto> Fetching)\<rparr>;
               (notification, h) = save_notification R (join_notification client) h in
        case publishContext pick eventID notification h of
          None \<Rightarrow> None
        | Some (_, h) \<Rightarrow> Some (True, h))"

section \<open>Leaving\<close>

definition queueLeaveNotification :: "Message \<Rightarrow> ('l, 's) Hub \<Rightarrow> ('l, 's) Hub" where
  "queueLeaveNotification message h0 =
     (let h = h0\<lparr>h_leaveStarted := True\<rparr> in
      if length (h_leaveQueue h) < leaveNotificationQueueSize then h\<lparr>h_leaveQueue := h_leaveQueue h @ [message]\<rparr>
      else outbound_drop ''leave_backpressure'' h)"

definition disconnectClientLocked :: "nat \<Rightarrow> ('l, 's) Hub \<Rightarrow> ('l, 's) Hub" where
  "disconnectClientLocked c h =
     (if c \<notin> h_clients h then h
      else let h = h\<lparr>h_clients := h_clients h - {c}, h_finished := h_finished h - {c}\<rparr>;
               h = upd_client c Client_close h
        in case h_heap h c of
             None \<Rightarrow> h
           | Some client \<Rightarrow>
             if Client_username client = ''Anonymous'' then h
             else queueLeaveNotification
                    (system_notification (Client_username client @ '' left the chat'') (Client_room client)) h)"

text \<open>
  One notification of \<open>runLeaveNotifications\<close>: take, persist; the publication may wait. Once
  \<open>leaveStop\<close> is closed the goroutine empties the queue and returns, or returns at once when its
  context is cancelled.
\<close>

definition leave_take :: "'s Repository \<Rightarrow> ('l, 's) Hub \<Rightarrow> ('l, 's) Hub option" where
  "leave_take R h =
     (case h_leaveQueue h of
        [] \<Rightarrow> None
      | message # rest \<Rightarrow>
        let (message, h) = save_notification R message (h\<lparr>h_leaveQueue := rest\<rparr>)
        in Some (h\<lparr>h_leavePending := Some message\<rparr>))"

definition leave_returns :: "('l, 's) Hub \<Rightarrow> bool" where
  "leave_returns h \<longleftrightarrow> h_leaveStop h \<and> h_leavePending h = None \<and>
     (h_leaveCancelled h \<or> h_drainCtxErr h \<noteq> None \<or> h_leaveQueue h = [])"

text \<open>
  \<open>stopLeaveNotifications\<close>: what it does before it waits (\<open>False\<close>: nothing was started), and
  what it does once \<open>leaveDone\<close> is closed or the context has ended. Its context cancels the
  goroutine's when it ends.
\<close>

definition stopLeave_begin :: "('l, 's) Hub \<Rightarrow> bool \<times> ('l, 's) Hub" where
  "stopLeave_begin h = (if \<not> h_leaveStarted h then (False, h) else (True, h\<lparr>h_leaveStop := True\<rparr>))"

definition stopLeave_end :: "('l, 's) Hub \<Rightarrow> ctx_error option \<times> ('l, 's) Hub" where
  "stopLeave_end h = (h_drainCtxErr h, h\<lparr>h_leaveCancelled := True\<rparr>)"

definition notifyClientFinished :: "nat \<Rightarrow> ('l, 's) Hub \<Rightarrow> ('l, 's) Hub option" where
  "notifyClientFinished c h0 =
     (let h = h0\<lparr>h_finished := insert c (h_finished h0)\<rparr> in
      if \<not> h_draining h then Some h
      else case h_drainEvents h of
             None \<Rightarrow> Some h
           | Some events \<Rightarrow>
             if c \<notin> h_drainPending h then Some h
             else let h = h\<lparr>h_drainPending := h_drainPending h - {c}\<rparr>;
                      h = count (WSDrainClientsRemaining_update (\<lambda>_. card (h_drainPending h))) h
               in if length events < h_drainCap h then Some (h\<lparr>h_drainEvents := Some (events @ [c])\<rparr>) else None)"

section \<open>Remote events\<close>

definition rememberBrokerEvent :: "string \<Rightarrow> ('l, 's) Hub \<Rightarrow> bool \<times> ('l, 's) Hub" where
  "rememberBrokerEvent eventID h =
     (if eventID \<in> h_seenEvents h then (False, h)
      else let h = h\<lparr>h_seenEvents := insert eventID (h_seenEvents h),
                     h_seenEventIDs := h_seenEventIDs h @ [eventID]\<rparr>
        in if length (h_seenEventIDs h) > maxSeenBrokerEvents then
             (let oldest = hd (h_seenEventIDs h) in
              (True, h\<lparr>h_seenEventIDs := tl (h_seenEventIDs h), h_seenEvents := h_seenEvents h - {oldest}\<rparr>))
           else (True, h))"

definition message_of_event :: "Envelope \<Rightarrow> Message" where
  "message_of_event event =
     \<lparr>m_ID = em_ID (env_Message event), m_UserID = em_UserID (env_Message event),
      m_Username = em_Username (env_Message event), m_Content = em_Content (env_Message event),
      m_Type = em_Type (env_Message event), m_Room = env_Room event, m_Timestamp = env_Timestamp event\<rparr>"

text \<open>When the hub is stopped and the queue has room, Go's \<open>select\<close> may take either: \<open>pick\<close>.\<close>

definition handleRemoteEvent :: "bool \<Rightarrow> Envelope \<Rightarrow> ('l, 's) Hub \<Rightarrow> ('l, 's) Hub" where
  "handleRemoteEvent pick event h =
     (if env_OriginInstance event = h_instanceID h then redis_drop ''loop'' h
      else let (fresh, h) = rememberBrokerEvent (env_EventID event) h in
        if \<not> fresh then redis_drop ''duplicate'' h
        else if h_draining h then redis_drop ''draining'' h
        else if length (h_broadcast h) < broadcastQueueSize \<and> (\<not> h_done h \<or> pick) then
          h\<lparr>h_broadcast := h_broadcast h @ [message_of_event event]\<rparr>
        else if h_done h then h
        else redis_drop ''client_backpressure'' h)"

section \<open>The run loop\<close>

text \<open>The body of the loop over \<open>h.clients\<close> for one broadcast message.\<close>

definition deliver :: "Message \<Rightarrow> nat \<Rightarrow> ('l, 's) Hub \<Rightarrow> ('l, 's) Hub" where
  "deliver message c h =
     (case h_heap h c of
        None \<Rightarrow> h
      | Some client \<Rightarrow>
        if m_Room message \<noteq> [] \<and> Client_room client \<noteq> m_Room message then h
        else let (ok, client') = Client_enqueue message client; h = upd_client c (\<lambda>_. client') h in
          if \<not> ok then disconnectClientLocked c (outbound_drop ''slow_client'' h) else h)"

definition run_broadcast :: "nat list \<Rightarrow> ('l, 's) Hub \<Rightarrow> ('l, 's) Hub option" where
  "run_broadcast order h =
     (case h_broadcast h of
        [] \<Rightarrow> None
      | message # rest \<Rightarrow> Some (fold (deliver message) order (h\<lparr>h_broadcast := rest\<rparr>)))"

definition stop :: "('l, 's) Hub \<Rightarrow> ('l, 's) Hub" where
  "stop h = h\<lparr>h_done := True\<rparr>"

section \<open>History on connect\<close>

definition message_of_row :: "db_Message \<Rightarrow> Message" where
  "message_of_row msg =
     \<lparr>m_ID = db_ID msg, m_UserID = db_UserID msg, m_Username = db_Username msg, m_Content = db_Content msg,
      m_Type = db_Type msg, m_Room = db_Room msg, m_Timestamp = db_Timestamp msg\<rparr>"

definition welcome_message :: "string \<Rightarrow> Message" where
  "welcome_message room = system_notification ''Welcome to the chat! You can see the last 50 messages.'' room"

definition history_messages :: "'s Repository \<Rightarrow> 's \<Rightarrow> 'l Client \<Rightarrow> Message list" where
  "history_messages R database client =
     (case GetRecentMessagesInRoomContext R database (Client_room client) 50 of
        Inl _ \<Rightarrow> []
      | Inr messages \<Rightarrow> map message_of_row messages @ [welcome_message (Client_room client)])"

text \<open>The loop stops at the first message the client's queue refuses.\<close>

fun enqueue_all :: "Message list \<Rightarrow> 'l Client \<Rightarrow> 'l Client" where
  "enqueue_all [] client = client"
| "enqueue_all (m # ms) client =
     (let (ok, client') = Client_enqueue m client in if ok then enqueue_all ms client' else client')"

definition sendMessageHistory :: "'s Repository \<Rightarrow> 's \<Rightarrow> 'l Client \<Rightarrow> 'l Client" where
  "sendMessageHistory R database client = enqueue_all (history_messages R database client) client"

section \<open>The read loop\<close>

definition auditRejectedMessage ::
  "'s Repository \<Rightarrow> 'l Client \<Rightarrow> string \<Rightarrow> string \<Rightarrow> ('l, 's) Hub \<Rightarrow> ('l, 's) Hub" where
  "auditRejectedMessage R client reason content h =
     h\<lparr>h_database := snd (SaveModerationEventForUserContext R (h_database h) (c_ID client) (c_UserID client)
                            (Client_username client) reason content)\<rparr>"

datatype read_outcome = ReadNext | ReadPublishes Message

definition readMessages_body ::
  "'s Repository \<Rightarrow> 'l rate_lib \<Rightarrow> gotime \<Rightarrow> nat \<Rightarrow> 'l Client \<Rightarrow> Message \<Rightarrow> ('l, 's) Hub \<Rightarrow>
     read_outcome \<times> ('l, 's) Hub" where
  "readMessages_body R X now c client msg h =
     (if m_Type msg = ''username'' then
        if c_Authenticated client then
          (ReadNext, auditRejectedMessage R client ''identity_override'' (m_Content msg) (reject ''identity_override'' h))
        else let name = TrimSpace (m_Content msg) in
          if \<not> validUsername name then
            (ReadNext, auditRejectedMessage R client ''invalid_username'' (m_Content msg) (reject ''invalid_username'' h))
          else (ReadNext, upd_client c (Client_setUsername name) h)
      else
        let msg = (if m_Type msg \<noteq> ''message'' then msg\<lparr>m_Type := ''message''\<rparr> else msg);
            body = TrimSpace (m_Content msg)
        in if \<not> validMessageBody body then
             (ReadNext, auditRejectedMessage R client ''invalid_body'' (m_Content msg) (reject ''invalid_body'' h))
           else let (allowed, client') = Client_allowMessage X now client;
                    h = upd_client c (\<lambda>_. client') h
             in if \<not> allowed then
                  (ReadNext, upd_client c Client_sendRateLimitNotice
                               (auditRejectedMessage R client ''rate_limited'' body (reject ''rate_limited'' h)))
                else
                  let msg = msg\<lparr>m_Content := body, m_UserID := c_UserID client, m_Username := Client_username client,
                                m_Room := Client_room client\<rparr>;
                      (saved, db') = saveMessageObservedForUserInRoomContext R (h_database h) (m_Room msg) (m_UserID msg)
                                       (m_Username msg) (m_Content msg) (m_Type msg);
                      h = count (MessagesIngested_update Suc) (h\<lparr>h_database := db'\<rparr>)
                  in (ReadPublishes (stamp_saved saved msg), h))"

text \<open>One iteration of the loop: \<open>None\<close> while the publication waits, \<open>False\<close> when the loop ends.\<close>

definition readMessages_iteration ::
  "'s Repository \<Rightarrow> 'l rate_lib \<Rightarrow> gotime \<Rightarrow> bool \<Rightarrow> string \<Rightarrow> nat \<Rightarrow> 'l Client \<Rightarrow> Message \<Rightarrow> ('l, 's) Hub \<Rightarrow>
     (bool \<times> ('l, 's) Hub) option" where
  "readMessages_iteration R X now pick eventID c client msg h =
     (case readMessages_body R X now c client msg h of
        (ReadNext, h) \<Rightarrow> Some (True, h)
      | (ReadPublishes m, h) \<Rightarrow> publishContext pick eventID m h)"

section \<open>Draining\<close>

text \<open>
  \<open>brokerCancel\<close> and \<open>brokerPublish\<close> are both set by \<open>startBroker\<close>. Cancelling stops the publisher;
  \<open>stopBroker\<close> then waits until the two broker goroutines have left the wait group or the context
  has ended. The publisher leaves only once it is cancelled, the subscriber when the broker's
  \<open>Run\<close> returns.
\<close>

definition stopBroker :: "('l, 's) Hub \<Rightarrow> ('l, 's) Hub" where
  "stopBroker h = (if h_brokerPublish h = None then h else h\<lparr>h_brokerCancelled := True\<rparr>)"

lemma stopBroker_eq [simp]:
  "stopBroker h = h\<lparr>h_brokerCancelled := (h_brokerPublish h \<noteq> None \<or> h_brokerCancelled h)\<rparr>"
  by (simp add: stopBroker_def)

definition brokerDone :: "('l, 's) Hub \<Rightarrow> ('l, 's) Hub option" where
  "brokerDone h =
     (if h_brokerWG h = 2 \<or> h_brokerWG h > 0 \<and> h_brokerCancelled h then Some (h\<lparr>h_brokerWG := h_brokerWG h - 1\<rparr>)
      else None)"

definition stopBroker_returns :: "('l, 's) Hub \<Rightarrow> bool" where
  "stopBroker_returns h \<longleftrightarrow> h_brokerWG h = 0 \<or> h_drainCtxErr h \<noteq> None"

definition drain_begin :: "nat list \<Rightarrow> ('l, 's) Hub \<Rightarrow> nat list \<times> ('l, 's) Hub" where
  "drain_begin order h =
     (let clients = filter (\<lambda>c. c \<notin> h_finished h) order;
          h = count (WSDrainStarted_update Suc) h;
          h = h\<lparr>h_draining := True,
                h_finished := h_finished h - h_clients h,
                h_clients := {},
                h_drainEvents := Some [],
                h_drainCap := length clients,
                h_drainPending := set clients\<rparr>;
          h = stopBroker h
      in (clients, h))"

text \<open>What \<open>drain\<close> returns.\<close>

definition drain_result :: "nat \<Rightarrow> ctx_error option \<Rightarrow> ctx_error option \<Rightarrow> ctx_error option" where
  "drain_result forcedCloses ctxErr leaveErr = (if forcedCloses > 0 then ctxErr else leaveErr)"

text \<open>
  The waiting loop as a function of the signals it receives in order, with the number of
  clients left and the number of forced closes; \<open>None\<close> while it still waits.
\<close>

datatype drain_signal = Finished nat | Deadline

fun drain_wait :: "nat set \<Rightarrow> nat \<Rightarrow> drain_signal list \<Rightarrow> (nat \<times> nat) option" where
  "drain_wait pending 0 signals = Some (0, 0)"
| "drain_wait pending (Suc n) [] = None"
| "drain_wait pending (Suc n) (Finished c # signals) =
     (if c \<notin> pending then drain_wait pending (Suc n) signals
      else drain_wait (pending - {c}) n signals)"
| "drain_wait pending (Suc n) (Deadline # signals) = Some (Suc n, Suc n)"

end
