(* ===== verification/HubSteps.thy ===== *)
theory HubSteps
  imports Hub
begin

text \<open>
  The hub and its clients as one state machine: the step relation \<open>hub_step\<close>, with a rule for
  every point at which a goroutine of \<open>hub.go\<close>, \<open>client.go\<close> and \<open>serveWs\<close> makes progress,
  and the invariant of its reachable states. The storage backend may change under the hub at any
  time, within its own invariant; sockets fail, frames arrive and remote events are delivered as
  the environment chooses.
\<close>

section \<open>Steps\<close>

definition fresh_client :: "'l Client \<Rightarrow> bool" where
  "fresh_client client \<longleftrightarrow> canonical_room (c_Room client) \<and> c_send client = [] \<and> \<not> c_done client \<and>
     c_Conn client = Some \<lparr>conn_sent = [], conn_closed = False\<rparr>"

definition history_push :: "nat \<Rightarrow> Message \<Rightarrow> Message list \<Rightarrow> 'l Client \<Rightarrow> ('l, 's) Hub \<Rightarrow> ('l, 's) Hub" where
  "history_push c m ms client h =
     (let (ok, client') = Client_enqueue m client; h = upd_client c (\<lambda>_. client') h
      in h\<lparr>h_history := (h_history h)(c := (if ok then Some (Pushing ms) else None))\<rparr>)"

inductive hub_step :: "'s Repository \<Rightarrow> 'l rate_lib \<Rightarrow> ('s \<Rightarrow> bool) \<Rightarrow> ('l, 's) Hub \<Rightarrow> ('l, 's) Hub \<Rightarrow> bool"
  for R :: "'s Repository" and X :: "'l rate_lib" and invar :: "'s \<Rightarrow> bool" where
  Storage: "invar s' \<Longrightarrow> hub_step R X invar h (h\<lparr>h_database := s'\<rparr>)"
| StartBroker: "h_brokerPublish h = None \<Longrightarrow> hub_step R X invar h (startBroker h)"
| Upgrade: "hub_step R X invar h (ws_upgrade label h)"
| Refused: "h_heap h c = None \<Longrightarrow> fresh_client client \<Longrightarrow>
    register_locked c (h\<lparr>h_heap := (h_heap h)(c \<mapsto> client)\<rparr>) = (False, h') \<Longrightarrow>
    hub_step R X invar h (set_phase c Ended (upd_client c (Client_closeForShutdown ok) h'))"
| Registered: "h_heap h c = None \<Longrightarrow> fresh_client client \<Longrightarrow>
    register_locked c (h\<lparr>h_heap := (h_heap h)(c \<mapsto> client)\<rparr>) = (True, h') \<Longrightarrow>
    hub_step R X invar h (set_phase c Joining (h'\<lparr>h_history := (h_history h')(c \<mapsto> Fetching)\<rparr>))"
| JoinSaved: "h_phase h c = Some Joining \<Longrightarrow> h_heap h c = Some client \<Longrightarrow>
    save_notification R (join_notification client) h = (m, h') \<Longrightarrow>
    hub_step R X invar h (set_phase c (JoinPublish m) h')"
| JoinPublished: "h_phase h c = Some (JoinPublish m) \<Longrightarrow> publishContext pick e m h = Some (b, h') \<Longrightarrow>
    hub_step R X invar h (set_phase c Joined h')"
| Connected: "h_phase h c = Some Joined \<Longrightarrow>
    hub_step R X invar h (set_phase c Reading (count (ConnectedClients_update (\<lambda>n. n + 1)) h))"
| HistoryFetched: "h_history h c = Some Fetching \<Longrightarrow> h_heap h c = Some client \<Longrightarrow>
    hub_step R X invar h
      (h\<lparr>h_history := (h_history h)(c \<mapsto> Pushing (history_messages R (h_database h) client))\<rparr>)"
| HistoryPushed: "h_history h c = Some (Pushing (m # ms)) \<Longrightarrow> h_heap h c = Some client \<Longrightarrow>
    hub_step R X invar h (history_push c m ms client h)"
| ReadFrame: "h_phase h c = Some Reading \<Longrightarrow> h_heap h c = Some client \<Longrightarrow>
    readMessages_body R X now c client msg h = (ReadNext, h') \<Longrightarrow> hub_step R X invar h h'"
| ReadMessage: "h_phase h c = Some Reading \<Longrightarrow> h_heap h c = Some client \<Longrightarrow>
    readMessages_body R X now c client msg h = (ReadPublishes m, h') \<Longrightarrow>
    hub_step R X invar h (set_phase c (ReadPublish m) h')"
| ReadPublished: "h_phase h c = Some (ReadPublish m) \<Longrightarrow> publishContext pick e m h = Some (b, h') \<Longrightarrow>
    hub_step R X invar h (set_phase c (if b then Reading else Leaving) h')"
| ReadEnds: "h_phase h c = Some Reading \<Longrightarrow> hub_step R X invar h (set_phase c Leaving h)"
| Disconnected: "h_phase h c = Some Leaving \<Longrightarrow>
    hub_step R X invar h (set_phase c Unregistering (count (ConnectedClients_update (\<lambda>n. n - 1)) h))"
| Unregister: "h_phase h c = Some Unregistering \<Longrightarrow> h_runStarted h \<Longrightarrow> \<not> h_runDone h \<Longrightarrow> h_received h = None \<Longrightarrow>
    hub_step R X invar h (set_phase c Unregistered (h\<lparr>h_received := Some c\<rparr>))"
| UnregisterStopped: "h_phase h c = Some Unregistering \<Longrightarrow> h_done h \<Longrightarrow>
    hub_step R X invar h (set_phase c Unregistered h)"
| Finish: "h_phase h c = Some Unregistered \<Longrightarrow> notifyClientFinished c h = Some h' \<Longrightarrow>
    hub_step R X invar h (set_phase c Ended (upd_client c Client_close h'))"
| RunStart: "\<not> h_runStarted h \<Longrightarrow> hub_step R X invar h (h\<lparr>h_runStarted := True\<rparr>)"
| RunDisconnect: "h_received h = Some c \<Longrightarrow>
    hub_step R X invar h (disconnectClientLocked c (h\<lparr>h_received := None\<rparr>))"
| RunBroadcast: "h_received h = None \<Longrightarrow> h_runStarted h \<and> \<not> h_runDone h \<Longrightarrow> distinct order \<Longrightarrow> set order = h_clients h \<Longrightarrow>
    run_broadcast order h = Some h' \<Longrightarrow> hub_step R X invar h h'"
| RunStop: "h_runStarted h \<Longrightarrow> h_done h \<Longrightarrow> h_received h = None \<Longrightarrow> hub_step R X invar h (h\<lparr>h_runDone := True\<rparr>)"
| Write: "h_heap h c = Some client \<Longrightarrow> Client_writeMessages ok client = (out, client') \<Longrightarrow>
    hub_step R X invar h
      (upd_client c (\<lambda>_. client') (if out = WriteFails then outbound_drop ''write_error'' h else h))"
| Heartbeat: "h_heap h c = Some client \<Longrightarrow> hub_step R X invar h (upd_client c (\<lambda>c. snd (Client_startHeartbeat ok c)) h)"
| Remote: "envelope_ok event \<Longrightarrow> hub_step R X invar h (handleRemoteEvent pick event h)"
| BrokerSent: "h_brokerPublish h = Some (event # q) \<Longrightarrow>
    hub_step R X invar h (h\<lparr>h_brokerPublish := Some q\<rparr>)"
| BrokerReturns: "brokerDone h = Some h' \<Longrightarrow> hub_step R X invar h h'"
| LeaveSaved: "h_leavePending h = None \<Longrightarrow> h_leaveStarted h \<Longrightarrow> \<not> h_leaveDone h \<Longrightarrow> leave_take R h = Some h' \<Longrightarrow> hub_step R X invar h h'"
| LeavePublished: "h_leavePending h = Some m \<Longrightarrow> publishContext pick e m h = Some (b, h') \<Longrightarrow>
    hub_step R X invar h (h'\<lparr>h_leavePending := None\<rparr>)"
| LeaveReturns: "h_leaveStarted h \<Longrightarrow> leave_returns h \<Longrightarrow> hub_step R X invar h (h\<lparr>h_leaveDone := True\<rparr>)"
| DrainContext: "h_drain h \<noteq> DrainIdle \<Longrightarrow> h_drainCtxErr h = None \<Longrightarrow>
    hub_step R X invar h (h\<lparr>h_drainCtxErr := Some err\<rparr>)"
| DrainBegin: "h_drain h = DrainIdle \<Longrightarrow> distinct order \<Longrightarrow> set order = h_clients h \<Longrightarrow>
    drain_begin order h = (cs, h') \<Longrightarrow> hub_step R X invar h (h'\<lparr>h_drain := DrainBroker cs\<rparr>)"
| DrainBrokerStopped: "h_drain h = DrainBroker cs \<Longrightarrow> stopBroker_returns h \<Longrightarrow>
    hub_step R X invar h
      (count (WSDrainClientsRemaining_update (\<lambda>_. length cs)) (h\<lparr>h_drain := DrainClosing cs cs\<rparr>))"
| DrainClose: "h_drain h = DrainClosing cs cs0 \<Longrightarrow> c \<in> set cs \<Longrightarrow>
    hub_step R X invar h
      (upd_client c (Client_closeForShutdown ok) (h\<lparr>h_drain := DrainClosing (remove1 c cs) cs0\<rparr>))"
| DrainClosed: "h_drain h = DrainClosing [] cs0 \<Longrightarrow>
    hub_step R X invar h (h\<lparr>h_drain := DrainWaiting (set cs0) (length cs0)\<rparr>)"
| DrainEvent: "h_drain h = DrainWaiting P (Suc n) \<Longrightarrow> h_drainEvents h = Some (c # es) \<Longrightarrow>
    hub_step R X invar h
      (h\<lparr>h_drainEvents := Some es,
         h_drain := (if c \<notin> P then DrainWaiting P (Suc n) else DrainWaiting (P - {c}) n)\<rparr>)"
| DrainDeadline: "h_drain h = DrainWaiting P (Suc n) \<Longrightarrow> h_drainCtxErr h = Some err \<Longrightarrow>
    hub_step R X invar h
      (count (WSDrainForcedCloses_update (\<lambda>k. k + Suc n)) (h\<lparr>h_drain := DrainLeft (Suc n) (Suc n)\<rparr>))"
| DrainDone: "h_drain h = DrainWaiting P 0 \<Longrightarrow> hub_step R X invar h (h\<lparr>h_drain := DrainLeft 0 0\<rparr>)"
| Stop: "h_drain h = DrainLeft remaining forced \<Longrightarrow>
    hub_step R X invar h (stop (h\<lparr>h_drain := DrainLeaves remaining forced\<rparr>))"
| StopLeaves: "h_drain h = DrainLeaves remaining forced \<Longrightarrow> stopLeave_begin h = (waits, h') \<Longrightarrow>
    hub_step R X invar h
      (h'\<lparr>h_drain := (if waits then DrainLeaveWait remaining forced else DrainRunWait remaining forced None)\<rparr>)"
| LeavesStopped: "h_drain h = DrainLeaveWait remaining forced \<Longrightarrow> h_leaveDone h \<or> h_drainCtxErr h \<noteq> None \<Longrightarrow>
    stopLeave_end h = (err, h') \<Longrightarrow> hub_step R X invar h (h'\<lparr>h_drain := DrainRunWait remaining forced err\<rparr>)"
| DrainReturns: "h_drain h = DrainRunWait remaining forced err \<Longrightarrow> (h_runStarted h \<longrightarrow> h_runDone h) \<Longrightarrow>
    hub_step R X invar h (h\<lparr>h_drain := DrainReturned (drain_result forced (h_drainCtxErr h) err)\<rparr>)"

inductive hub_reachable ::
  "'s Repository \<Rightarrow> 'l rate_lib \<Rightarrow> ('s \<Rightarrow> bool) \<Rightarrow> ('l, 's) Hub \<Rightarrow> bool"
  for R :: "'s Repository" and X :: "'l rate_lib" and invar :: "'s \<Rightarrow> bool" where
  Init: "invar s \<Longrightarrow> hub_reachable R X invar (newHub s fanout)"
| Step: "hub_reachable R X invar h \<Longrightarrow> hub_step R X invar h h' \<Longrightarrow> hub_reachable R X invar h'"

lemma reachable_run: "(hub_step R X invar)\<^sup>*\<^sup>* h h' \<Longrightarrow> hub_reachable R X invar h \<Longrightarrow> hub_reachable R X invar h'"
  by (induction rule: rtranclp_induct) (auto intro: Step)

section \<open>Updates by field\<close>

text \<open>Each small operation changes the fields named on its right-hand side and no other.\<close>

lemma drop_forms:
  "redis_drop l h = h\<lparr>h_metrics := RedisDrops_update (inc l) (h_metrics h)\<rparr>"
  "outbound_drop l h = h\<lparr>h_metrics := WSOutboundDrops_update (inc l) (h_metrics h)\<rparr>"
  "reject l h = h\<lparr>h_metrics := MessagesRejected_update (inc l) (h_metrics h)\<rparr>"
  "ws_upgrade l h = h\<lparr>h_metrics := WSUpgrades_update (inc l) (h_metrics h)\<rparr>"
  by (simp_all add: redis_drop_def outbound_drop_def reject_def ws_upgrade_def count_def)

lemmas small_forms = drop_forms count_def upd_client_def set_phase_def stop_def auditRejectedMessage_def

definition msgs_ok :: "nat \<Rightarrow> Message list \<Rightarrow> bool" where
  "msgs_ok n ms \<longleftrightarrow> length ms \<le> n \<and> (\<forall>m \<in> set ms. canonical_room (m_Room m))"

definition broker_ok :: "string \<Rightarrow> Envelope list option \<Rightarrow> bool" where
  "broker_ok inst bq \<longleftrightarrow> (\<forall>q. bq = Some q \<longrightarrow> length q \<le> brokerQueueSize \<and>
     list_all (\<lambda>e. envelope_ok e \<and> env_OriginInstance e = inst) q)"

definition seen_ok :: "string list \<Rightarrow> string set \<Rightarrow> bool" where
  "seen_ok ids seen \<longleftrightarrow> distinct ids \<and> set ids = seen \<and> length ids \<le> maxSeenBrokerEvents"

lemma queueBrokerMessage_form:
  assumes "broker_ok (h_instanceID h) (h_brokerPublish h)"
  shows "\<exists>bq ms. queueBrokerMessage e m h = h\<lparr>h_brokerPublish := bq, h_metrics := ms\<rparr> \<and> broker_ok (h_instanceID h) bq"
proof -
  define P where "P h' \<longleftrightarrow> (\<exists>bq ms. h' = h\<lparr>h_brokerPublish := bq, h_metrics := ms\<rparr> \<and> broker_ok (h_instanceID h) bq)" for h'
  have same: "P h"
    unfolding P_def by (rule exI [of _ "h_brokerPublish h"], rule exI [of _ "h_metrics h"]) (simp add: assms)
  have drop: "P (redis_drop l h)" for l
    unfolding P_def drop_forms by (rule exI [of _ "h_brokerPublish h"], rule exI) (simp add: assms)
  have add: "P (h\<lparr>h_brokerPublish := Some (q @ [ev])\<rparr>)"
    if "h_brokerPublish h = Some q" "length q < brokerQueueSize" "envelope_ok ev" "env_OriginInstance ev = h_instanceID h" for q ev
    unfolding P_def
    using assms that by (intro exI [of _ "Some (q @ [ev])"] exI [of _ "h_metrics h"]) (simp add: broker_ok_def)
  have "P (queueBrokerMessage e m h)"
    unfolding queueBrokerMessage_def
    by (auto simp: same drop split: option.split sum.split dest!: New_ok intro!: add)
  then show ?thesis by (simp only: P_def)
qed

lemma publishContext_form:
  assumes "publishContext pick e m h = Some (b, h')" "broker_ok (h_instanceID h) (h_brokerPublish h)"
    "msgs_ok broadcastQueueSize (h_broadcast h)" "canonical_room (m_Room m)"
  obtains br bq ms where "h' = h\<lparr>h_broadcast := br, h_brokerPublish := bq, h_metrics := ms\<rparr>"
    "broker_ok (h_instanceID h) bq" "msgs_ok broadcastQueueSize br"
proof (cases "length (h_broadcast h) < broadcastQueueSize \<and> (\<not> h_done h \<or> pick)")
  case False
  then have "h' = h" using assms(1) by (auto simp: publishContext_def split: if_splits)
  then show thesis using that [where br = "h_broadcast h" and bq = "h_brokerPublish h" and ms = "h_metrics h"] assms by simp
next
  case True
  let ?h = "h\<lparr>h_broadcast := h_broadcast h @ [m]\<rparr>"
  have p: "length (h_broadcast h) < broadcastQueueSize" "h' = queueBrokerMessage e m ?h"
    using assms(1) True by (auto simp: publishContext_def)
  obtain bq ms where "queueBrokerMessage e m ?h = ?h\<lparr>h_brokerPublish := bq, h_metrics := ms\<rparr>" "broker_ok (h_instanceID h) bq"
    using queueBrokerMessage_form [of ?h e m] assms(2) by auto
  moreover have "msgs_ok broadcastQueueSize (h_broadcast h @ [m])" using assms(3,4) p(1) by (simp add: msgs_ok_def)
  ultimately show thesis
    using that [where br = "h_broadcast h @ [m]" and bq = bq and ms = ms] p(2) by simp
qed

lemma stamp_saved_room [simp]: "m_Room (stamp_saved s m) = m_Room m"
  by (simp add: stamp_saved_def split: sum.splits)

lemma save_notification_form:
  assumes "save_notification R m h = (m', h')"
  obtains r s where "h' = h\<lparr>h_database := s\<rparr>" "m' = stamp_saved r m"
    "SaveMessageForUserInRoomContext R (h_database h) (m_Room m) [] (m_Username m) (m_Content m) (m_Type m) = (r, s)"
proof -
  obtain r s where s: "SaveMessageForUserInRoomContext R (h_database h) (m_Room m) [] (m_Username m) (m_Content m)
      (m_Type m) = (r, s)" by (metis prod.exhaust)
  have "save_notification R m h = (stamp_saved r m, h\<lparr>h_database := s\<rparr>)"
    unfolding save_notification_def saveMessageObservedInRoomContext_def saveMessageObservedForUserInRoomContext_def s
    by simp
  then have "h' = h\<lparr>h_database := s\<rparr>" "m' = stamp_saved r m" using assms by simp_all
  then show thesis using s by (rule that)
qed

lemma queueLeaveNotification_form:
  assumes "msgs_ok leaveNotificationQueueSize (h_leaveQueue h)" "canonical_room (m_Room m)"
  shows "\<exists>lq ms. queueLeaveNotification m h = h\<lparr>h_leaveStarted := True, h_leaveQueue := lq, h_metrics := ms\<rparr> \<and>
    msgs_ok leaveNotificationQueueSize lq"
proof (cases "length (h_leaveQueue h) < leaveNotificationQueueSize")
  case True
  then show ?thesis using assms
    by (intro exI [of _ "h_leaveQueue h @ [m]"] exI [of _ "h_metrics h"])
      (simp add: queueLeaveNotification_def msgs_ok_def)
next
  case False
  then show ?thesis using assms(1)
    by (intro exI [of _ "h_leaveQueue h"] exI [of _ "WSOutboundDrops_update (inc ''leave_backpressure'') (h_metrics h)"])
      (simp add: queueLeaveNotification_def drop_forms)
qed

lemma seen_ok_insert:
  assumes "seen_ok ids seen" "e \<notin> seen" "maxSeenBrokerEvents < length (ids @ [e])"
  shows "seen_ok (tl (ids @ [e])) (insert e seen - {hd (ids @ [e])})"
proof -
  obtain x xs where x: "ids @ [e] = x # xs" by (cases ids) auto
  have "distinct (ids @ [e])" "set (ids @ [e]) = insert e seen" "length (ids @ [e]) \<le> Suc maxSeenBrokerEvents"
    using assms by (auto simp: seen_ok_def)
  then show ?thesis unfolding x by (auto simp: seen_ok_def)
qed

lemma rememberBrokerEvent_form:
  assumes "seen_ok (h_seenEventIDs h) (h_seenEvents h)"
  shows "\<exists>b ids seen. rememberBrokerEvent e h = (b, h\<lparr>h_seenEvents := seen, h_seenEventIDs := ids\<rparr>) \<and> seen_ok ids seen"
proof -
  let ?ids = "h_seenEventIDs h @ [e]" and ?seen = "insert e (h_seenEvents h)"
  consider "e \<in> h_seenEvents h" | "e \<notin> h_seenEvents h" "maxSeenBrokerEvents < length ?ids"
    | "e \<notin> h_seenEvents h" "\<not> maxSeenBrokerEvents < length ?ids" by blast
  then show ?thesis
  proof cases
    case 1
    then show ?thesis using assms
      by (intro exI [of _ False] exI [of _ "h_seenEventIDs h"] exI [of _ "h_seenEvents h"]) (simp add: rememberBrokerEvent_def)
  next
    case 2
    then show ?thesis using seen_ok_insert [OF assms 2]
      by (intro exI [of _ True] exI [of _ "tl ?ids"] exI [of _ "?seen - {hd ?ids}"]) (simp add: rememberBrokerEvent_def)
  next
    case 3
    then have "seen_ok ?ids ?seen" using assms by (auto simp: seen_ok_def)
    then show ?thesis using 3
      by (intro exI [of _ True] exI [of _ ?ids] exI [of _ ?seen]) (simp add: rememberBrokerEvent_def)
  qed
qed

end
