(* ===== verification/HubInvariant.thy ===== *)
theory HubInvariant
  imports HubSteps
begin

text \<open>
  The invariant of the hub's reachable states. It is proved operation by operation, then for
  every rule of \<open>hub_step\<close>, inside the locale \<open>hub_storage\<close>: over any storage backend that
  keeps the writer contract.
\<close>

section \<open>The invariant\<close>

definition heap_ok :: "(nat \<rightharpoonup> 'l Client) \<Rightarrow> bool" where
  "heap_ok H \<longleftrightarrow> (\<forall>c C. H c = Some C \<longrightarrow> client_ok C)"

definition history_ok :: "(nat \<rightharpoonup> 'l Client) \<Rightarrow> (nat \<rightharpoonup> history_phase) \<Rightarrow> bool" where
  "history_ok H hist \<longleftrightarrow>
     (\<forall>c ms. hist c = Some (Pushing ms) \<longrightarrow> (\<exists>C. H c = Some C \<and> (\<forall>m \<in> set ms. m_Room m = c_Room C)))"

fun phase_ok :: "phase \<Rightarrow> bool" where
  "phase_ok (JoinPublish m) = canonical_room (m_Room m)"
| "phase_ok (ReadPublish m) = canonical_room (m_Room m)"
| "phase_ok _ = True"

fun drain_phase_ok :: "nat list \<Rightarrow> nat set \<Rightarrow> drain_phase \<Rightarrow> bool" where
  "drain_phase_ok es pending DrainIdle = False"
| "drain_phase_ok es pending (DrainBroker cs) = (set cs = set es \<union> pending \<and> distinct cs)"
| "drain_phase_ok es pending (DrainClosing cs cs0) =
     (set cs0 = set es \<union> pending \<and> distinct cs0 \<and> set cs \<subseteq> set cs0)"
| "drain_phase_ok es pending (DrainWaiting P n) = (P = set es \<union> pending \<and> n = card P)"
| "drain_phase_ok es pending (DrainLeft remaining forced) = (forced = remaining \<and> (forced = 0 \<longrightarrow> pending = {}))"
| "drain_phase_ok es pending (DrainLeaves remaining forced) = (forced = remaining \<and> (forced = 0 \<longrightarrow> pending = {}))"
| "drain_phase_ok es pending (DrainLeaveWait remaining forced) = (forced = remaining \<and> (forced = 0 \<longrightarrow> pending = {}))"
| "drain_phase_ok es pending (DrainRunWait remaining forced err) = (forced = remaining \<and> (forced = 0 \<longrightarrow> pending = {}))"
| "drain_phase_ok es pending (DrainReturned err) = (err = None \<longrightarrow> pending = {})"

text \<open>Sockets are only given up on once the context of the drain has ended.\<close>

fun drain_ctx_ok :: "ctx_error option \<Rightarrow> drain_phase \<Rightarrow> bool" where
  "drain_ctx_ok e (DrainLeft remaining forced) = (0 < forced \<longrightarrow> e \<noteq> None)"
| "drain_ctx_ok e (DrainLeaves remaining forced) = (0 < forced \<longrightarrow> e \<noteq> None)"
| "drain_ctx_ok e (DrainLeaveWait remaining forced) = (0 < forced \<longrightarrow> e \<noteq> None)"
| "drain_ctx_ok e (DrainRunWait remaining forced err) = (0 < forced \<longrightarrow> e \<noteq> None)"
| "drain_ctx_ok e _ = True"

lemma drain_ctx_ok_Some [simp]: "drain_ctx_ok (Some e) p"
  by (cases p) simp_all

text \<open>
  While draining, every client still waited for is either pending or has its event in the
  buffer, and the buffer has room for all that are pending.
\<close>

definition drain_ok :: "('l, 's) Hub \<Rightarrow> bool" where
  "drain_ok h \<longleftrightarrow>
     (if h_draining h then
        h_clients h = {} \<and>
        (\<exists>es. h_drainEvents h = Some es \<and> distinct es \<and> finite (h_drainPending h) \<and> set es \<inter> h_drainPending h = {} \<and>
           length es + card (h_drainPending h) \<le> h_drainCap h \<and> drain_phase_ok es (h_drainPending h) (h_drain h))
      else h_drain h = DrainIdle)"

lemma drain_ok_frame [simp, frame_simps]:
  "drain_ok (h\<lparr>h_heap := v0\<rparr>) = drain_ok h" "drain_ok (h\<lparr>h_broadcast := v1\<rparr>) = drain_ok h"
  "drain_ok (h\<lparr>h_done := v2\<rparr>) = drain_ok h" "drain_ok (h\<lparr>h_received := v3\<rparr>) = drain_ok h"
  "drain_ok (h\<lparr>h_runDone := v4\<rparr>) = drain_ok h" "drain_ok (h\<lparr>h_finished := v5\<rparr>) = drain_ok h"
  "drain_ok (h\<lparr>h_database := v6\<rparr>) = drain_ok h" "drain_ok (h\<lparr>h_brokerPublish := v7\<rparr>) = drain_ok h"
  "drain_ok (h\<lparr>h_brokerCancelled := v8\<rparr>) = drain_ok h" "drain_ok (h\<lparr>h_seenEvents := v9\<rparr>) = drain_ok h"
  "drain_ok (h\<lparr>h_seenEventIDs := v10\<rparr>) = drain_ok h" "drain_ok (h\<lparr>h_leaveQueue := v11\<rparr>) = drain_ok h"
  "drain_ok (h\<lparr>h_leaveStarted := v12\<rparr>) = drain_ok h" "drain_ok (h\<lparr>h_leavePending := v13\<rparr>) = drain_ok h"
  "drain_ok (h\<lparr>h_phase := v14\<rparr>) = drain_ok h" "drain_ok (h\<lparr>h_history := v15\<rparr>) = drain_ok h"
  "drain_ok (h\<lparr>h_metrics := v16\<rparr>) = drain_ok h" "drain_ok (h\<lparr>h_drainCtxErr := v17\<rparr>) = drain_ok h"
  "drain_ok (h\<lparr>h_leaveStop := v18\<rparr>) = drain_ok h" "drain_ok (h\<lparr>h_leaveCancelled := v19\<rparr>) = drain_ok h"
  "drain_ok (h\<lparr>h_leaveDone := v20\<rparr>) = drain_ok h" "drain_ok (h\<lparr>h_runStarted := v21\<rparr>) = drain_ok h"
  "drain_ok (h\<lparr>h_brokerWG := v22\<rparr>) = drain_ok h"
  by (simp_all add: drain_ok_def)

definition hub_inv :: "('s \<Rightarrow> bool) \<Rightarrow> ('l, 's) Hub \<Rightarrow> bool" where
  "hub_inv invar h \<longleftrightarrow> invar (h_database h) \<and> heap_ok (h_heap h) \<and> h_clients h \<subseteq> dom (h_heap h) \<and> finite (h_clients h) \<and>
     msgs_ok broadcastQueueSize (h_broadcast h) \<and> msgs_ok leaveNotificationQueueSize (h_leaveQueue h) \<and>
     (\<forall>m. h_leavePending h = Some m \<longrightarrow> canonical_room (m_Room m)) \<and>
     (\<forall>c p. h_phase h c = Some p \<longrightarrow> phase_ok p) \<and> history_ok (h_heap h) (h_history h) \<and>
     broker_ok (h_instanceID h) (h_brokerPublish h) \<and> seen_ok (h_seenEventIDs h) (h_seenEvents h) \<and> drain_ok h \<and>
     drain_ctx_ok (h_drainCtxErr h) (h_drain h)"

lemma hub_invD:
  assumes "hub_inv invar h"
  shows "invar (h_database h)" "heap_ok (h_heap h)" "h_clients h \<subseteq> dom (h_heap h)" "finite (h_clients h)"
    "msgs_ok broadcastQueueSize (h_broadcast h)" "msgs_ok leaveNotificationQueueSize (h_leaveQueue h)"
    "\<And>m. h_leavePending h = Some m \<Longrightarrow> canonical_room (m_Room m)" "\<And>c p. h_phase h c = Some p \<Longrightarrow> phase_ok p"
    "history_ok (h_heap h) (h_history h)" "broker_ok (h_instanceID h) (h_brokerPublish h)"
    "seen_ok (h_seenEventIDs h) (h_seenEvents h)" "drain_ok h" "drain_ctx_ok (h_drainCtxErr h) (h_drain h)"
  using assms by (simp_all add: hub_inv_def)

lemma hub_client_ok: "hub_inv invar h \<Longrightarrow> h_heap h c = Some C \<Longrightarrow> client_ok C"
  by (simp add: hub_inv_def heap_ok_def)

lemma client_ok_canonical: "client_ok C \<Longrightarrow> canonical_room (Client_room C) \<and> Client_room C = c_Room C"
  using client_ok_room by (fastforce simp: client_ok_def)

section \<open>Small operations\<close>

lemma hub_inv_metrics [simp]: "hub_inv invar (h\<lparr>h_metrics := ms\<rparr>) = hub_inv invar h"
  by (simp add: hub_inv_def)

lemma hub_inv_count [simp]:
  "hub_inv invar (count f h) = hub_inv invar h" "hub_inv invar (redis_drop l h) = hub_inv invar h"
  "hub_inv invar (outbound_drop l h) = hub_inv invar h" "hub_inv invar (reject l h) = hub_inv invar h"
  "hub_inv invar (ws_upgrade l h) = hub_inv invar h"
  by (simp_all add: count_def drop_forms)

lemma hub_inv_phase: "hub_inv invar h \<Longrightarrow> phase_ok p \<Longrightarrow> hub_inv invar (set_phase c p h)"
  by (simp add: hub_inv_def set_phase_def)

lemma hub_inv_flags [simp]:
  "hub_inv invar (h\<lparr>h_done := b\<rparr>) = hub_inv invar h" "hub_inv invar (h\<lparr>h_received := x\<rparr>) = hub_inv invar h"
  "hub_inv invar (h\<lparr>h_runDone := b\<rparr>) = hub_inv invar h" "hub_inv invar (h\<lparr>h_finished := S\<rparr>) = hub_inv invar h"
  "hub_inv invar (stop h) = hub_inv invar h" "hub_inv invar (h\<lparr>h_leaveStop := b\<rparr>) = hub_inv invar h"
  "hub_inv invar (h\<lparr>h_leaveCancelled := b\<rparr>) = hub_inv invar h" "hub_inv invar (h\<lparr>h_leaveDone := b\<rparr>) = hub_inv invar h"
  "hub_inv invar (h\<lparr>h_runStarted := b\<rparr>) = hub_inv invar h" "hub_inv invar (h\<lparr>h_brokerWG := k\<rparr>) = hub_inv invar h"
  by (simp_all add: hub_inv_def stop_def)

lemma heap_ok_upd: "heap_ok H \<Longrightarrow> (\<And>C. H c = Some C \<Longrightarrow> client_ok (f C)) \<Longrightarrow> heap_ok (H(c := map_option f (H c)))"
  by (auto simp: heap_ok_def)

lemma history_ok_upd:
  "history_ok H hist \<Longrightarrow> (\<And>C. H c = Some C \<Longrightarrow> c_Room (f C) = c_Room C) \<Longrightarrow>
     history_ok (H(c := map_option f (H c))) hist"
  unfolding history_ok_def by (metis fun_upd_apply option.simps(9))

lemma hub_inv_upd_client:
  assumes "hub_inv invar h" "\<And>C. h_heap h c = Some C \<Longrightarrow> client_ok (f C) \<and> c_Room (f C) = c_Room C"
  shows "hub_inv invar (upd_client c f h)"
proof -
  have "heap_ok ((h_heap h)(c := map_option f (h_heap h c)))"
    using hub_invD(2) [OF assms(1)] assms(2) by (intro heap_ok_upd) auto
  moreover have "history_ok ((h_heap h)(c := map_option f (h_heap h c))) (h_history h)"
    using hub_invD(9) [OF assms(1)] assms(2) by (intro history_ok_upd) auto
  moreover have "dom ((h_heap h)(c := map_option f (h_heap h c))) = dom (h_heap h)" by (auto simp: dom_def)
  ultimately show ?thesis using assms(1) by (simp add: hub_inv_def upd_client_def)
qed

text \<open>An update of the client alone that keeps every good client good.\<close>

lemma hub_inv_upd_ok:
  "hub_inv invar h \<Longrightarrow> (\<And>C. client_ok C \<Longrightarrow> client_ok (f C)) \<Longrightarrow> (\<And>C. c_Room (f C) = c_Room C) \<Longrightarrow>
     hub_inv invar (upd_client c f h)"
  by (rule hub_inv_upd_client) (auto dest: hub_client_ok)

lemma identity_room: "identity C = identity D \<Longrightarrow> c_Room C = c_Room D"
  by (simp add: identity_def)

lemma room_ops [simp]:
  "c_Room (snd (Client_enqueue m c)) = c_Room c" "c_Room (Client_close c) = c_Room c"
  "c_Room (Client_closeForShutdown ok c) = c_Room c" "c_Room (snd (Client_allowMessage X now c)) = c_Room c"
  "c_Room (Client_sendRateLimitNotice c) = c_Room c" "c_Room (snd (Client_writeMessages ok c)) = c_Room c"
  "c_Room (snd (Client_startHeartbeat ok c)) = c_Room c" "c_Room (Client_setUsername n c) = c_Room c"
  by (rule identity_room, simp)+ (simp add: Client_setUsername_def)

lemma hub_inv_publish:
  assumes "hub_inv invar h" "publishContext pick e m h = Some (b, h')" "canonical_room (m_Room m)"
  shows "hub_inv invar h'"
proof -
  obtain br bq ms where "h' = h\<lparr>h_broadcast := br, h_brokerPublish := bq, h_metrics := ms\<rparr>"
    "broker_ok (h_instanceID h) bq" "msgs_ok broadcastQueueSize br"
    by (rule publishContext_form [OF assms(2) hub_invD(10) [OF assms(1)] hub_invD(5) [OF assms(1)] assms(3)])
  then show ?thesis using assms(1) by (simp add: hub_inv_def)
qed

lemma hub_inv_queueLeave:
  assumes "hub_inv invar h" "canonical_room (m_Room m)"
  shows "hub_inv invar (queueLeaveNotification m h)"
proof -
  obtain lq ms where "queueLeaveNotification m h = h\<lparr>h_leaveStarted := True, h_leaveQueue := lq, h_metrics := ms\<rparr>"
    "msgs_ok leaveNotificationQueueSize lq"
    using queueLeaveNotification_form [OF hub_invD(6) [OF assms(1)] assms(2)] by blast
  then show ?thesis using assms(1) by (simp add: hub_inv_def)
qed

lemma hub_inv_disconnect:
  assumes "hub_inv invar h"
  shows "hub_inv invar (disconnectClientLocked c h)"
proof (cases "c \<in> h_clients h")
  case False
  then show ?thesis using assms by (simp add: disconnectClientLocked_def)
next
  case True
  then have nd: "\<not> h_draining h" using hub_invD(12) [OF assms] by (auto simp: drain_ok_def split: if_splits)
  let ?h1 = "h\<lparr>h_clients := h_clients h - {c}, h_finished := h_finished h - {c}\<rparr>"
  have "hub_inv invar ?h1" using assms nd by (auto simp: hub_inv_def drain_ok_def)
  then have h2: "hub_inv invar (upd_client c Client_close ?h1)"
    using hub_client_ok [OF assms] by (intro hub_inv_upd_client) (auto intro: client_ok_close)
  show ?thesis
  proof (cases "h_heap (upd_client c Client_close ?h1) c")
    case None
    then show ?thesis using True h2 by (simp add: disconnectClientLocked_def Let_def)
  next
    case (Some C)
    then have "canonical_room (Client_room C)" using h2 hub_client_ok client_ok_canonical by blast
    then show ?thesis
      using True h2 Some by (simp add: disconnectClientLocked_def Let_def hub_inv_queueLeave system_notification_def)
  qed
qed

lemma hub_inv_deliver:
  assumes "hub_inv invar h" "canonical_room (m_Room m)"
  shows "hub_inv invar (deliver m c h)"
proof (cases "h_heap h c")
  case None
  then show ?thesis using assms by (simp add: deliver_def)
next
  case (Some C)
  note C = hub_client_ok [OF assms(1) Some]
  show ?thesis
  proof (cases "Client_room C = m_Room m")
    case False
    then show ?thesis using assms Some canonical_ne by (auto simp: deliver_def)
  next
    case True
    let ?C = "snd (Client_enqueue m C)"
    have "client_ok ?C \<and> c_Room ?C = c_Room C"
      using C True client_ok_canonical [OF C] by (auto intro: client_ok_enqueue)
    then have h1: "hub_inv invar (upd_client c (\<lambda>_. ?C) h)"
      using assms(1) Some by (intro hub_inv_upd_client) auto
    show ?thesis
      using True Some h1 by (simp add: deliver_def case_prod_beta Let_def hub_inv_disconnect)
  qed
qed

lemma hub_inv_deliver_all:
  "hub_inv invar h \<Longrightarrow> canonical_room (m_Room m) \<Longrightarrow> hub_inv invar (fold (deliver m) order h)"
  by (induction order arbitrary: h) (simp_all add: hub_inv_deliver)

lemma hub_inv_run_broadcast:
  assumes "hub_inv invar h" "run_broadcast order h = Some h'"
  shows "hub_inv invar h'"
proof -
  obtain m rest where m: "h_broadcast h = m # rest" "h' = fold (deliver m) order (h\<lparr>h_broadcast := rest\<rparr>)"
    using assms(2) by (auto simp: run_broadcast_def split: list.splits)
  have "canonical_room (m_Room m)" "hub_inv invar (h\<lparr>h_broadcast := rest\<rparr>)"
    using assms(1) m(1) by (auto simp: hub_inv_def msgs_ok_def)
  then show ?thesis using m(2) hub_inv_deliver_all by blast
qed

lemma notifyClientFinished_total:
  assumes "drain_ok h"
  shows "\<exists>h'. notifyClientFinished c h = Some h'"
proof (cases "h_draining h \<and> c \<in> h_drainPending h")
  case True
  then obtain es where es: "h_drainEvents h = Some es" "finite (h_drainPending h)"
      "length es + card (h_drainPending h) \<le> h_drainCap h"
    using assms by (auto simp: drain_ok_def)
  moreover have "0 < card (h_drainPending h)" using True es(2) card_gt_0_iff by blast
  ultimately have "length es < h_drainCap h" by simp
  then show ?thesis using True es(1) by (simp add: notifyClientFinished_def Let_def count_def)
qed (auto simp: notifyClientFinished_def Let_def split: option.splits)

lemma drain_phase_ok_move:
  "drain_phase_ok es pending d \<Longrightarrow> c \<in> pending \<Longrightarrow> drain_phase_ok (es @ [c]) (pending - {c}) d"
  by (cases d) (auto simp: insert_absorb)

lemma hub_inv_finished:
  assumes "hub_inv invar h" "notifyClientFinished c h = Some h'"
  shows "hub_inv invar h'"
proof (cases "h_draining h \<and> c \<in> h_drainPending h")
  case False
  then have "h' = h\<lparr>h_finished := insert c (h_finished h)\<rparr>"
    using assms(2) by (auto simp: notifyClientFinished_def Let_def split: option.splits if_splits)
  then show ?thesis using assms(1) by simp
next
  case True
  then obtain es where es: "h_drainEvents h = Some es" "h_clients h = {}" "distinct es" "finite (h_drainPending h)"
      "set es \<inter> h_drainPending h = {}" "length es + card (h_drainPending h) \<le> h_drainCap h"
      "drain_phase_ok es (h_drainPending h) (h_drain h)"
    using hub_invD(12) [OF assms(1)] by (auto simp: drain_ok_def)
  let ?p = "h_drainPending h - {c}"
  obtain ms where h': "h' = h\<lparr>h_finished := insert c (h_finished h), h_drainPending := ?p, h_metrics := ms,
      h_drainEvents := Some (es @ [c])\<rparr>"
    using assms(2) True es(1) by (auto simp: notifyClientFinished_def Let_def count_def split: if_splits)
  have "card ?p < card (h_drainPending h)" using True es(4) by (meson card_Diff1_less)
  then have "length (es @ [c]) + card ?p \<le> h_drainCap h" using es(6) by simp
  then have "drain_ok h'"
    using True es drain_phase_ok_move [OF es(7), of c] by (auto simp: drain_ok_def h')
  then show ?thesis using assms(1) by (simp add: hub_inv_def h')
qed

lemma hub_inv_remote:
  assumes "hub_inv invar h" "envelope_ok event"
  shows "hub_inv invar (handleRemoteEvent pick event h)"
proof -
  obtain b ids seen where r: "rememberBrokerEvent (env_EventID event) h = (b, h\<lparr>h_seenEvents := seen, h_seenEventIDs := ids\<rparr>)"
      "seen_ok ids seen"
    using rememberBrokerEvent_form [OF hub_invD(11) [OF assms(1)]] by blast
  let ?h = "h\<lparr>h_seenEvents := seen, h_seenEventIDs := ids\<rparr>"
  have h1: "hub_inv invar ?h" using assms(1) r(2) by (simp add: hub_inv_def)
  have "canonical_room (m_Room (message_of_event event))"
    using assms(2) by (simp add: message_of_event_def envelope_ok_def)
  then have "length (h_broadcast h) < broadcastQueueSize \<Longrightarrow>
      hub_inv invar (?h\<lparr>h_broadcast := h_broadcast h @ [message_of_event event]\<rparr>)"
    using h1 by (simp add: hub_inv_def msgs_ok_def)
  then show ?thesis using assms(1) h1 by (simp add: handleRemoteEvent_def r(1) Let_def)
qed

lemma hub_inv_drain_begin:
  assumes "hub_inv invar h" "h_drain h = DrainIdle" "distinct order" "set order = h_clients h"
    and "drain_begin order h = (cs, h')"
  shows "hub_inv invar (h'\<lparr>h_drain := DrainBroker cs\<rparr>)"
proof -
  have "distinct cs" using assms(3,5) by (auto simp: drain_begin_def Let_def)
  moreover have "h' = h\<lparr>h_draining := True, h_finished := h_finished h - h_clients h, h_clients := {},
      h_drainEvents := Some [], h_drainCap := length cs, h_drainPending := set cs,
      h_brokerCancelled := (h_brokerPublish h \<noteq> None \<or> h_brokerCancelled h),
      h_metrics := WSDrainStarted_update Suc (h_metrics h)\<rparr>"
    using assms(5) by (auto simp: drain_begin_def Let_def count_def)
  ultimately show ?thesis
    using assms(1) by (auto simp: hub_inv_def drain_ok_def distinct_card)
qed

lemma hub_inv_drain_wait:
  assumes "hub_inv invar h" "h_drain h = DrainWaiting P n" "h_drainEvents h = Some (c # es)"
  shows "c \<in> P \<and> hub_inv invar (h\<lparr>h_drainEvents := Some es, h_drain := DrainWaiting (P - {c}) (n - 1)\<rparr>)"
proof -
  have d: "h_draining h" "h_clients h = {}" "distinct (c # es)" "finite (h_drainPending h)"
      "set (c # es) \<inter> h_drainPending h = {}" "length (c # es) + card (h_drainPending h) \<le> h_drainCap h"
      "P = set (c # es) \<union> h_drainPending h" "n = card P"
    using hub_invD(12) [OF assms(1)] assms(2,3) by (auto simp: drain_ok_def split: if_splits)
  have "P - {c} = set es \<union> h_drainPending h" using d(3,5,7) by auto
  moreover have "n - 1 = card (P - {c})" using d(4,7,8) card_Diff_singleton [of c P] by simp
  ultimately show ?thesis using assms(1) d by (auto simp: hub_inv_def drain_ok_def)
qed

section \<open>The read loop\<close>

text \<open>Every way one frame can be handled, with what it leaves behind.\<close>

lemma readMessages_body_cases:
  assumes "readMessages_body R X now c client msg h = (out, h')"
  obtains (identity_override) "m_Type msg = ''username''" "c_Authenticated client" "out = ReadNext"
      "h' = auditRejectedMessage R client ''identity_override'' (m_Content msg) (reject ''identity_override'' h)"
  | (invalid_username) "m_Type msg = ''username''" "\<not> c_Authenticated client" "out = ReadNext"
      "\<not> validUsername (TrimSpace (m_Content msg))"
      "h' = auditRejectedMessage R client ''invalid_username'' (m_Content msg) (reject ''invalid_username'' h)"
  | (renamed) "m_Type msg = ''username''" "\<not> c_Authenticated client" "out = ReadNext"
      "validUsername (TrimSpace (m_Content msg))" "h' = upd_client c (Client_setUsername (TrimSpace (m_Content msg))) h"
  | (invalid_body) "m_Type msg \<noteq> ''username''" "\<not> validMessageBody (TrimSpace (m_Content msg))" "out = ReadNext"
      "h' = auditRejectedMessage R client ''invalid_body'' (m_Content msg) (reject ''invalid_body'' h)"
  | (rate_limited) client' where "m_Type msg \<noteq> ''username''" "validMessageBody (TrimSpace (m_Content msg))"
      "Client_allowMessage X now client = (False, client')" "out = ReadNext"
      "h' = upd_client c Client_sendRateLimitNotice (auditRejectedMessage R client ''rate_limited''
              (TrimSpace (m_Content msg)) (reject ''rate_limited'' (upd_client c (\<lambda>_. client') h)))"
  | (accepted) client' saved s where "m_Type msg \<noteq> ''username''" "validMessageBody (TrimSpace (m_Content msg))"
      "Client_allowMessage X now client = (True, client')"
      "SaveMessageForUserInRoomContext R (h_database h) (Client_room client) (c_UserID client) (Client_username client)
         (TrimSpace (m_Content msg)) ''message'' = (saved, s)"
      "out = ReadPublishes (stamp_saved saved (msg\<lparr>m_Type := ''message'', m_Content := TrimSpace (m_Content msg),
         m_UserID := c_UserID client, m_Username := Client_username client, m_Room := Client_room client\<rparr>))"
      "h' = count (MessagesIngested_update Suc) ((upd_client c (\<lambda>_. client') h)\<lparr>h_database := s\<rparr>)"
proof (cases "m_Type msg = ''username''")
  case True
  then show thesis
    using assms identity_override invalid_username renamed
    by (cases "c_Authenticated client"; cases "validUsername (TrimSpace (m_Content msg))")
      (simp_all add: readMessages_body_def Let_def)
next
  case False
  let ?body = "TrimSpace (m_Content msg)"
  have ty: "(if m_Type msg \<noteq> ''message'' then msg\<lparr>m_Type := ''message''\<rparr> else msg) = msg\<lparr>m_Type := ''message''\<rparr>" by simp
  show thesis
  proof (cases "validMessageBody ?body")
    case False
    then show thesis using assms \<open>m_Type msg \<noteq> ''username''\<close> invalid_body
      by (simp add: readMessages_body_def Let_def split: if_splits)
  next
    case body: True
    obtain ok client' where al: "Client_allowMessage X now client = (ok, client')" by fastforce
    show thesis
    proof (cases ok)
      case False
      then show thesis using assms \<open>m_Type msg \<noteq> ''username''\<close> body al rate_limited
        by (simp add: readMessages_body_def Let_def split: if_splits)
    next
      case True
      obtain saved s where s: "SaveMessageForUserInRoomContext R (h_database h) (Client_room client) (c_UserID client)
          (Client_username client) ?body ''message'' = (saved, s)" by fastforce
      then have "(ReadPublishes (stamp_saved saved (msg\<lparr>m_Type := ''message'', m_Content := ?body,
         m_UserID := c_UserID client, m_Username := Client_username client, m_Room := Client_room client\<rparr>)),
         count (MessagesIngested_update Suc) ((upd_client c (\<lambda>_. client') h)\<lparr>h_database := s\<rparr>)) = (out, h')"
        using assms \<open>m_Type msg \<noteq> ''username''\<close> body al True
        unfolding readMessages_body_def ty
        by (simp add: Let_def saveMessageObservedForUserInRoomContext_def upd_client_def)
      moreover have "Client_allowMessage X now client = (True, client')" using al True by simp
      ultimately show thesis using accepted [OF \<open>m_Type msg \<noteq> ''username''\<close> body _ s] by simp
    qed
  qed
qed

section \<open>Operations that use storage\<close>

text \<open>The hub over any backend that keeps the writer contract.\<close>

locale hub_storage = history_writer R invar quiet history stamp
  for R :: "'s Repository" and invar quiet history stamp
begin

lemma hub_inv_database: "hub_inv invar h \<Longrightarrow> invar s \<Longrightarrow> hub_inv invar (h\<lparr>h_database := s\<rparr>)"
  by (simp add: hub_inv_def)

lemma hub_inv_save_notification:
  assumes "hub_inv invar h" "save_notification R m h = (m', h')"
  shows "hub_inv invar h' \<and> m_Room m' = m_Room m"
proof -
  obtain r s where f: "h' = h\<lparr>h_database := s\<rparr>" "m' = stamp_saved r m"
    "SaveMessageForUserInRoomContext R (h_database h) (m_Room m) [] (m_Username m) (m_Content m) (m_Type m) = (r, s)"
    using assms(2) by (rule save_notification_form)
  have "invar s" using save_invar [OF hub_invD(1) [OF assms(1)] f(3)] .
  then show ?thesis using f(1,2) hub_inv_database [OF assms(1)] by simp
qed

lemma hub_inv_audit: "hub_inv invar h \<Longrightarrow> hub_inv invar (auditRejectedMessage R client reason content h)"
proof -
  assume h: "hub_inv invar h"
  obtain ev s where s: "SaveModerationEventForUserContext R (h_database h) (c_ID client) (c_UserID client)
      (Client_username client) reason content = (ev, s)" by (metis prod.exhaust)
  then have "invar s" using audit_history [OF hub_invD(1) [OF h] s] by simp
  then show ?thesis using hub_inv_database [OF h] s by (simp add: auditRejectedMessage_def)
qed

lemma history_messages_room:
  assumes "invar s" "client_ok client"
  shows "\<forall>m \<in> set (history_messages R s client). m_Room m = c_Room client"
proof (cases "GetRecentMessagesInRoomContext R s (Client_room client) 50")
  case (Inl e)
  then show ?thesis by (simp add: history_messages_def)
next
  case (Inr ms)
  note c = client_ok_canonical [OF assms(2)]
  have "ms = lastn 50 (history s (c_Room client))"
    using recent_sound [OF assms(1), of "c_Room client" 50 ms] Inr c by auto
  then have "set ms \<subseteq> set (history s (c_Room client))" by (simp add: set_lastn)
  then have "db_Room x = c_Room client" if "x \<in> set ms" for x
    using that history_row [OF assms(1), of x "c_Room client"] by auto
  then show ?thesis
    using Inr c by (auto simp: history_messages_def message_of_row_def welcome_message_def system_notification_def)
qed

lemma hub_inv_leave_take:
  assumes "hub_inv invar h" "leave_take R h = Some h'"
  shows "hub_inv invar h'"
proof -
  obtain m rest where q: "h_leaveQueue h = m # rest" using assms(2) by (auto simp: leave_take_def split: list.splits)
  obtain m' h1 where s: "save_notification R m (h\<lparr>h_leaveQueue := rest\<rparr>) = (m', h1)" by (metis prod.exhaust)
  have h0: "hub_inv invar (h\<lparr>h_leaveQueue := rest\<rparr>)" "canonical_room (m_Room m)"
    using assms(1) q by (auto simp: hub_inv_def msgs_ok_def)
  have "hub_inv invar h1 \<and> m_Room m' = m_Room m" using h0(1) s by (rule hub_inv_save_notification)
  moreover have "h' = h1\<lparr>h_leavePending := Some m'\<rparr>" using assms(2) q s by (simp add: leave_take_def)
  ultimately show ?thesis using h0(2) by (simp add: hub_inv_def)
qed

lemma hub_inv_readMessages_body:
  assumes h: "hub_inv invar h" and c: "h_heap h c = Some client"
    and b: "readMessages_body R X now c client msg h = (out, h')"
  shows "hub_inv invar h' \<and> (\<forall>m. out = ReadPublishes m \<longrightarrow> m_Room m = Client_room client)"
proof -
  note C = hub_client_ok [OF h c]
  have allow: "hub_inv invar (upd_client c (\<lambda>_. client') h)"
    if "Client_allowMessage X now client = (ok, client')" for ok client'
    using that client_ok_allowMessage [OF C, of X now] room_ops(4) [of X now client] c
    by (intro hub_inv_upd_client [OF h]) auto
  from b show ?thesis
  proof (cases rule: readMessages_body_cases)
    case identity_override
    then show ?thesis using h by (simp add: hub_inv_audit)
  next
    case invalid_username
    then show ?thesis using h by (simp add: hub_inv_audit)
  next
    case renamed
    have "hub_inv invar (upd_client c (Client_setUsername (TrimSpace (m_Content msg))) h)"
      by (intro hub_inv_upd_ok [OF h] client_ok_setUsername room_ops)
    then show ?thesis using renamed by simp
  next
    case invalid_body
    then show ?thesis using h by (simp add: hub_inv_audit)
  next
    case (rate_limited client')
    let ?h = "auditRejectedMessage R client ''rate_limited'' (TrimSpace (m_Content msg))
                (reject ''rate_limited'' (upd_client c (\<lambda>_. client') h))"
    have "hub_inv invar ?h" using allow [OF rate_limited(3)] by (simp add: hub_inv_audit)
    then have "hub_inv invar (upd_client c Client_sendRateLimitNotice ?h)"
      by (intro hub_inv_upd_ok client_ok_notice room_ops)
    then show ?thesis using rate_limited(4,5) by simp
  next
    case (accepted client' saved s)
    have "invar s" using save_invar [OF hub_invD(1) [OF h] accepted(4)] .
    then show ?thesis using allow [OF accepted(3)] accepted(5,6) hub_inv_database by simp
  qed
qed

lemma hub_inv_history_push:
  assumes h: "hub_inv invar h" and p: "h_history h c = Some (Pushing (m # ms))" and c: "h_heap h c = Some client"
  shows "hub_inv invar (history_push c m ms client h)"
proof -
  have room: "\<forall>m' \<in> set (m # ms). m_Room m' = c_Room client"
    using hub_invD(9) [OF h] p c by (fastforce simp: history_ok_def)
  let ?C = "snd (Client_enqueue m client)"
  have "client_ok ?C" using client_ok_enqueue [OF hub_client_ok [OF h c]] room by simp
  then have u: "hub_inv invar (upd_client c (\<lambda>_. ?C) h)" using c by (intro hub_inv_upd_client [OF h]) auto
  let ?h = "upd_client c (\<lambda>_. ?C) h"
  have "h_heap ?h c = Some ?C" using c by (simp add: upd_client_def)
  then have "history_ok (h_heap ?h) ((h_history ?h)(c := x))" if "x = None \<or> x = Some (Pushing ms)" for x
    using hub_invD(9) [OF u] room that by (auto simp: history_ok_def)
  then have "hub_inv invar (?h\<lparr>h_history := (h_history ?h)(c := (if fst (Client_enqueue m client) then Some (Pushing ms) else None))\<rparr>)"
    using u by (simp add: hub_inv_def)
  then show ?thesis by (simp add: history_push_def case_prod_beta Let_def)
qed

lemma hub_inv_history_fetched:
  assumes h: "hub_inv invar h" and c: "h_heap h c = Some client"
  shows "hub_inv invar (h\<lparr>h_history := (h_history h)(c \<mapsto> Pushing (history_messages R (h_database h) client))\<rparr>)"
proof -
  have "\<forall>m \<in> set (history_messages R (h_database h) client). m_Room m = c_Room client"
    using history_messages_room [OF hub_invD(1) [OF h] hub_client_ok [OF h c]] .
  then show ?thesis using h c by (auto simp: hub_inv_def history_ok_def)
qed

lemma hub_inv_new_client:
  assumes h: "hub_inv invar h" and n: "h_heap h c = None" and f: "fresh_client client"
  shows "hub_inv invar (h\<lparr>h_heap := (h_heap h)(c \<mapsto> client)\<rparr>)"
proof -
  have "client_ok client" using f by (auto simp: fresh_client_def client_ok_def)
  then have "heap_ok ((h_heap h)(c \<mapsto> client))" using hub_invD(2) [OF h] by (simp add: heap_ok_def)
  moreover have "history_ok ((h_heap h)(c \<mapsto> client)) (h_history h)"
    using hub_invD(9) [OF h] n by (fastforce simp: history_ok_def)
  moreover have "h_clients h \<subseteq> dom ((h_heap h)(c \<mapsto> client))" using hub_invD(3) [OF h] by auto
  ultimately show ?thesis using h by (simp add: hub_inv_def)
qed

lemma hub_inv_registered:
  assumes h: "hub_inv invar h" and n: "h_heap h c = None" and f: "fresh_client client"
    and r: "register_locked c (h\<lparr>h_heap := (h_heap h)(c \<mapsto> client)\<rparr>) = (True, h')"
  shows "hub_inv invar (h'\<lparr>h_history := (h_history h')(c \<mapsto> Fetching)\<rparr>)"
proof -
  have h': "\<not> h_draining h" "h' = h\<lparr>h_heap := (h_heap h)(c \<mapsto> client), h_clients := insert c (h_clients h)\<rparr>"
    using r by (auto simp: register_locked_def split: if_splits)
  let ?h = "h\<lparr>h_heap := (h_heap h)(c \<mapsto> client)\<rparr>"
  have n: "hub_inv invar ?h" by (rule hub_inv_new_client [OF h n f])
  have "history_ok (h_heap ?h) ((h_history ?h)(c \<mapsto> Fetching))"
    using hub_invD(9) [OF n] unfolding history_ok_def by (simp, fastforce)
  then show ?thesis using n h' by (auto simp: hub_inv_def drain_ok_def)
qed

lemma hub_inv_drain_phase:
  assumes h: "hub_inv invar h" and d: "h_draining h"
    and p: "\<And>es. finite (h_drainPending h) \<Longrightarrow> drain_phase_ok es (h_drainPending h) (h_drain h) \<Longrightarrow>
          drain_phase_ok es (h_drainPending h) p"
    and e: "drain_ctx_ok (h_drainCtxErr h) p"
  shows "hub_inv invar (h\<lparr>h_drain := p\<rparr>)"
  using h d p e by (auto simp: hub_inv_def drain_ok_def)

lemma draining_iff: "hub_inv invar h \<Longrightarrow> h_drain h \<noteq> DrainIdle \<Longrightarrow> h_draining h"
  by (auto simp: hub_inv_def drain_ok_def split: if_splits)

text \<open>Every step keeps the invariant.\<close>

lemma hub_inv_step:
  assumes "hub_step R X invar h h'" "hub_inv invar h"
  shows "hub_inv invar h'"
  using assms
proof (induction rule: hub_step.induct)
  case (Storage s' h)
  then show ?case by (simp add: hub_inv_database)
next
  case (StartBroker h)
  then show ?case by (simp add: hub_inv_def startBroker_def broker_ok_def)
next
  case (Refused h c client h' ok)
  then have "h' = h\<lparr>h_heap := (h_heap h)(c \<mapsto> client)\<rparr>" by (simp add: register_locked_def split: if_splits)
  then have "hub_inv invar h'" using Refused hub_inv_new_client by simp
  then show ?case by (intro hub_inv_phase hub_inv_upd_ok client_ok_closeForShutdown room_ops) simp_all
next
  case (Registered h c client h')
  then show ?case by (intro hub_inv_phase hub_inv_registered) auto
next
  case (JoinSaved h c client m h')
  then have "hub_inv invar h' \<and> m_Room m = m_Room (join_notification client)" by (metis hub_inv_save_notification)
  moreover have "canonical_room (m_Room (join_notification client))"
    using JoinSaved hub_client_ok client_ok_canonical by (fastforce simp: join_notification_def system_notification_def)
  ultimately show ?case by (intro hub_inv_phase) auto
next
  case (JoinPublished h c m pick e b h')
  then have "hub_inv invar h'" using hub_inv_publish hub_invD(8) by fastforce
  then show ?case by (intro hub_inv_phase) auto
next
  case (HistoryFetched h c client)
  then show ?case by (intro hub_inv_history_fetched)
next
  case (HistoryPushed h c m ms client)
  then show ?case by (intro hub_inv_history_push)
next
  case (ReadFrame h c client now msg h')
  then show ?case using hub_inv_readMessages_body by blast
next
  case (ReadMessage h c client now msg m h')
  then have "hub_inv invar h' \<and> m_Room m = Client_room client" using hub_inv_readMessages_body by blast
  moreover have "canonical_room (Client_room client)" using ReadMessage hub_client_ok client_ok_canonical by blast
  ultimately show ?case by (intro hub_inv_phase) auto
next
  case (ReadPublished h c m pick e b h')
  then have "hub_inv invar h'" using hub_inv_publish hub_invD(8) by fastforce
  then show ?case by (intro hub_inv_phase) auto
next
  case (Finish h c h')
  then have "hub_inv invar h'" using hub_inv_finished by blast
  then show ?case by (intro hub_inv_phase hub_inv_upd_ok client_ok_close room_ops) simp_all
next
  case (RunDisconnect h c)
  then show ?case by (intro hub_inv_disconnect) simp
next
  case (RunBroadcast h order h')
  then show ?case using hub_inv_run_broadcast by blast
next
  case (Write h c client ok out client')
  then have "client_ok client' \<and> c_Room client' = c_Room client"
    using client_ok_write [OF hub_client_ok, of invar h c client ok] room_ops(6) [of ok client] by simp
  then show ?case using Write by (intro hub_inv_upd_client) (auto simp: drop_forms split: if_splits)
next
  case (Heartbeat h c client ok)
  then show ?case by (intro hub_inv_upd_ok client_ok_heartbeat room_ops)
next
  case (Remote event h pick)
  then show ?case by (intro hub_inv_remote)
next
  case (BrokerSent h event q)
  then show ?case by (simp add: hub_inv_def broker_ok_def)
next
  case (LeaveSaved h h')
  then show ?case using hub_inv_leave_take by blast
next
  case (LeavePublished h m pick e b h')
  then have "hub_inv invar h'" using hub_inv_publish hub_invD(7) by blast
  then show ?case by (simp add: hub_inv_def)
next
  case (BrokerReturns h h')
  then show ?case by (auto simp: brokerDone_def split: if_splits)
next
  case (DrainBegin h order cs h')
  then show ?case by (intro hub_inv_drain_begin)
next
  case (DrainBrokerStopped h cs)
  then show ?case by (simp, intro hub_inv_drain_phase draining_iff) auto
next
  case (DrainClose h cs cs0 c ok)
  then have "hub_inv invar (h\<lparr>h_drain := DrainClosing (remove1 c cs) cs0\<rparr>)"
    using set_remove1_subset [of c cs] by (intro hub_inv_drain_phase draining_iff) auto
  then show ?case by (intro hub_inv_upd_ok client_ok_closeForShutdown room_ops)
next
  case (DrainClosed h cs0)
  then show ?case by (intro hub_inv_drain_phase draining_iff) (auto dest: distinct_card)
next
  case (DrainEvent h P n c es)
  then have "c \<in> P \<and> hub_inv invar (h\<lparr>h_drainEvents := Some es, h_drain := DrainWaiting (P - {c}) n\<rparr>)"
    using hub_inv_drain_wait [OF DrainEvent(3,1,2)] by simp
  then show ?case by simp
next
  case (DrainDeadline h P n)
  then show ?case by (simp, intro hub_inv_drain_phase draining_iff) auto
next
  case (DrainDone h P)
  then show ?case by (intro hub_inv_drain_phase draining_iff) auto
next
  case (DrainContext h err)
  then show ?case by (simp add: hub_inv_def)
next
  case (Stop h remaining forced)
  then show ?case using hub_invD(13) [of invar h] by (simp, intro hub_inv_drain_phase draining_iff) auto
next
  case (StopLeaves h remaining forced waits h')
  then have "hub_inv invar h'" "h_drain h' = DrainLeaves remaining forced"
    by (auto simp: stopLeave_begin_def split: if_splits)
  then show ?case using hub_invD(13) [of invar h'] by (intro hub_inv_drain_phase draining_iff) auto
next
  case (LeavesStopped h remaining forced err h')
  then have "hub_inv invar h'" "h_drain h' = DrainLeaveWait remaining forced" by (auto simp: stopLeave_end_def)
  then show ?case using hub_invD(13) [of invar h'] by (intro hub_inv_drain_phase draining_iff) auto
next
  case (DrainReturns h remaining forced err)
  then show ?case
    using hub_invD(13) [of invar h] by (intro hub_inv_drain_phase draining_iff) (auto simp: drain_result_def split: if_splits)
qed (auto intro!: hub_inv_phase)

lemma hub_inv_new: "invar s \<Longrightarrow> hub_inv invar (newHub s fanout)"
  by (simp add: hub_inv_def newHub_def heap_ok_def history_ok_def msgs_ok_def broker_ok_def seen_ok_def drain_ok_def)

lemma hub_inv_reachable: "hub_reachable R X invar h \<Longrightarrow> hub_inv invar h"
  by (induction rule: hub_reachable.induct) (auto intro: hub_inv_new hub_inv_step)

end

end
