(* ===== verification/HubFacts.thy ===== *)
theory HubFacts
  imports HubInvariant
begin

text \<open>
  What the hub's operations do: the delivery of one broadcast, the deduplication window, the
  waiting loop of \<open>drain\<close>, and what no step of the machine can change (the identity of a
  client, an ongoing drain).
\<close>

section \<open>Broadcast\<close>

text \<open>The clients a message is meant for, and what delivery makes of one of them.\<close>

definition addressed :: "Message \<Rightarrow> 'l Client \<Rightarrow> bool" where
  "addressed m client \<longleftrightarrow> m_Room m = [] \<or> Client_room client = m_Room m"

definition accepts :: "'l Client \<Rightarrow> bool" where
  "accepts client \<longleftrightarrow> \<not> c_done client \<and> length (c_send client) < outboundQueueSize"

definition delivered :: "Message \<Rightarrow> 'l Client \<Rightarrow> 'l Client" where
  "delivered m client =
     (if \<not> addressed m client then client
      else if accepts client then client\<lparr>c_send := c_send client @ [m]\<rparr>
      else Client_close client)"

definition dropped :: "Message \<Rightarrow> 'l Client \<Rightarrow> bool" where
  "dropped m client \<longleftrightarrow> addressed m client \<and> \<not> accepts client"

lemma enqueue_accepts:
  "Client_enqueue m client = (if accepts client then (True, client\<lparr>c_send := c_send client @ [m]\<rparr>) else (False, client))"
  by (simp add: Client_enqueue_def accepts_def)

lemma queueLeave_frame [simp]:
  "h_heap (queueLeaveNotification m h) = h_heap h" "h_clients (queueLeaveNotification m h) = h_clients h"
  "h_broadcast (queueLeaveNotification m h) = h_broadcast h" "h_draining (queueLeaveNotification m h) = h_draining h"
  "h_finished (queueLeaveNotification m h) = h_finished h" "h_phase (queueLeaveNotification m h) = h_phase h"
  "h_done (queueLeaveNotification m h) = h_done h"
  by (simp_all add: queueLeaveNotification_def drop_forms Let_def)

lemma upd_client_frame [simp]:
  "h_clients (upd_client c f h) = h_clients h" "h_broadcast (upd_client c f h) = h_broadcast h"
  "h_draining (upd_client c f h) = h_draining h" "h_finished (upd_client c f h) = h_finished h"
  "h_phase (upd_client c f h) = h_phase h" "h_done (upd_client c f h) = h_done h"
  "h_heap (upd_client c f h) = (h_heap h)(c := map_option f (h_heap h c))"
  "h_database (upd_client c f h) = h_database h" "h_brokerPublish (upd_client c f h) = h_brokerPublish h"
  by (simp_all add: upd_client_def)

lemma drop_frame [simp]:
  "h_heap (count f h) = h_heap h" "h_clients (count f h) = h_clients h" "h_broadcast (count f h) = h_broadcast h"
  "h_draining (count f h) = h_draining h" "h_finished (count f h) = h_finished h" "h_phase (count f h) = h_phase h"
  "h_done (count f h) = h_done h" "h_database (count f h) = h_database h"
  "h_brokerPublish (count f h) = h_brokerPublish h" "h_drainPending (count f h) = h_drainPending h"
  by (simp_all add: count_def)

lemma disconnect_frame [simp]:
  "h_broadcast (disconnectClientLocked c h) = h_broadcast h" "h_draining (disconnectClientLocked c h) = h_draining h"
  "h_phase (disconnectClientLocked c h) = h_phase h" "h_done (disconnectClientLocked c h) = h_done h"
  "h_clients (disconnectClientLocked c h) = h_clients h - {c}"
  "h_heap (disconnectClientLocked c h) =
     (if c \<in> h_clients h then (h_heap h)(c := map_option Client_close (h_heap h c)) else h_heap h)"
  "h_finished (disconnectClientLocked c h) = (if c \<in> h_clients h then h_finished h - {c} else h_finished h)"
  by (auto simp: disconnectClientLocked_def Let_def split: option.splits)

lemma deliver_frame [simp]:
  "h_broadcast (deliver m c h) = h_broadcast h" "h_draining (deliver m c h) = h_draining h"
  "h_phase (deliver m c h) = h_phase h" "h_done (deliver m c h) = h_done h"
  by (auto simp: deliver_def enqueue_accepts outbound_drop_def Let_def split: option.splits)

lemma deliver_heap:
  assumes "c \<in> h_clients h"
  shows "h_heap (deliver m c h) = (h_heap h)(c := map_option (delivered m) (h_heap h c))"
proof (cases "h_heap h c")
  case None
  then show ?thesis by (simp add: deliver_def fun_upd_idem)
next
  case (Some C)
  then show ?thesis using assms
    by (auto simp: deliver_def enqueue_accepts outbound_drop_def delivered_def addressed_def fun_upd_idem)
qed

lemma deliver_clients:
  "h_clients (deliver m c h) = h_clients h - (if \<exists>C. h_heap h c = Some C \<and> dropped m C then {c} else {})"
  by (auto simp: deliver_def enqueue_accepts outbound_drop_def dropped_def addressed_def split: option.splits)

lemma deliver_finished:
  assumes "c \<in> h_clients h"
  shows "h_finished (deliver m c h) = h_finished h - (if \<exists>C. h_heap h c = Some C \<and> dropped m C then {c} else {})"
  using assms by (auto simp: deliver_def enqueue_accepts outbound_drop_def dropped_def addressed_def split: option.splits)

lemma deliver_other: "d \<noteq> c \<Longrightarrow> h_heap (deliver m c h) d = h_heap h d \<and> (d \<in> h_clients (deliver m c h) \<longleftrightarrow> d \<in> h_clients h)"
  by (auto simp: deliver_def enqueue_accepts outbound_drop_def split: option.splits)

lemma deliver_all_frame [simp]:
  "h_broadcast (fold (deliver m) order h) = h_broadcast h" "h_draining (fold (deliver m) order h) = h_draining h"
  "h_phase (fold (deliver m) order h) = h_phase h" "h_done (fold (deliver m) order h) = h_done h"
  by (induction order arbitrary: h) simp_all

lemma deliver_all:
  "distinct order \<Longrightarrow> set order \<subseteq> h_clients h \<Longrightarrow>
     h_heap (fold (deliver m) order h) =
       (\<lambda>c. if c \<in> set order then map_option (delivered m) (h_heap h c) else h_heap h c) \<and>
     h_clients (fold (deliver m) order h) =
       h_clients h - {c \<in> set order. \<exists>C. h_heap h c = Some C \<and> dropped m C} \<and>
     h_finished (fold (deliver m) order h) =
       h_finished h - {c \<in> set order. \<exists>C. h_heap h c = Some C \<and> dropped m C}"
proof (induction order arbitrary: h)
  case (Cons c order)
  let ?h = "deliver m c h"
  have sub: "distinct order" "set order \<subseteq> h_clients ?h" using Cons.prems by (auto simp: deliver_clients)
  have c: "c \<in> h_clients h" "c \<notin> set order" using Cons.prems by simp_all
  have heap: "h_heap ?h d = h_heap h d" if "d \<in> set order" for d using that c deliver_other [of d c m h] by auto
  show ?case using Cons.IH [OF sub] c heap by (auto simp: deliver_heap deliver_clients deliver_finished)
qed simp

lemma run_broadcast_spec:
  assumes "h_broadcast h = m # rest" "distinct order" "set order = h_clients h" "run_broadcast order h = Some h'"
  shows "h_heap h' = (\<lambda>c. if c \<in> h_clients h then map_option (delivered m) (h_heap h c) else h_heap h c)"
    "h_clients h' = {c \<in> h_clients h. \<forall>C. h_heap h c = Some C \<longrightarrow> \<not> dropped m C}"
    "h_finished h' = h_finished h - {c \<in> h_clients h. \<exists>C. h_heap h c = Some C \<and> dropped m C}"
    "h_broadcast h' = rest"
proof -
  have h': "h' = fold (deliver m) order (h\<lparr>h_broadcast := rest\<rparr>)" using assms(1,4) by (simp add: run_broadcast_def)
  have d: "h_heap h' = (\<lambda>c. if c \<in> h_clients h then map_option (delivered m) (h_heap h c) else h_heap h c) \<and>
     h_clients h' = h_clients h - {c \<in> h_clients h. \<exists>C. h_heap h c = Some C \<and> dropped m C} \<and>
     h_finished h' = h_finished h - {c \<in> h_clients h. \<exists>C. h_heap h c = Some C \<and> dropped m C}"
    using deliver_all [of order "h\<lparr>h_broadcast := rest\<rparr>" m] assms(2,3) h' by (simp cong: if_cong)
  show "h_heap h' = (\<lambda>c. if c \<in> h_clients h then map_option (delivered m) (h_heap h c) else h_heap h c)"
    using d by simp
  show "h_clients h' = {c \<in> h_clients h. \<forall>C. h_heap h c = Some C \<longrightarrow> \<not> dropped m C}"
    using d by auto
  show "h_finished h' = h_finished h - {c \<in> h_clients h. \<exists>C. h_heap h c = Some C \<and> dropped m C}"
    using d by simp
  show "h_broadcast h' = rest" using h' by simp
qed

section \<open>The deduplication window\<close>

text \<open>As a specification: the last \<open>maxSeenBrokerEvents\<close> distinct identifiers, in the order of arrival.\<close>

definition window_add :: "string \<Rightarrow> string list \<Rightarrow> string list" where
  "window_add e ids = (if e \<in> set ids then ids else lastn maxSeenBrokerEvents (ids @ [e]))"

fun remember_all :: "string list \<Rightarrow> ('l, 's) Hub \<Rightarrow> bool list \<times> ('l, 's) Hub" where
  "remember_all [] h = ([], h)"
| "remember_all (e # es) h =
     (let (b, h) = rememberBrokerEvent e h; (bs, h) = remember_all es h in (b # bs, h))"

lemma rememberBrokerEvent_refines:
  assumes "seen_ok (h_seenEventIDs h) (h_seenEvents h)" "rememberBrokerEvent e h = (b, h')"
  shows "(b \<longleftrightarrow> e \<notin> set (h_seenEventIDs h)) \<and> h_seenEventIDs h' = window_add e (h_seenEventIDs h) \<and>
    seen_ok (h_seenEventIDs h') (h_seenEvents h')"
proof -
  let ?ids = "h_seenEventIDs h"
  have len: "length ?ids \<le> maxSeenBrokerEvents" "h_seenEvents h = set ?ids" using assms(1) by (auto simp: seen_ok_def)
  have "tl (?ids @ [e]) = lastn maxSeenBrokerEvents (?ids @ [e])" if "length ?ids = maxSeenBrokerEvents"
    using that lastn_append_whole [of "tl (?ids @ [e])" maxSeenBrokerEvents "[hd (?ids @ [e])]"] by simp
  moreover have "lastn maxSeenBrokerEvents (?ids @ [e]) = ?ids @ [e]" if "length ?ids < maxSeenBrokerEvents"
    using that by (simp add: lastn_def)
  ultimately have "(b \<longleftrightarrow> e \<notin> set ?ids) \<and> h_seenEventIDs h' = window_add e ?ids"
    using assms(2) len by (auto simp: rememberBrokerEvent_def window_add_def Let_def split: if_splits)
  moreover obtain ids seen where "h' = h\<lparr>h_seenEvents := seen, h_seenEventIDs := ids\<rparr>" "seen_ok ids seen"
    using rememberBrokerEvent_form [OF assms(1), of e] assms(2) by auto
  ultimately show ?thesis by simp
qed

lemma lastn_append_lastn: "lastn n (lastn n xs @ ys) = lastn n (xs @ ys)"
  by (cases "length xs \<le> n") (auto simp: lastn_def add.commute)

lemma remember_all_window:
  "seen_ok (h_seenEventIDs h) (h_seenEvents h) \<Longrightarrow> remember_all es h = (bs, h') \<Longrightarrow>
     \<exists>acc. h_seenEventIDs h' = lastn maxSeenBrokerEvents (h_seenEventIDs h @ acc) \<and> set acc \<subseteq> set es \<and>
       length acc = count_list bs True \<and> seen_ok (h_seenEventIDs h') (h_seenEvents h')"
proof (induction es arbitrary: h bs)
  case Nil
  then show ?case by (intro exI [of _ "[]"]) (auto simp: seen_ok_def lastn_all)
next
  case (Cons e es)
  obtain b h1 where r: "rememberBrokerEvent e h = (b, h1)" by fastforce
  obtain bs1 where bs: "remember_all es h1 = (bs1, h')" "bs = b # bs1"
    using Cons.prems(2) r by (auto split: prod.splits)
  note ref = rememberBrokerEvent_refines [OF Cons.prems(1) r]
  then obtain acc where acc: "h_seenEventIDs h' = lastn maxSeenBrokerEvents (h_seenEventIDs h1 @ acc)"
      "set acc \<subseteq> set es" "length acc = count_list bs1 True" "seen_ok (h_seenEventIDs h') (h_seenEvents h')"
    using Cons.IH [OF _ bs(1)] by blast
  show ?case
  proof (cases b)
    case True
    then have "h_seenEventIDs h1 = lastn maxSeenBrokerEvents (h_seenEventIDs h @ [e])" using ref by (simp add: window_add_def)
    then show ?thesis using acc True bs(2) by (intro exI [of _ "e # acc"]) (auto simp: lastn_append_lastn)
  next
    case False
    then have "h_seenEventIDs h1 = h_seenEventIDs h" using ref by (simp add: window_add_def)
    then show ?thesis using acc False bs(2) by (intro exI [of _ acc]) auto
  qed
qed

text \<open>An identifier is accepted again exactly when as many others as the window holds came between.\<close>

lemma remember_again:
  assumes ok: "seen_ok (h_seenEventIDs h) (h_seenEvents h)" and fresh: "rememberBrokerEvent e h = (True, h1)"
    and es: "e \<notin> set es" "remember_all es h1 = (bs, h2)"
  shows "fst (rememberBrokerEvent e h2) \<longleftrightarrow> maxSeenBrokerEvents \<le> count_list bs True"
proof -
  note r1 = rememberBrokerEvent_refines [OF ok fresh]
  obtain acc where acc: "h_seenEventIDs h2 = lastn maxSeenBrokerEvents (h_seenEventIDs h1 @ acc)" "set acc \<subseteq> set es"
      "length acc = count_list bs True" "seen_ok (h_seenEventIDs h2) (h_seenEvents h2)"
    using remember_all_window [OF _ es(2)] r1 by blast
  have "h_seenEventIDs h1 = lastn maxSeenBrokerEvents (h_seenEventIDs h @ [e])" using r1 by (simp add: window_add_def)
  then have ids: "h_seenEventIDs h2 = lastn maxSeenBrokerEvents (h_seenEventIDs h @ e # acc)"
    using acc(1) by (simp add: lastn_append_lastn)
  have e: "e \<notin> set (h_seenEventIDs h)" "e \<notin> set acc" using r1 acc(2) es(1) by auto
  have "e \<in> set (h_seenEventIDs h2) \<longleftrightarrow> length acc < maxSeenBrokerEvents"
  proof (cases "length acc < maxSeenBrokerEvents")
    case True
    then have "lastn maxSeenBrokerEvents (h_seenEventIDs h @ e # acc) =
        lastn (maxSeenBrokerEvents - Suc (length acc)) (h_seenEventIDs h) @ e # acc"
      by (auto simp: lastn_def)
    then show ?thesis using True ids by simp
  next
    case False
    then have "lastn maxSeenBrokerEvents (h_seenEventIDs h @ e # acc) = lastn maxSeenBrokerEvents acc"
      by (auto simp: lastn_def Suc_diff_le)
    then show ?thesis using False ids e(2) set_lastn [of maxSeenBrokerEvents acc] by auto
  qed
  moreover obtain b h3 where "rememberBrokerEvent e h2 = (b, h3)" by fastforce
  ultimately show ?thesis using rememberBrokerEvent_refines [OF acc(4)] acc(3) by fastforce
qed

section \<open>Remote events\<close>

lemma rememberBrokerEvent_frame:
  assumes "rememberBrokerEvent e h = (b, h')"
  shows "h_broadcast h' = h_broadcast h \<and> h_draining h' = h_draining h \<and> h_done h' = h_done h \<and>
    h_instanceID h' = h_instanceID h"
  using assms by (auto simp: rememberBrokerEvent_def Let_def split: if_splits)

lemma handleRemoteEvent_broadcast:
  assumes "seen_ok (h_seenEventIDs h) (h_seenEvents h)"
  shows "h_broadcast (handleRemoteEvent pick event h) = h_broadcast h @
      (if env_OriginInstance event \<noteq> h_instanceID h \<and> env_EventID event \<notin> set (h_seenEventIDs h) \<and> \<not> h_draining h \<and>
          length (h_broadcast h) < broadcastQueueSize \<and> (\<not> h_done h \<or> pick) then [message_of_event event] else [])"
proof -
  obtain b h1 where r: "rememberBrokerEvent (env_EventID event) h = (b, h1)" by fastforce
  show ?thesis using rememberBrokerEvent_refines [OF assms r] rememberBrokerEvent_frame [OF r]
    by (simp add: handleRemoteEvent_def r redis_drop_def)
qed

text \<open>An event that has just been handled is in the window, or came from this instance.\<close>

lemma handleRemoteEvent_seen:
  assumes "seen_ok (h_seenEventIDs h) (h_seenEvents h)"
  shows "seen_ok (h_seenEventIDs (handleRemoteEvent pick event h)) (h_seenEvents (handleRemoteEvent pick event h)) \<and>
    h_instanceID (handleRemoteEvent pick event h) = h_instanceID h \<and>
    (env_OriginInstance event = h_instanceID h \<or> env_EventID event \<in> set (h_seenEventIDs (handleRemoteEvent pick event h)))"
proof -
  obtain b h1 where r: "rememberBrokerEvent (env_EventID event) h = (b, h1)" by fastforce
  have "env_EventID event \<in> set (window_add (env_EventID event) (h_seenEventIDs h))"
    by (simp add: window_add_def lastn_def maxSeenBrokerEvents_def)
  then show ?thesis
    using rememberBrokerEvent_refines [OF assms r] rememberBrokerEvent_frame [OF r] assms
    by (auto simp: handleRemoteEvent_def r redis_drop_def count_def)
qed

lemma handleRemoteEvent_twice:
  assumes "seen_ok (h_seenEventIDs h) (h_seenEvents h)"
  shows "h_broadcast (handleRemoteEvent again event (handleRemoteEvent pick event h)) =
    h_broadcast (handleRemoteEvent pick event h)"
proof -
  note s = handleRemoteEvent_seen [OF assms, of pick event]
  then show ?thesis
    using handleRemoteEvent_broadcast [of "handleRemoteEvent pick event h" again event] by auto
qed

end
