(* ===== verification/HubTemporal.thy ===== *)
theory HubTemporal
  imports HubFacts
begin

text \<open>
  What holds along every run of the hub's machine: a client keeps its principal, a drain is
  never left and admits nobody, the entry of a client that has gone is kept, and a drain whose
  clients have all finished comes to its end.
\<close>

section \<open>The principal of a client\<close>

definition same_principal :: "'l Client \<Rightarrow> 'l Client \<Rightarrow> bool" where
  "same_principal C D \<longleftrightarrow> c_ID D = c_ID C \<and> c_UserID D = c_UserID C \<and> c_Authenticated D = c_Authenticated C \<and>
     c_AuthExpiresAt D = c_AuthExpiresAt C \<and> c_Room D = c_Room C \<and>
     (c_Authenticated C \<longrightarrow> c_Username D = c_Username C)"

definition keeps_clients :: "('l, 's) Hub \<Rightarrow> ('l, 's) Hub \<Rightarrow> bool" where
  "keeps_clients h h' \<longleftrightarrow> (\<forall>c C. h_heap h c = Some C \<longrightarrow> (\<exists>D. h_heap h' c = Some D \<and> same_principal C D))"

lemma same_principal_refl [simp]: "same_principal C C"
  by (simp add: same_principal_def)

lemma same_principal_identity: "identity D = identity C \<Longrightarrow> same_principal C D"
  by (auto simp: same_principal_def identity_def)

lemma same_principal_rename: "\<not> c_Authenticated C \<Longrightarrow> same_principal C (Client_setUsername n C)"
  by (simp add: same_principal_def Client_setUsername_def)

lemma keeps_same: "h_heap h' = h_heap h \<Longrightarrow> keeps_clients h h'"
  by (simp add: keeps_clients_def)

lemma keeps_refl [simp]: "keeps_clients h h"
  by (simp add: keeps_same)

lemma same_principal_trans: "same_principal C D \<Longrightarrow> same_principal D E \<Longrightarrow> same_principal C E"
  by (simp add: same_principal_def)

lemma keeps_trans: "keeps_clients h h1 \<Longrightarrow> keeps_clients h1 h2 \<Longrightarrow> keeps_clients h h2"
  unfolding keeps_clients_def by (meson same_principal_trans)

lemma keeps_upd: "(\<And>C. h_heap h c = Some C \<Longrightarrow> same_principal C (f C)) \<Longrightarrow> h_heap h' = h_heap h \<Longrightarrow>
    keeps_clients h (upd_client c f h')"
  by (auto simp: keeps_clients_def)

lemma keeps_new: "h_heap h c = None \<Longrightarrow> h_heap h' = (h_heap h)(c \<mapsto> C) \<Longrightarrow> keeps_clients h h'"
  by (auto simp: keeps_clients_def)

lemma queueBrokerMessage_heap [simp]: "h_heap (queueBrokerMessage e m h) = h_heap h"
  by (auto simp: queueBrokerMessage_def redis_drop_def split: option.splits sum.splits)

lemma publishContext_heap: "publishContext pick e m h = Some (b, h') \<Longrightarrow> h_heap h' = h_heap h"
  by (auto simp: publishContext_def split: if_splits)

lemma save_notification_heap: "save_notification R m h = (m', h') \<Longrightarrow> h_heap h' = h_heap h"
  by (auto simp: save_notification_def case_prod_beta Let_def)

lemma handleRemoteEvent_heap [simp]: "h_heap (handleRemoteEvent pick ev h) = h_heap h"
  by (auto simp: handleRemoteEvent_def rememberBrokerEvent_def redis_drop_def Let_def split: if_splits)

lemma auditRejectedMessage_heap [simp]: "h_heap (auditRejectedMessage R C r x h) = h_heap h"
  by (simp add: auditRejectedMessage_def)

lemma leave_take_heap: "leave_take R h = Some h' \<Longrightarrow> h_heap h' = h_heap h"
  by (auto simp: leave_take_def case_prod_beta Let_def save_notification_def split: list.splits)

lemma notifyClientFinished_heap: "notifyClientFinished c h = Some h' \<Longrightarrow> h_heap h' = h_heap h"
  by (auto simp: notifyClientFinished_def Let_def count_def split: option.splits if_splits)

lemma drain_begin_heap: "drain_begin order h = (cs, h') \<Longrightarrow> h_heap h' = h_heap h"
  by (auto simp: drain_begin_def Let_def)

lemma brokerDone_heap: "brokerDone h = Some h' \<Longrightarrow> h_heap h' = h_heap h"
  by (auto simp: brokerDone_def split: if_splits)

lemma delivered_identity: "identity (delivered m C) = identity C"
  by (auto simp: delivered_def) (simp add: identity_def)

lemma keeps_disconnect: "keeps_clients h (disconnectClientLocked c h)"
  by (auto simp: keeps_clients_def intro!: same_principal_identity)

lemma keeps_readMessages_body:
  assumes c: "h_heap h c = Some C" and b: "readMessages_body R X now c C msg h = (out, h')"
  shows "keeps_clients h h'"
  using b
proof (cases rule: readMessages_body_cases)
  case renamed
  then show ?thesis using c by (auto intro!: keeps_upd same_principal_rename)
next
  case (rate_limited C')
  then have "identity C' = identity C" using identity_ops(4) [of X now C] by simp
  then have "identity (Client_sendRateLimitNotice C') = identity C" by simp
  then show ?thesis using rate_limited c by (auto simp: keeps_clients_def reject_def intro!: same_principal_identity)
next
  case (accepted C' saved s)
  then have "identity C' = identity C" using identity_ops(4) [of X now C] by simp
  then show ?thesis using accepted c by (auto simp: keeps_clients_def intro!: same_principal_identity)
qed (auto intro!: keeps_same simp: reject_def)

lemma keeps_run_broadcast:
  assumes "distinct order" "set order = h_clients h" "run_broadcast order h = Some h'"
  shows "keeps_clients h h'"
proof -
  obtain m rest where m: "h_broadcast h = m # rest" using assms(3) by (auto simp: run_broadcast_def split: list.splits)
  show ?thesis using run_broadcast_spec(1) [OF m assms] delivered_identity
    by (auto simp: keeps_clients_def intro!: same_principal_identity)
qed

lemma hub_step_keeps_clients: "hub_step R X invar h h' \<Longrightarrow> keeps_clients h h'"
proof (induction rule: hub_step.induct)
  case (Refused h c client h' ok)
  then have "h' = h\<lparr>h_heap := (h_heap h)(c \<mapsto> client)\<rparr>" by (simp add: register_locked_def split: if_splits)
  then show ?case using Refused by (intro keeps_new) (auto simp: set_phase_def)
next
  case (Registered h c client h')
  then have "h_heap h' = (h_heap h)(c \<mapsto> client)" by (auto simp: register_locked_def split: if_splits)
  then show ?case using Registered by (intro keeps_new) (auto simp: set_phase_def)
next
  case (ReadFrame h c client now msg h')
  then show ?case by (intro keeps_readMessages_body)
next
  case (ReadMessage h c client now msg m h')
  then have "keeps_clients h h'" by (intro keeps_readMessages_body)
  then show ?case by (simp add: keeps_clients_def set_phase_def)
next
  case (Finish h c h')
  then have "h_heap h' = h_heap h" by (simp add: notifyClientFinished_heap)
  then have "keeps_clients h (upd_client c Client_close h')" by (intro keeps_upd same_principal_identity) simp_all
  then show ?case by (simp add: keeps_clients_def set_phase_def)
next
  case (RunDisconnect h c)
  then show ?case using keeps_disconnect [of "h\<lparr>h_received := None\<rparr>" c] by (simp add: keeps_clients_def)
next
  case (RunBroadcast h order h')
  then show ?case by (intro keeps_run_broadcast)
next
  case (Write h c client ok out client')
  then have "identity client' = identity client" using identity_ops(6) [of ok client] by simp
  then show ?case using Write by (intro keeps_upd same_principal_identity) (simp_all add: outbound_drop_def)
next
  case (HistoryPushed h c m ms client)
  then show ?case
    by (auto simp: history_push_def case_prod_beta Let_def keeps_clients_def intro!: same_principal_identity)
next
  case (DrainClose h cs cs0 c ok)
  then show ?case by (intro keeps_upd same_principal_identity) simp_all
next
  case (Heartbeat h c client ok)
  then show ?case by (intro keeps_upd same_principal_identity) simp_all
qed (auto intro!: keeps_same simp: set_phase_def startBroker_def ws_upgrade_def stop_def stopLeave_begin_def stopLeave_end_def
       dest: publishContext_heap save_notification_heap leave_take_heap notifyClientFinished_heap drain_begin_heap brokerDone_heap
       split: if_splits)

lemma hub_run_keeps_clients: "(hub_step R X invar)\<^sup>*\<^sup>* h h' \<Longrightarrow> keeps_clients h h'"
  by (induction rule: rtranclp_induct) (auto intro: keeps_trans hub_step_keeps_clients)

section \<open>Membership and draining\<close>

text \<open>The part of the state that registration, disconnection and \<open>drain\<close> work on.\<close>

definition membership :: "('l, 's) Hub \<Rightarrow> bool \<times> nat set \<times> nat set" where
  "membership h = (h_draining h, h_clients h, h_finished h)"

lemma membership_frame [simp]:
  "membership (set_phase c p h) = membership h" "membership (count f h) = membership h"
  "membership (upd_client c g h) = membership h" "membership (h\<lparr>h_leavePending := x\<rparr>) = membership h"
  "membership (h\<lparr>h_database := s\<rparr>) = membership h" "membership (h\<lparr>h_broadcast := q\<rparr>) = membership h"
  by (simp_all add: membership_def set_phase_def)

lemma queueBrokerMessage_members: "membership (queueBrokerMessage e m h) = membership h"
  by (auto simp: membership_def queueBrokerMessage_def redis_drop_def split: option.splits sum.splits)

lemma publishContext_members: "publishContext pick e m h = Some (b, h') \<Longrightarrow> membership h' = membership h"
  by (auto simp: publishContext_def queueBrokerMessage_members split: if_splits)

lemma save_notification_members: "save_notification R m h = (m', h') \<Longrightarrow> membership h' = membership h"
  by (auto simp: membership_def save_notification_def case_prod_beta Let_def)

lemma handleRemoteEvent_members: "membership (handleRemoteEvent pick ev h) = membership h"
  by (auto simp: membership_def handleRemoteEvent_def rememberBrokerEvent_def redis_drop_def Let_def split: if_splits)

lemma leave_take_members: "leave_take R h = Some h' \<Longrightarrow> membership h' = membership h"
  by (auto simp: membership_def leave_take_def case_prod_beta Let_def save_notification_def split: list.splits)

lemma readMessages_body_members:
  assumes "readMessages_body R X now c C msg h = (out, h')"
  shows "membership h' = membership h"
  using assms by (cases rule: readMessages_body_cases)
    (simp_all add: membership_def auditRejectedMessage_def reject_def)

text \<open>
  A step changes the membership in one of five ways only: it registers a new client before any
  drain, records a finished one, removes one, removes some slow ones, or begins the drain.
\<close>

lemma step_membership:
  assumes "hub_step R X invar h h'"
  obtains (same) "membership h' = membership h"
  | (registers) c where "\<not> h_draining h" "h_heap h c = None" "membership h' = (False, insert c (h_clients h), h_finished h)"
  | (finishes) c where "membership h' = (h_draining h, h_clients h, insert c (h_finished h))"
  | (removes) S where "S \<subseteq> h_clients h" "membership h' = (h_draining h, h_clients h - S, h_finished h - S)"
  | (drains) "membership h' = (True, {}, h_finished h - h_clients h)"
  using assms
proof (cases rule: hub_step.cases)
  case (Registered c client h1)
  then show ?thesis using registers by (auto simp: membership_def register_locked_def set_phase_def split: if_splits)
next
  case (Finish c h1)
  then show ?thesis using finishes [of c]
    by (auto simp: membership_def notifyClientFinished_def set_phase_def Let_def count_def split: option.splits if_splits)
next
  case (RunDisconnect c)
  then show ?thesis using removes [of "h_clients h \<inter> {c}"] by (auto simp: membership_def)
next
  case (RunBroadcast order)
  then obtain m rest where m: "h_broadcast h = m # rest" by (auto simp: run_broadcast_def split: list.splits)
  note spec = run_broadcast_spec [OF m RunBroadcast(3-5)]
  have "h_draining h' = h_draining h" using RunBroadcast(5) m by (auto simp: run_broadcast_def)
  then show ?thesis using spec
    by (intro removes [of "{c \<in> h_clients h. \<exists>C. h_heap h c = Some C \<and> dropped m C}"]) (auto simp: membership_def)
next
  case BrokerReturns
  then show ?thesis by (intro same) (auto simp: brokerDone_def membership_def split: if_splits)
next
  case (DrainBegin order cs h1)
  then show ?thesis using drains by (auto simp: membership_def drain_begin_def Let_def)
next
  case (JoinSaved c client m h1)
  then show ?thesis using save_notification_members by (intro same) fastforce
next
  case (JoinPublished c m pick e b h1)
  then show ?thesis using publishContext_members by (intro same) fastforce
next
  case (ReadFrame c client now msg)
  then show ?thesis using readMessages_body_members by (intro same) fastforce
next
  case (ReadMessage c client now msg m h1)
  then show ?thesis using readMessages_body_members by (intro same) fastforce
next
  case (ReadPublished c m pick e b h1)
  then show ?thesis using publishContext_members by (intro same) fastforce
next
  case (LeaveSaved)
  then show ?thesis using leave_take_members by (intro same) fastforce
next
  case (LeavePublished m pick e b h1)
  then show ?thesis using publishContext_members by (intro same) fastforce
next
  case (Remote event pick)
  then show ?thesis by (intro same) (simp add: handleRemoteEvent_members)
next
  case (Refused c client h1 ok)
  then show ?thesis by (intro same) (auto simp: membership_def register_locked_def set_phase_def split: if_splits)
next
  case (StopLeaves remaining forced waits h1)
  then show ?thesis by (intro same) (auto simp: stopLeave_begin_def membership_def split: if_splits)
next
  case (LeavesStopped remaining forced err h1)
  then show ?thesis by (intro same) (auto simp: stopLeave_end_def membership_def)
next
  case (HistoryPushed c m ms client)
  then show ?thesis by (intro same) (simp add: history_push_def case_prod_beta Let_def membership_def)
next
  case (Write c client ok out client')
  then show ?thesis by (intro same) (simp add: membership_def outbound_drop_def)
qed (rule same, simp add: membership_def startBroker_def ws_upgrade_def stop_def set_phase_def)+

lemma draining_step:
  assumes "hub_step R X invar h h'" "h_draining h" "h_clients h = {}"
  shows "h_draining h' \<and> h_clients h' = {}"
  using assms(1) by (cases rule: step_membership) (use assms(2,3) in \<open>auto simp: membership_def\<close>)

lemma draining_run:
  assumes "(hub_step R X invar)\<^sup>*\<^sup>* h h'" "h_draining h" "h_clients h = {}"
  shows "h_draining h' \<and> h_clients h' = {}"
  using assms by (induction rule: rtranclp_induct) (auto dest: draining_step)

text \<open>
  A client that has finished and is no longer registered: the entry that
  \<open>notifyClientFinished\<close> made for it is never removed.
\<close>

definition departed :: "nat \<Rightarrow> ('l, 's) Hub \<Rightarrow> bool" where
  "departed c h \<longleftrightarrow> c \<in> h_finished h \<and> c \<notin> h_clients h \<and> h_heap h c \<noteq> None"

lemma notifyClientFinished_departs:
  assumes "notifyClientFinished c h = Some h'" "c \<notin> h_clients h" "h_heap h c \<noteq> None"
  shows "departed c h'"
  using assms
  by (auto simp: departed_def notifyClientFinished_def Let_def count_def split: option.splits if_splits)

lemma departed_step:
  assumes "hub_step R X invar h h'" "departed c h"
  shows "departed c h'"
proof -
  have "h_heap h' c \<noteq> None"
    using hub_step_keeps_clients [OF assms(1)] assms(2) by (auto simp: departed_def keeps_clients_def)
  note heap = this
  from assms(1) show ?thesis
    by (cases rule: step_membership) (use assms(2) heap in \<open>auto simp: membership_def departed_def\<close>)
qed

lemma departed_run: "(hub_step R X invar)\<^sup>*\<^sup>* h h' \<Longrightarrow> departed c h \<Longrightarrow> departed c h'"
  by (induction rule: rtranclp_induct) (auto intro: departed_step)

section \<open>The end of a drain\<close>

text \<open>The waiting loop of \<open>drain\<close> on a sequence of signals.\<close>

fun finished_before :: "drain_signal list \<Rightarrow> nat set" where
  "finished_before (Finished c # signals) = insert c (finished_before signals)"
| "finished_before _ = {}"

lemma drain_wait_spec:
  "finite P \<Longrightarrow> card P = n \<Longrightarrow> drain_wait P n signals =
     (let k = card (P - finished_before signals) in
      if k = 0 then Some (0, 0) else if Deadline \<in> set signals then Some (k, k) else None)"
proof (induction signals arbitrary: P n)
  case Nil
  then show ?case by (cases n) auto
next
  case (Cons sg signals)
  show ?case
  proof (cases n)
    case 0
    then show ?thesis using Cons.prems by simp
  next
    case n: (Suc k)
    show ?thesis
    proof (cases sg)
      case Deadline
      then show ?thesis using Cons.prems n by auto
    next
      case (Finished c)
      have fb: "P - finished_before (sg # signals) = (P - {c}) - finished_before signals" using Finished by auto
      show ?thesis
      proof (cases "c \<in> P")
        case True
        then have "card (P - {c}) = k" using Cons.prems n by simp
        then show ?thesis using Cons.IH [of "P - {c}" k] Cons.prems(1) n True Finished fb
          by (simp add: Let_def)
      next
        case False
        then show ?thesis using Cons.IH [OF Cons.prems] n Finished fb by (simp add: Let_def)
      qed
    qed
  qed
qed

lemma drain_events_run:
  assumes "hub_inv invar h" "h_drain h = DrainWaiting P n" "h_drainPending h = {}" "h_drainEvents h = Some es"
  shows "(hub_step R X invar)\<^sup>*\<^sup>* h (h\<lparr>h_drainEvents := Some [], h_drain := DrainWaiting {} 0\<rparr>)"
  using assms
proof (induction es arbitrary: h P n)
  case Nil
  then have "P = {}" "n = 0" using hub_invD(12) [OF Nil.prems(1)] by (auto simp: drain_ok_def split: if_splits)
  then have "h\<lparr>h_drainEvents := Some [], h_drain := DrainWaiting {} 0\<rparr> = h"
    using Nil.prems(2,4) by (intro Hub.equality) simp_all
  then show ?case by simp
next
  case (Cons c es)
  let ?h = "h\<lparr>h_drainEvents := Some es, h_drain := DrainWaiting (P - {c}) (n - 1)\<rparr>"
  note w = hub_inv_drain_wait [OF Cons.prems(1,2,4)]
  have "finite P \<and> n = card P"
    using hub_invD(12) [OF Cons.prems(1)] Cons.prems(2) by (auto simp: drain_ok_def split: if_splits)
  then obtain k where k: "n = Suc k" using w card_gt_0_iff [of P] by (metis empty_iff gr0_conv_Suc)
  have "hub_step R X invar h ?h" using DrainEvent [of h P k c es R X invar] Cons.prems(2,4) w k by simp
  moreover have "(hub_step R X invar)\<^sup>*\<^sup>* ?h (?h\<lparr>h_drainEvents := Some [], h_drain := DrainWaiting {} 0\<rparr>)"
    using w Cons.prems(3) by (intro Cons.IH) auto
  ultimately show ?case by (simp add: converse_rtranclp_into_rtranclp)
qed

lemma drain_loop_ends:
  assumes "hub_inv invar h" "h_drain h = DrainWaiting P n" "h_drainPending h = {}"
  shows "(hub_step R X invar)\<^sup>*\<^sup>* h (h\<lparr>h_drainEvents := Some [], h_drain := DrainLeft 0 0\<rparr>)"
proof -
  obtain es where es: "h_drainEvents h = Some es"
    using hub_invD(12) [OF assms(1)] assms(2) by (auto simp: drain_ok_def split: if_splits)
  let ?h = "h\<lparr>h_drainEvents := Some [], h_drain := DrainWaiting {} 0\<rparr>"
  have "hub_step R X invar ?h (?h\<lparr>h_drain := DrainLeft 0 0\<rparr>)" by (rule DrainDone) simp
  then show ?thesis using rtranclp.rtrancl_into_rtrancl [OF drain_events_run [OF assms es]] by simp
qed

end
