(* ===== verification/Sqlite.thy ===== *)
theory Sqlite
  imports Repository
begin

text \<open>
  The SQLite backend, \<open>db/database.go\<close>: saving messages and audit events, the two history
  queries with their timestamp parsing and in-place reversal, and retention. The driver's text
  form of a timestamp, SQLite's \<open>julianday\<close> and \<open>time.Parse\<close> are parameters of the
  model, collected in \<open>sqlite_env\<close>; what is relied on of them is \<open>sqlite_env_ok\<close>.
\<close>

section \<open>State\<close>

record msg_row =
  r_id :: int
  r_room :: string
  r_user_id :: string
  r_username :: string
  r_content :: string
  r_type :: string
  r_timestamp :: string

record audit_row =
  a_id :: int
  a_session_id :: string
  a_user_id :: string
  a_username :: string
  a_reason :: string
  a_content_preview :: string
  a_content_length :: int
  a_timestamp :: string

record DB =
  messages :: "msg_row list"
  messages_seq :: int
  audit_log :: "audit_row list"
  audit_seq :: int
  clock :: gotime
  driver :: fault

record sqlite_env =
  bind_time :: "gotime \<Rightarrow> string"
  scan_text :: "string \<Rightarrow> string"
  julianday :: "string \<Rightarrow> int option"
  format_RFC3339Nano :: "gotime \<Rightarrow> string"
  time_Parse :: "string \<Rightarrow> string \<Rightarrow> gotime option"
  time_ParseInLocation :: "string \<Rightarrow> string \<Rightarrow> gotime option"

section \<open>Timestamps\<close>

definition RFC3339Nano :: string where "RFC3339Nano = ''2006-01-02T15:04:05.999999999Z07:00''"
definition RFC3339 :: string where "RFC3339 = ''2006-01-02T15:04:05Z07:00''"

fun parse_layouts :: "sqlite_env \<Rightarrow> string list \<Rightarrow> string \<Rightarrow> string \<Rightarrow> (string, gotime) result" where
  "parse_layouts env [] s last_err = Inl last_err"
| "parse_layouts env (layout # ls) s last_err =
     (case time_ParseInLocation env layout s of
        Some t \<Rightarrow> Inr t
      | None \<Rightarrow> parse_layouts env ls s layout)"

definition parseMsgTimestamp :: "sqlite_env \<Rightarrow> string \<Rightarrow> (string, gotime) result" where
  "parseMsgTimestamp env s =
     (case time_Parse env RFC3339Nano s of
        Some t \<Rightarrow> Inr t
      | None \<Rightarrow>
        (case time_Parse env RFC3339 s of
           Some t \<Rightarrow> Inr t
         | None \<Rightarrow> parse_layouts env
             [''2006-01-02 15:04:05'', ''2006-01-02 15:04:05.999999999-07:00''] s []))"

section \<open>Saving messages\<close>

definition DB_SaveMessageForUserInRoomContext ::
  "sqlite_env \<Rightarrow> DB \<Rightarrow> string \<Rightarrow> string \<Rightarrow> string \<Rightarrow> string \<Rightarrow> string \<Rightarrow>
     (db_error, db_Message) result \<times> DB" where
  "DB_SaveMessageForUserInRoomContext env db room0 userID username content msgType =
     (case NormalizeRoom room0 of
        Inl e \<Rightarrow> (Inl (RoomInvalid e), db)
      | Inr room \<Rightarrow>
        if msgType = ''username'' then
          (Inr \<lparr>db_ID = 0, db_UserID = userID, db_Username = username, db_Content = content,
                db_Type = msgType, db_Room = room, db_Timestamp = time_UTC (clock db)\<rparr>, db)
        else
          (case driver db of
             PrepareFails e \<Rightarrow> (Inl (DriverError e), db)
           | ExecFails e \<Rightarrow> (Inl (DriverError e), db)
           | f \<Rightarrow>
             let now = time_UTC (clock db);
                 id = messages_seq db + 1;
                 db' = db\<lparr>messages := messages db @
                            [\<lparr>r_id = id, r_room = room, r_user_id = userID, r_username = username,
                              r_content = content, r_type = msgType, r_timestamp = bind_time env now\<rparr>],
                          messages_seq := id\<rparr>
             in (case f of
                   InsertIdFails e \<Rightarrow> (Inl (DriverError e), db')
                 | _ \<Rightarrow>
                   (Inr \<lparr>db_ID = id, db_UserID = userID, db_Username = username, db_Content = content,
                         db_Type = msgType, db_Room = room, db_Timestamp = now\<rparr>, db'))))"

definition DB_SaveMessageInRoomContext ::
  "sqlite_env \<Rightarrow> DB \<Rightarrow> string \<Rightarrow> string \<Rightarrow> string \<Rightarrow> string \<Rightarrow> (db_error, db_Message) result \<times> DB" where
  "DB_SaveMessageInRoomContext env db room username content msgType =
     DB_SaveMessageForUserInRoomContext env db room [] username content msgType"

definition DB_SaveMessageInRoom ::
  "sqlite_env \<Rightarrow> DB \<Rightarrow> string \<Rightarrow> string \<Rightarrow> string \<Rightarrow> string \<Rightarrow> (db_error, db_Message) result \<times> DB" where
  "DB_SaveMessageInRoom env db room username content msgType =
     DB_SaveMessageInRoomContext env db room username content msgType"

definition DB_SaveMessage ::
  "sqlite_env \<Rightarrow> DB \<Rightarrow> string \<Rightarrow> string \<Rightarrow> string \<Rightarrow> (db_error, db_Message) result \<times> DB" where
  "DB_SaveMessage env db username content msgType =
     DB_SaveMessageInRoom env db DefaultRoom username content msgType"

section \<open>Retention\<close>

definition DB_PruneMessagesBeforeContext ::
  "sqlite_env \<Rightarrow> DB \<Rightarrow> gotime \<Rightarrow> (db_error, int) result \<times> DB" where
  "DB_PruneMessagesBeforeContext env db cutoff =
     (let old = (\<lambda>r. sql_lt (julianday env (r_timestamp r))
                       (julianday env (format_RFC3339Nano env (time_UTC cutoff))));
          db' = db\<lparr>messages := filter (\<lambda>r. \<not> old r) (messages db)\<rparr>
      in case driver db of
           ExecFails e \<Rightarrow> (Inl (DriverError e), db)
         | RowsAffectedFails e \<Rightarrow> (Inl (DriverError e), db')
         | _ \<Rightarrow> (Inr (int (length (filter old (messages db)))), db'))"

definition DB_PruneMessagesBefore :: "sqlite_env \<Rightarrow> DB \<Rightarrow> gotime \<Rightarrow> (db_error, int) result \<times> DB" where
  "DB_PruneMessagesBefore env db cutoff = DB_PruneMessagesBeforeContext env db cutoff"

definition DB_PruneModerationEventsBeforeContext ::
  "sqlite_env \<Rightarrow> DB \<Rightarrow> gotime \<Rightarrow> (db_error, int) result \<times> DB" where
  "DB_PruneModerationEventsBeforeContext env db cutoff =
     (let old = (\<lambda>r. sql_lt (julianday env (a_timestamp r))
                       (julianday env (format_RFC3339Nano env (time_UTC cutoff))));
          db' = db\<lparr>audit_log := filter (\<lambda>r. \<not> old r) (audit_log db)\<rparr>
      in case driver db of
           ExecFails e \<Rightarrow> (Inl (DriverError e), db)
         | RowsAffectedFails e \<Rightarrow> (Inl (DriverError e), db')
         | _ \<Rightarrow> (Inr (int (length (filter old (audit_log db)))), db'))"

definition DB_PruneModerationEventsBefore :: "sqlite_env \<Rightarrow> DB \<Rightarrow> gotime \<Rightarrow> (db_error, int) result \<times> DB" where
  "DB_PruneModerationEventsBefore env db cutoff = DB_PruneModerationEventsBeforeContext env db cutoff"

section \<open>Moderation audit\<close>

definition DB_SaveModerationEventForUserContext ::
  "sqlite_env \<Rightarrow> DB \<Rightarrow> string \<Rightarrow> string \<Rightarrow> string \<Rightarrow> string \<Rightarrow> string \<Rightarrow>
     (db_error, ModerationEvent) result \<times> DB" where
  "DB_SaveModerationEventForUserContext env db sessionID userID username reason content =
     (let contentPreview = truncateRunes content maxAuditPreviewRunes;
          contentLength = int (RuneCountInString content);
          now = time_UTC (clock db)
      in case driver db of
           PrepareFails e \<Rightarrow> (Inl (DriverError e), db)
         | ExecFails e \<Rightarrow> (Inl (DriverError e), db)
         | f \<Rightarrow>
           let id = audit_seq db + 1;
               db' = db\<lparr>audit_log := audit_log db @
                          [\<lparr>a_id = id, a_session_id = sessionID, a_user_id = userID, a_username = username,
                            a_reason = reason, a_content_preview = contentPreview,
                            a_content_length = contentLength, a_timestamp = bind_time env now\<rparr>],
                        audit_seq := id\<rparr>
           in (case f of
                 InsertIdFails e \<Rightarrow> (Inl (DriverError e), db')
               | _ \<Rightarrow>
                 (Inr \<lparr>ev_ID = id, ev_SessionID = sessionID, ev_UserID = userID, ev_Username = username,
                       ev_Reason = reason, ev_ContentPreview = contentPreview,
                       ev_ContentLength = contentLength, ev_Timestamp = now\<rparr>, db')))"

definition DB_SaveModerationEventContext ::
  "sqlite_env \<Rightarrow> DB \<Rightarrow> string \<Rightarrow> string \<Rightarrow> string \<Rightarrow> string \<Rightarrow> (db_error, ModerationEvent) result \<times> DB" where
  "DB_SaveModerationEventContext env db sessionID username reason content =
     DB_SaveModerationEventForUserContext env db sessionID [] username reason content"

definition DB_SaveModerationEvent ::
  "sqlite_env \<Rightarrow> DB \<Rightarrow> string \<Rightarrow> string \<Rightarrow> string \<Rightarrow> string \<Rightarrow> (db_error, ModerationEvent) result \<times> DB" where
  "DB_SaveModerationEvent env db sessionID username reason content =
     DB_SaveModerationEventContext env db sessionID username reason content"

section \<open>History queries\<close>

definition row_pos :: "sqlite_env \<Rightarrow> msg_row \<Rightarrow> position" where
  "row_pos env r = Position (julianday env (r_timestamp r)) (r_id r)"

text \<open>SQLite reads a negative \<open>LIMIT\<close> as no limit.\<close>

definition sqlite_limit :: "int \<Rightarrow> 'r list \<Rightarrow> 'r list" where
  "sqlite_limit n rows = (if n < 0 then rows else take (nat n) rows)"

definition read_row :: "sqlite_env \<Rightarrow> DB \<Rightarrow> msg_row \<Rightarrow> db_Message" where
  "read_row env db r =
     \<lparr>db_ID = r_id r, db_UserID = r_user_id r, db_Username = r_username r, db_Content = r_content r,
      db_Type = r_type r, db_Room = r_room r,
      db_Timestamp = (case parseMsgTimestamp env (scan_text env (r_timestamp r)) of
                        Inl _ \<Rightarrow> time_UTC (clock db)
                      | Inr ts \<Rightarrow> ts)\<rparr>"

text \<open>The part the two queries share: read the result set, reverse it, then look at \<open>rows.Err()\<close>.\<close>

definition collect_messages :: "sqlite_env \<Rightarrow> DB \<Rightarrow> msg_row list \<Rightarrow> (db_error, db_Message list) result" where
  "collect_messages env db rows =
     (case scan_rows (driver db) (read_row env db) 0 rows [] of
        Inl e \<Rightarrow> Inl e
      | Inr (ms, err) \<Rightarrow>
        let ms' = reverse_in_place ms in (case err of Some e \<Rightarrow> Inl e | None \<Rightarrow> Inr ms'))"

definition DB_GetRecentMessagesInRoomContext ::
  "sqlite_env \<Rightarrow> DB \<Rightarrow> string \<Rightarrow> int \<Rightarrow> (db_error, db_Message list) result" where
  "DB_GetRecentMessagesInRoomContext env db room0 limit =
     (case NormalizeRoom room0 of
        Inl e \<Rightarrow> Inl (RoomInvalid e)
      | Inr room \<Rightarrow>
        (case driver db of
           QueryFails e \<Rightarrow> Inl (DriverError e)
         | _ \<Rightarrow> collect_messages env db
             (sqlite_limit limit (sql_order_desc (row_pos env) (filter (\<lambda>r. r_room r = room) (messages db))))))"

definition DB_GetRecentMessagesInRoom ::
  "sqlite_env \<Rightarrow> DB \<Rightarrow> string \<Rightarrow> int \<Rightarrow> (db_error, db_Message list) result" where
  "DB_GetRecentMessagesInRoom env db room limit = DB_GetRecentMessagesInRoomContext env db room limit"

definition DB_GetRecentMessages :: "sqlite_env \<Rightarrow> DB \<Rightarrow> int \<Rightarrow> (db_error, db_Message list) result" where
  "DB_GetRecentMessages env db limit = DB_GetRecentMessagesInRoom env db DefaultRoom limit"

definition before_row :: "sqlite_env \<Rightarrow> gotime \<Rightarrow> int \<Rightarrow> msg_row \<Rightarrow> bool" where
  "before_row env before beforeID r \<longleftrightarrow>
     (let j = julianday env (r_timestamp r); b = julianday env (bind_time env (time_UTC before)) in
      sql_lt j b \<or> sql_eq j b \<and> r_id r < beforeID)"

definition DB_GetMessagesBeforeInRoomContext ::
  "sqlite_env \<Rightarrow> DB \<Rightarrow> string \<Rightarrow> gotime \<Rightarrow> int \<Rightarrow> int \<Rightarrow> (db_error, db_Message list) result" where
  "DB_GetMessagesBeforeInRoomContext env db room0 before beforeID limit =
     (case NormalizeRoom room0 of
        Inl e \<Rightarrow> Inl (RoomInvalid e)
      | Inr room \<Rightarrow>
        (case driver db of
           QueryFails e \<Rightarrow> Inl (DriverError e)
         | _ \<Rightarrow> collect_messages env db
             (sqlite_limit limit (sql_order_desc (row_pos env)
                (filter (\<lambda>r. r_room r = room \<and> before_row env before beforeID r) (messages db))))))"

definition DB_PingContext :: "DB \<Rightarrow> db_error option" where
  "DB_PingContext db = (case driver db of PingFails e \<Rightarrow> Some (DriverError e) | _ \<Rightarrow> None)"

text \<open>\<open>*DB\<close> as a \<open>Repository\<close>.\<close>

definition sqlite_repository :: "sqlite_env \<Rightarrow> DB Repository" where
  "sqlite_repository env =
     \<lparr>SaveMessageInRoomContext = DB_SaveMessageInRoomContext env,
      SaveMessageForUserInRoomContext = DB_SaveMessageForUserInRoomContext env,
      GetRecentMessagesInRoomContext = DB_GetRecentMessagesInRoomContext env,
      GetMessagesBeforeInRoomContext = DB_GetMessagesBeforeInRoomContext env,
      SaveModerationEventContext = DB_SaveModerationEventContext env,
      SaveModerationEventForUserContext = DB_SaveModerationEventForUserContext env,
      PruneMessagesBeforeContext = DB_PruneMessagesBeforeContext env,
      PruneModerationEventsBeforeContext = DB_PruneModerationEventsBeforeContext env,
      PingContext = DB_PingContext\<rparr>"

section \<open>What is relied on of the driver, and the state invariant\<close>

text \<open>
  The driver stores a UTC time as text that it hands back, on a scan into a string, in a form
  \<open>time.Parse(time.RFC3339Nano, \<dots>)\<close> reads as the same time; \<open>julianday\<close> is defined
  and monotone on that text; and it agrees on the RFC 3339 text that retention binds.
\<close>

definition sqlite_env_ok :: "sqlite_env \<Rightarrow> bool" where
  "sqlite_env_ok env \<longleftrightarrow>
     (\<forall>t. zone t = UTC \<longrightarrow> db_range t \<longrightarrow> time_Parse env RFC3339Nano (scan_text env (bind_time env t)) = Some t) \<and>
     (\<forall>t. db_range t \<longrightarrow> julianday env (bind_time env t) \<noteq> None) \<and>
     (\<forall>t u. db_range t \<longrightarrow> db_range u \<longrightarrow> instant t \<le> instant u \<longrightarrow> julianday env (bind_time env t) \<le> julianday env (bind_time env u)) \<and>
     (\<forall>t. db_range t \<longrightarrow> julianday env (format_RFC3339Nano env t) = julianday env (bind_time env t))"

definition row_ok :: "sqlite_env \<Rightarrow> int \<Rightarrow> msg_row \<Rightarrow> bool" where
  "row_ok env seq r \<longleftrightarrow> canonical_room (r_room r) \<and> 1 \<le> r_id r \<and> r_id r \<le> seq \<and>
     (\<exists>t. zone t = UTC \<and> \<not> IsZero t \<and> db_range t \<and> r_timestamp r = bind_time env t)"

definition sqlite_inv :: "sqlite_env \<Rightarrow> DB \<Rightarrow> bool" where
  "sqlite_inv env db \<longleftrightarrow> sqlite_env_ok env \<and> 0 \<le> messages_seq db \<and> \<not> IsZero (clock db) \<and> db_range (clock db) \<and>
     distinct (map r_id (messages db)) \<and> (\<forall>r \<in> set (messages db). row_ok env (messages_seq db) r)"

definition sqlite_quiet :: "DB \<Rightarrow> bool" where
  "sqlite_quiet db \<longleftrightarrow> driver db = NoFault"

definition sqlite_stamp :: "sqlite_env \<Rightarrow> gotime \<Rightarrow> int option" where
  "sqlite_stamp env t = julianday env (bind_time env t)"

definition sqlite_history :: "sqlite_env \<Rightarrow> DB \<Rightarrow> string \<Rightarrow> db_Message list" where
  "sqlite_history env db room =
     map (read_row env db) (sort_key (row_pos env) (filter (\<lambda>r. r_room r = room) (messages db)))"

lemma read_row_timestamp:
  assumes "sqlite_env_ok env" "zone t = UTC" "db_range t" "r_timestamp r = bind_time env t"
  shows "db_Timestamp (read_row env db r) = t"
  using assms by (simp add: read_row_def parseMsgTimestamp_def sqlite_env_ok_def)

lemma read_row_fields [simp]:
  "db_ID (read_row env db r) = r_id r" "db_Room (read_row env db r) = r_room r"
  by (simp_all add: read_row_def)

lemma read_row_pos:
  assumes "sqlite_env_ok env" "row_ok env seq r"
  shows "message_pos (sqlite_stamp env) (read_row env db r) = row_pos env r"
  using assms read_row_timestamp [OF assms(1)]
  by (fastforce simp: row_ok_def message_pos_def row_pos_def sqlite_stamp_def)

lemma stored_row_pos:
  "sqlite_inv env db \<Longrightarrow> r \<in> set (messages db) \<Longrightarrow>
     message_pos (sqlite_stamp env) (read_row env db r) = row_pos env r"
  using read_row_pos by (fastforce simp: sqlite_inv_def)

lemma before_row_pos:
  assumes "sqlite_env_ok env" "row_ok env seq r" "zone b = UTC" "db_range b"
  shows "before_row env b i r \<longleftrightarrow> row_pos env r < Position (sqlite_stamp env b) i"
proof -
  obtain x y where "julianday env (r_timestamp r) = Some x" "julianday env (bind_time env b) = Some y"
    using assms by (fastforce simp: sqlite_env_ok_def row_ok_def)
  then show ?thesis
    using assms(3) by (simp add: before_row_def row_pos_def less_position_def sqlite_stamp_def)
qed

lemma collect_messages_sound:
  "collect_messages env db rows = Inr ms \<Longrightarrow> ms = map (read_row env db) (rev rows)"
  by (auto simp: collect_messages_def reverse_in_place_rev rev_map Let_def
      dest: scan_rows_complete split: sum.splits option.splits prod.splits)

lemma collect_messages_quiet:
  "driver db = NoFault \<Longrightarrow> collect_messages env db rows = Inr (map (read_row env db) (rev rows))"
  by (simp add: collect_messages_def scan_rows_NoFault reverse_in_place_rev rev_map Let_def)

lemma DB_recent_sound:
  assumes "canonical_room room" "0 \<le> n" "DB_GetRecentMessagesInRoomContext env db room n = Inr ms"
  shows "ms = lastn (nat n) (sqlite_history env db room)"
proof -
  let ?rows = "sort_key (row_pos env) (filter (\<lambda>r. r_room r = room) (messages db))"
  have "collect_messages env db (take (nat n) (sql_order_desc (row_pos env)
      (filter (\<lambda>r. r_room r = room) (messages db)))) = Inr ms"
    using assms by (auto simp: DB_GetRecentMessagesInRoomContext_def room_simps sqlite_limit_def
        split: fault.splits)
  then have "ms = map (read_row env db) (lastn (nat n) ?rows)"
    by (auto simp flip: take_sql_order_desc dest: collect_messages_sound)
  then show ?thesis by (simp add: sqlite_history_def lastn_def drop_map)
qed

lemma DB_before_sound:
  assumes inv: "sqlite_inv env db" and room: "canonical_room room" and "0 \<le> n" "zone b = UTC" "db_range b"
    and res: "DB_GetMessagesBeforeInRoomContext env db room b i n = Inr ms"
  shows "ms = lastn (nat n) (filter (\<lambda>m. message_pos (sqlite_stamp env) m < Position (sqlite_stamp env b) i)
    (sqlite_history env db room))"
proof -
  let ?in = "filter (\<lambda>r. r_room r = room) (messages db)"
  let ?p = "\<lambda>r. row_pos env r < Position (sqlite_stamp env b) i"
  let ?q = "\<lambda>m. message_pos (sqlite_stamp env) m < Position (sqlite_stamp env b) i"
  have ok: "sqlite_env_ok env" and rows: "\<forall>r \<in> set (messages db). row_ok env (messages_seq db) r"
    using inv by (auto simp: sqlite_inv_def)
  have "filter (\<lambda>r. r_room r = room \<and> before_row env b i r) (messages db) = filter ?p ?in"
    using rows before_row_pos [OF ok _ assms(4,5)] by (auto simp: conj_commute intro!: filter_cong)
  then have "collect_messages env db (take (nat n) (sql_order_desc (row_pos env) (filter ?p ?in))) = Inr ms"
    using res room \<open>0 \<le> n\<close> by (auto simp: DB_GetMessagesBeforeInRoomContext_def room_simps sqlite_limit_def
        split: fault.splits)
  then have "ms = map (read_row env db) (lastn (nat n) (filter ?p (sort_key (row_pos env) ?in)))"
    unfolding filter_sort_key by (auto simp flip: take_sql_order_desc dest: collect_messages_sound)
  moreover have "filter ?q (sqlite_history env db room) =
      map (read_row env db) (filter ?p (sort_key (row_pos env) ?in))"
    using stored_row_pos [OF inv]
    by (auto simp: sqlite_history_def filter_map o_def intro!: arg_cong [where f = "map _"] filter_cong)
  ultimately show ?thesis by (simp add: lastn_def drop_map)
qed

text \<open>Any boundary selects some part of the history, one the engine cannot order included.\<close>

lemma DB_before_part:
  assumes inv: "sqlite_inv env db" and "canonical_room room" "0 \<le> n"
    and res: "DB_GetMessagesBeforeInRoomContext env db room b i n = Inr ms"
  shows "\<exists>P. ms = lastn (nat n) (filter P (sqlite_history env db room))"
proof -
  let ?in = "filter (\<lambda>r. r_room r = room) (messages db)"
  let ?rows = "sort_key (row_pos env) ?in"
  have "filter (\<lambda>r. r_room r = room \<and> before_row env b i r) (messages db) = filter (before_row env b i) ?in"
    by (simp add: conj_commute)
  then have "collect_messages env db (take (nat n) (sql_order_desc (row_pos env) (filter (before_row env b i) ?in))) = Inr ms"
    using res assms(2,3) by (auto simp: DB_GetMessagesBeforeInRoomContext_def room_simps sqlite_limit_def split: fault.splits)
  then have "ms = map (read_row env db) (lastn (nat n) (filter (before_row env b i) ?rows))"
    unfolding filter_sort_key by (auto simp flip: take_sql_order_desc dest: collect_messages_sound)
  then have ms: "ms = lastn (nat n) (map (read_row env db) (filter (before_row env b i) ?rows))"
    by (simp add: lastn_def drop_map)
  have "inj_on r_id (set (messages db))" using inv by (simp add: sqlite_inv_def distinct_map)
  then have "inj_on (read_row env db) (set ?rows)"
    unfolding inj_on_def by (metis filter_is_subset read_row_fields(1) set_sort subsetD)
  from map_filter_inj [OF this, of "before_row env b i"] show ?thesis unfolding sqlite_history_def ms
    by (intro exI) (rule arg_cong [where f = "lastn (nat n)"])
qed

lemma sqlite_history_sorted:
  assumes "sqlite_inv env db"
  shows "sorted_wrt (\<lambda>a b. message_pos (sqlite_stamp env) a < message_pos (sqlite_stamp env) b)
    (sqlite_history env db room)"
proof -
  let ?in = "filter (\<lambda>r. r_room r = room) (messages db)"
  have "distinct (map r_id ?in)"
    using assms by (simp add: sqlite_inv_def distinct_map_filter)
  then have "distinct (map pos_id (map (row_pos env) ?in))"
    by (simp add: row_pos_def o_def)
  then have "distinct (map (row_pos env) ?in)" by (metis distinct_map)
  then have s: "sorted_wrt (\<lambda>a b. row_pos env a < row_pos env b) (sort_key (row_pos env) ?in)"
    by (rule sort_key_strict)
  show ?thesis
    unfolding sqlite_history_def sorted_wrt_map
    using s by (rule sorted_wrt_mono_rel [rotated]) (simp add: stored_row_pos [OF assms])
qed

lemma sqlite_history_row:
  assumes "sqlite_inv env db" "m \<in> set (sqlite_history env db room)"
  shows "db_Room m = room \<and> canonical_room room \<and> 1 \<le> db_ID m \<and> \<not> IsZero (db_Timestamp m) \<and>
    zone (db_Timestamp m) = UTC \<and> db_range (db_Timestamp m)"
proof -
  obtain r where r: "r \<in> set (messages db)" "r_room r = room" "m = read_row env db r"
    using assms(2) by (auto simp: sqlite_history_def)
  then have ok: "row_ok env (messages_seq db) r" "sqlite_env_ok env" using assms(1) by (auto simp: sqlite_inv_def)
  then obtain t where "zone t = UTC" "\<not> IsZero t" "db_range t" "r_timestamp r = bind_time env t"
    by (auto simp: row_ok_def)
  with ok r read_row_timestamp [of env t r db] show ?thesis by (auto simp: row_ok_def)
qed

interpretation sqlite_reader: history_reader "sqlite_repository env" "sqlite_inv env" sqlite_quiet
  "sqlite_history env" "sqlite_stamp env" for env
proof (unfold_locales, goal_cases)
  case (1 s room n ms)
  then show ?case by (intro DB_recent_sound) (simp_all add: sqlite_repository_def)
next
  case (2 s room n)
  then show ?case
    by (simp add: sqlite_repository_def DB_GetRecentMessagesInRoomContext_def room_simps sqlite_quiet_def
        collect_messages_quiet)
next
  case (3 s room n t i ms)
  then show ?case by (intro DB_before_sound) (simp_all add: sqlite_repository_def)
next
  case (4 s room n t i)
  then show ?case
    by (simp add: sqlite_repository_def DB_GetMessagesBeforeInRoomContext_def room_simps sqlite_quiet_def
        collect_messages_quiet)
next
  case (5 s room)
  then show ?case by (rule sqlite_history_sorted)
next
  case (6 s m room)
  then show ?case by (rule sqlite_history_row)
next
  case (7 s room n t i ms)
  then show ?case by (intro DB_before_part) (simp_all add: sqlite_repository_def)
qed

section \<open>Saving\<close>

lemma read_row_clock: "clock db' = clock db \<Longrightarrow> read_row env db' r = read_row env db r"
  by (simp add: read_row_def split: sum.split)

definition new_row :: "sqlite_env \<Rightarrow> DB \<Rightarrow> string \<Rightarrow> string \<Rightarrow> string \<Rightarrow> string \<Rightarrow> string \<Rightarrow> msg_row" where
  "new_row env db room u n c t =
     \<lparr>r_id = messages_seq db + 1, r_room = room, r_user_id = u, r_username = n, r_content = c, r_type = t,
      r_timestamp = bind_time env (time_UTC (clock db))\<rparr>"

definition add_row :: "DB \<Rightarrow> msg_row \<Rightarrow> DB" where
  "add_row db r = db\<lparr>messages := messages db @ [r], messages_seq := messages_seq db + 1\<rparr>"

text \<open>Every outcome of a save: an error or the handshake, with the tables unchanged, or a new row.\<close>

lemma DB_save_cases:
  assumes "DB_SaveMessageForUserInRoomContext env db room0 u n c t = (r, db')"
  obtains (same) "db' = db" "is_ok r \<Longrightarrow> t = ''username''"
  | (stored) room where "NormalizeRoom room0 = Inr room" "t \<noteq> ''username''"
      "db' = add_row db (new_row env db room u n c t)"
      "is_ok r \<Longrightarrow> r = Inr \<lparr>db_ID = messages_seq db + 1, db_UserID = u, db_Username = n, db_Content = c,
         db_Type = t, db_Room = room, db_Timestamp = time_UTC (clock db)\<rparr>"
  using assms
  by (auto simp: DB_SaveMessageForUserInRoomContext_def add_row_def new_row_def Let_def
      split: sum.splits if_splits fault.splits)

lemma DB_save_result:
  assumes "DB_SaveMessageForUserInRoomContext env db room u n c t = (Inr m, db')"
  shows "NormalizeRoom room = Inr (db_Room m) \<and> db_UserID m = u \<and> db_Username m = n \<and> db_Content m = c \<and>
    db_Type m = t \<and> zone (db_Timestamp m) = UTC"
  using assms
  by (auto simp: DB_SaveMessageForUserInRoomContext_def Let_def split: sum.splits if_splits fault.splits)

lemma row_ok_mono: "row_ok env a r \<Longrightarrow> a \<le> b \<Longrightarrow> row_ok env b r"
  by (auto simp: row_ok_def)

lemma new_row_ok:
  "sqlite_inv env db \<Longrightarrow> canonical_room room \<Longrightarrow> row_ok env (messages_seq db + 1) (new_row env db room u n c t)"
  by (auto simp: row_ok_def new_row_def sqlite_inv_def IsZero_def intro!: exI [of _ "time_UTC (clock db)"])

lemma add_row_inv [inv_intros]:
  assumes "sqlite_inv env db" "canonical_room room"
  shows "sqlite_inv env (add_row db (new_row env db room u n c t))"
proof -
  have "\<forall>r \<in> set (messages db). r_id r \<le> messages_seq db"
    using assms(1) by (simp add: sqlite_inv_def row_ok_def)
  then have "messages_seq db + 1 \<notin> r_id ` set (messages db)" by force
  then show ?thesis
    using assms new_row_ok [OF assms]
    by (auto simp: sqlite_inv_def add_row_def new_row_def intro: row_ok_mono)
qed

lemma DB_save_inv:
  assumes "sqlite_inv env db" "DB_SaveMessageForUserInRoomContext env db room u n c t = (r, db')"
  shows "sqlite_inv env db'"
  using assms(2) by (cases rule: DB_save_cases) (auto simp: assms(1) intro: add_row_inv NormalizeRoom_canonical)

lemma add_row_history_set:
  "set (sqlite_history env (add_row db r) rm) =
     (if r_room r = rm then insert (read_row env db r) (set (sqlite_history env db rm))
      else set (sqlite_history env db rm))"
  using read_row_clock [of "add_row db r" db env] by (auto simp: sqlite_history_def add_row_def)

lemma add_row_history_other:
  "r_room r \<noteq> rm \<Longrightarrow> sqlite_history env (add_row db r) rm = sqlite_history env db rm"
  using read_row_clock [of "add_row db r" db env] by (simp add: sqlite_history_def add_row_def)

text \<open>The durable history of its room gains one message, whose identifier is above every stored one.\<close>

definition adds_message :: "sqlite_env \<Rightarrow> DB \<Rightarrow> DB \<Rightarrow> db_Message \<Rightarrow> bool" where
  "adds_message env db db' m \<longleftrightarrow>
     set (sqlite_history env db' (db_Room m)) = insert m (set (sqlite_history env db (db_Room m))) \<and>
     (\<forall>rm. \<forall>x \<in> set (sqlite_history env db rm). db_ID x < db_ID m)"

lemma new_row_adds:
  assumes inv: "sqlite_inv env db"
    and m: "m = \<lparr>db_ID = messages_seq db + 1, db_UserID = u, db_Username = n, db_Content = c,
         db_Type = t, db_Room = room, db_Timestamp = time_UTC (clock db)\<rparr>"
  shows "adds_message env db (add_row db (new_row env db room u n c t)) m"
proof -
  have "db_Timestamp (read_row env db (new_row env db room u n c t)) = time_UTC (clock db)"
    using inv by (intro read_row_timestamp) (simp_all add: sqlite_inv_def new_row_def)
  then have "read_row env db (new_row env db room u n c t) = m"
    by (simp add: read_row_def new_row_def m)
  moreover have "r_room (new_row env db room u n c t) = db_Room m" by (simp add: new_row_def m)
  moreover have "db_ID x < db_ID m" if "x \<in> set (sqlite_history env db rm)" for x rm
    using that inv by (auto simp: sqlite_history_def sqlite_inv_def row_ok_def m)
  ultimately show ?thesis using add_row_history_set [of env db "new_row env db room u n c t" "db_Room m"]
    by (simp add: adds_message_def)
qed

lemma DB_save_adds:
  assumes inv: "sqlite_inv env db" and "t \<noteq> ''username''"
    and save: "DB_SaveMessageForUserInRoomContext env db room0 u n c t = (Inr m, db')"
  shows "adds_message env db db' m"
  using save by (cases rule: DB_save_cases) (use assms(2) new_row_adds [OF inv] in auto)

text \<open>A save that reports an error has changed nothing, or stored the message without learning its identifier.\<close>

lemma DB_save_fails:
  assumes inv: "sqlite_inv env db"
    and save: "DB_SaveMessageForUserInRoomContext env db room0 u n c t = (Inl err, db')"
  shows "db' = db \<or> (\<exists>m. NormalizeRoom room0 = Inr (db_Room m) \<and> adds_message env db db' m)"
  using save
proof (cases rule: DB_save_cases)
  case (stored room)
  then show ?thesis using new_row_adds [OF inv refl, where u = u and n = n and c = c and t = t and room = room]
    by (intro disjI2 exI conjI) auto
qed simp

lemma DB_save_other:
  assumes "DB_SaveMessageForUserInRoomContext env db room0 u n c t = (r, db')" "NormalizeRoom room0 \<noteq> Inr rm"
  shows "sqlite_history env db' rm = sqlite_history env db rm"
  using assms(1)
proof (cases rule: DB_save_cases)
  case (stored room)
  then have "r_room (new_row env db room u n c t) \<noteq> rm" using assms(2) by (simp add: new_row_def)
  then show ?thesis using stored by (simp add: add_row_history_other)
qed simp

lemma DB_audit_frame:
  assumes "DB_SaveModerationEventForUserContext env db sid u n rsn c = (ev, db')"
  shows "messages db' = messages db \<and> messages_seq db' = messages_seq db \<and> clock db' = clock db"
  using assms
  by (auto simp: DB_SaveModerationEventForUserContext_def Let_def split: fault.splits)

interpretation sqlite_writer: history_writer "sqlite_repository env" "sqlite_inv env" sqlite_quiet
  "sqlite_history env" "sqlite_stamp env" for env
proof (unfold_locales, goal_cases)
  case (1 s room u n c t m s')
  then show ?case by (intro DB_save_result) (simp add: sqlite_repository_def)
next
  case (2 s room u n c t r s')
  then show ?case using DB_save_inv by (simp add: sqlite_repository_def)
next
  case (3 s t room u n c m s')
  then have "adds_message env s s' m" by (intro DB_save_adds) (simp_all add: sqlite_repository_def)
  then show ?case by (simp add: adds_message_def)
next
  case (4 s room u n c t r s' rm)
  then show ?case by (intro DB_save_other) (simp_all add: sqlite_repository_def)
next
  case (5 s room u n c r s')
  then show ?case by (auto simp: sqlite_repository_def DB_SaveMessageForUserInRoomContext_def split: sum.splits)
next
  case (6 s sid u n rsn c ev s')
  then have f: "messages s' = messages s \<and> messages_seq s' = messages_seq s \<and> clock s' = clock s"
    by (intro DB_audit_frame) (simp add: sqlite_repository_def)
  with 6 read_row_clock [of s' s] show ?case
    by (auto simp: sqlite_inv_def sqlite_history_def fun_eq_iff)
qed

section \<open>Retention and audit\<close>

text \<open>
  Retention removes exactly the rows whose stored timestamp the engine orders before the
  cutoff, reports how many, and keeps every row that is not older than the cutoff.
\<close>

lemma DB_prune_result:
  assumes "DB_PruneMessagesBeforeContext env db cutoff = (Inr k, db')"
  shows "messages db' = filter (\<lambda>r. \<not> sql_lt (julianday env (r_timestamp r))
      (julianday env (format_RFC3339Nano env (time_UTC cutoff)))) (messages db) \<and>
    k = int (length (messages db)) - int (length (messages db'))"
  using assms sum_length_filter_compl [of "\<lambda>r. sql_lt (julianday env (r_timestamp r))
      (julianday env (format_RFC3339Nano env (time_UTC cutoff)))" "messages db"]
  by (auto simp: DB_PruneMessagesBeforeContext_def Let_def split: fault.splits)

lemma DB_prune_inv:
  assumes "sqlite_inv env db" "DB_PruneMessagesBeforeContext env db cutoff = (r, db')"
  shows "sqlite_inv env db'"
  using assms
  by (auto simp: DB_PruneMessagesBeforeContext_def sqlite_inv_def Let_def distinct_map_filter split: fault.splits)

lemma prune_keeps_recent:
  assumes "sqlite_env_ok env" "db_range cutoff" "db_range t" "instant cutoff \<le> instant t" "r_timestamp r = bind_time env t"
  shows "\<not> sql_lt (julianday env (r_timestamp r)) (julianday env (format_RFC3339Nano env (time_UTC cutoff)))"
proof -
  have "julianday env (bind_time env (time_UTC cutoff)) \<le> julianday env (bind_time env t)"
    using assms by (simp add: sqlite_env_ok_def)
  moreover have "julianday env (format_RFC3339Nano env (time_UTC cutoff)) =
      julianday env (bind_time env (time_UTC cutoff))"
    using assms(1,2) by (simp add: sqlite_env_ok_def)
  ultimately show ?thesis using assms(5) by (auto simp: sql_lt_def split: option.splits)
qed

lemma prune_row:
  assumes "sqlite_env_ok env" "db_range cutoff" "row_ok env seq r"
  shows "sql_lt (julianday env (r_timestamp r)) (julianday env (format_RFC3339Nano env (time_UTC cutoff))) \<longleftrightarrow>
    sqlite_stamp env (db_Timestamp (read_row env db r)) < sqlite_stamp env (time_UTC cutoff)"
proof -
  obtain t where t: "zone t = UTC" "db_range t" "r_timestamp r = bind_time env t" using assms(3) by (auto simp: row_ok_def)
  have ts: "db_Timestamp (read_row env db r) = t" by (rule read_row_timestamp [OF assms(1) t])
  have "db_range (time_UTC cutoff)" using assms(2) by simp
  then obtain x y where "julianday env (bind_time env t) = Some x" "julianday env (bind_time env (time_UTC cutoff)) = Some y"
    "julianday env (format_RFC3339Nano env (time_UTC cutoff)) = Some y"
    using assms(1) t(2) by (fastforce simp: sqlite_env_ok_def)
  then show ?thesis using t(3) ts by (simp add: sqlite_stamp_def)
qed

text \<open>In every room, exactly the messages the engine orders before the cutoff are gone.\<close>

lemma DB_prune_history:
  assumes inv: "sqlite_inv env db" and "db_range cutoff" "DB_PruneMessagesBeforeContext env db cutoff = (Inr k, db')"
  shows "sqlite_history env db' room =
    filter (\<lambda>m. sqlite_stamp env (time_UTC cutoff) \<le> sqlite_stamp env (db_Timestamp m)) (sqlite_history env db room)"
proof -
  let ?kept = "\<lambda>r. \<not> sql_lt (julianday env (r_timestamp r)) (julianday env (format_RFC3339Nano env (time_UTC cutoff)))"
  let ?rows = "sort_key (row_pos env) (filter (\<lambda>r. r_room r = room) (messages db))"
  have "clock db' = clock db"
    using assms(3) by (auto simp: DB_PruneMessagesBeforeContext_def Let_def split: fault.splits)
  then have "sqlite_history env db' room = map (read_row env db) (filter ?kept ?rows)"
    using DB_prune_result [OF assms(3)] read_row_clock [of db' db env]
    by (simp add: sqlite_history_def filter_sort_key conj_commute)
  moreover have kept: "?kept r \<longleftrightarrow> sqlite_stamp env (time_UTC cutoff) \<le> sqlite_stamp env (db_Timestamp (read_row env db r))"
    if "r \<in> set ?rows" for r
    using prune_row [of env cutoff "messages_seq db" r db] that inv assms(2) by (auto simp: sqlite_inv_def not_less)
  then have "filter ?kept ?rows =
      filter (\<lambda>r. sqlite_stamp env (time_UTC cutoff) \<le> sqlite_stamp env (db_Timestamp (read_row env db r))) ?rows"
    by (rule filter_cong [OF refl])
  ultimately show ?thesis by (simp only: sqlite_history_def filter_map o_def)
qed

lemma sqlite_history_distinct: "sqlite_inv env db \<Longrightarrow> distinct (map db_ID (sqlite_history env db room))"
proof -
  assume "sqlite_inv env db"
  then have "distinct (map r_id (filter (\<lambda>r. r_room r = room) (messages db)))"
    by (simp add: sqlite_inv_def distinct_map_filter)
  then have "distinct (map r_id (sort_key (row_pos env) (filter (\<lambda>r. r_room r = room) (messages db))))"
    by (metis distinct_map distinct_sort set_sort)
  then show ?thesis by (simp add: sqlite_history_def o_def)
qed

end
