(* ===== verification/Postgres.thy ===== *)
theory Postgres
  imports Repository
begin

text \<open>
  The Postgres backend, \<open>db/postgres.go\<close>. A \<open>TIMESTAMPTZ\<close> is a count of microseconds
  in the engine; how the driver turns a \<open>time.Time\<close> into one and back is a parameter
  (\<open>pg_env\<close>). Identifiers come from an identity sequence that other sessions and rolled
  back inserts share, so it may skip values; the insert's timestamp is the engine's
  \<open>CURRENT_TIMESTAMP\<close>.
\<close>

section \<open>State\<close>

record pg_row =
  p_id :: int
  p_room :: string
  p_user_id :: string
  p_username :: string
  p_content :: string
  p_type :: string
  p_timestamp :: int

record pg_audit_row =
  pa_id :: int
  pa_session_id :: string
  pa_user_id :: string
  pa_username :: string
  pa_reason :: string
  pa_content_preview :: string
  pa_content_length :: int
  pa_timestamp :: int

record PostgresDB =
  pg_messages :: "pg_row list"
  pg_seq :: int
  pg_skip :: nat
  pg_audit_log :: "pg_audit_row list"
  pg_audit_seq :: int
  pg_now :: int
  pg_clock :: gotime
  pg_driver :: fault

record pg_env =
  encode_ts :: "gotime \<Rightarrow> int"
  decode_ts :: "int \<Rightarrow> gotime"

section \<open>Saving messages\<close>

definition PostgresDB_SaveMessageForUserInRoomContext ::
  "pg_env \<Rightarrow> PostgresDB \<Rightarrow> string \<Rightarrow> string \<Rightarrow> string \<Rightarrow> string \<Rightarrow> string \<Rightarrow>
     (db_error, db_Message) result \<times> PostgresDB" where
  "PostgresDB_SaveMessageForUserInRoomContext env db room0 userID username content msgType =
     (case NormalizeRoom room0 of
        Inl e \<Rightarrow> (Inl (RoomInvalid e), db)
      | Inr room \<Rightarrow>
        if msgType = ''username'' then
          (Inr \<lparr>db_ID = 0, db_UserID = userID, db_Username = username, db_Content = content,
                db_Type = msgType, db_Room = room, db_Timestamp = time_UTC (pg_clock db)\<rparr>, db)
        else
          (let id = pg_seq db + 1 + int (pg_skip db);
               row = \<lparr>p_id = id, p_room = room, p_user_id = userID, p_username = username,
                      p_content = content, p_type = msgType, p_timestamp = pg_now db\<rparr>;
               advanced = db\<lparr>pg_seq := id\<rparr>;
               stored = advanced\<lparr>pg_messages := pg_messages db @ [row]\<rparr>
           in case pg_driver db of
                QueryFails e \<Rightarrow> (Inl (DriverError e), db)
              | ReturningFails e applied \<Rightarrow> (Inl (DriverError e), if applied then stored else advanced)
              | _ \<Rightarrow>
                (Inr \<lparr>db_ID = id, db_UserID = userID, db_Username = username, db_Content = content,
                      db_Type = msgType, db_Room = room,
                      db_Timestamp = time_UTC (decode_ts env (pg_now db))\<rparr>, stored)))"

definition PostgresDB_SaveMessageInRoomContext ::
  "pg_env \<Rightarrow> PostgresDB \<Rightarrow> string \<Rightarrow> string \<Rightarrow> string \<Rightarrow> string \<Rightarrow>
     (db_error, db_Message) result \<times> PostgresDB" where
  "PostgresDB_SaveMessageInRoomContext env db room username content msgType =
     PostgresDB_SaveMessageForUserInRoomContext env db room [] username content msgType"

definition PostgresDB_SaveMessageInRoom ::
  "pg_env \<Rightarrow> PostgresDB \<Rightarrow> string \<Rightarrow> string \<Rightarrow> string \<Rightarrow> string \<Rightarrow>
     (db_error, db_Message) result \<times> PostgresDB" where
  "PostgresDB_SaveMessageInRoom env db room username content msgType =
     PostgresDB_SaveMessageInRoomContext env db room username content msgType"

definition PostgresDB_SaveMessage ::
  "pg_env \<Rightarrow> PostgresDB \<Rightarrow> string \<Rightarrow> string \<Rightarrow> string \<Rightarrow> (db_error, db_Message) result \<times> PostgresDB" where
  "PostgresDB_SaveMessage env db username content msgType =
     PostgresDB_SaveMessageInRoom env db DefaultRoom username content msgType"

section \<open>Retention\<close>

definition PostgresDB_PruneMessagesBeforeContext ::
  "pg_env \<Rightarrow> PostgresDB \<Rightarrow> gotime \<Rightarrow> (db_error, int) result \<times> PostgresDB" where
  "PostgresDB_PruneMessagesBeforeContext env db cutoff =
     (let old = (\<lambda>r. p_timestamp r < encode_ts env (time_UTC cutoff)) in
      case pg_driver db of
        ExecFails e \<Rightarrow> (Inl (DriverError e), db)
      | _ \<Rightarrow> (Inr (int (length (filter old (pg_messages db)))),
              db\<lparr>pg_messages := filter (\<lambda>r. \<not> old r) (pg_messages db)\<rparr>))"

definition PostgresDB_PruneMessagesBefore ::
  "pg_env \<Rightarrow> PostgresDB \<Rightarrow> gotime \<Rightarrow> (db_error, int) result \<times> PostgresDB" where
  "PostgresDB_PruneMessagesBefore env db cutoff = PostgresDB_PruneMessagesBeforeContext env db cutoff"

definition PostgresDB_PruneModerationEventsBeforeContext ::
  "pg_env \<Rightarrow> PostgresDB \<Rightarrow> gotime \<Rightarrow> (db_error, int) result \<times> PostgresDB" where
  "PostgresDB_PruneModerationEventsBeforeContext env db cutoff =
     (let old = (\<lambda>r. pa_timestamp r < encode_ts env (time_UTC cutoff)) in
      case pg_driver db of
        ExecFails e \<Rightarrow> (Inl (DriverError e), db)
      | _ \<Rightarrow> (Inr (int (length (filter old (pg_audit_log db)))),
              db\<lparr>pg_audit_log := filter (\<lambda>r. \<not> old r) (pg_audit_log db)\<rparr>))"

definition PostgresDB_PruneModerationEventsBefore ::
  "pg_env \<Rightarrow> PostgresDB \<Rightarrow> gotime \<Rightarrow> (db_error, int) result \<times> PostgresDB" where
  "PostgresDB_PruneModerationEventsBefore env db cutoff =
     PostgresDB_PruneModerationEventsBeforeContext env db cutoff"

section \<open>Moderation audit\<close>

definition PostgresDB_SaveModerationEventForUserContext ::
  "pg_env \<Rightarrow> PostgresDB \<Rightarrow> string \<Rightarrow> string \<Rightarrow> string \<Rightarrow> string \<Rightarrow> string \<Rightarrow>
     (db_error, ModerationEvent) result \<times> PostgresDB" where
  "PostgresDB_SaveModerationEventForUserContext env db sessionID userID username reason content =
     (let id = pg_audit_seq db + 1 + int (pg_skip db);
          preview = truncateRunes content maxAuditPreviewRunes;
          len = int (RuneCountInString content);
          row = \<lparr>pa_id = id, pa_session_id = sessionID, pa_user_id = userID, pa_username = username,
                 pa_reason = reason, pa_content_preview = preview, pa_content_length = len,
                 pa_timestamp = pg_now db\<rparr>;
          advanced = db\<lparr>pg_audit_seq := id\<rparr>;
          stored = advanced\<lparr>pg_audit_log := pg_audit_log db @ [row]\<rparr>
      in case pg_driver db of
           QueryFails e \<Rightarrow> (Inl (DriverError e), db)
         | ReturningFails e applied \<Rightarrow> (Inl (DriverError e), if applied then stored else advanced)
         | _ \<Rightarrow>
           (Inr \<lparr>ev_ID = id, ev_SessionID = sessionID, ev_UserID = userID, ev_Username = username,
                 ev_Reason = reason, ev_ContentPreview = preview, ev_ContentLength = len,
                 ev_Timestamp = time_UTC (decode_ts env (pg_now db))\<rparr>, stored))"

definition PostgresDB_SaveModerationEventContext ::
  "pg_env \<Rightarrow> PostgresDB \<Rightarrow> string \<Rightarrow> string \<Rightarrow> string \<Rightarrow> string \<Rightarrow>
     (db_error, ModerationEvent) result \<times> PostgresDB" where
  "PostgresDB_SaveModerationEventContext env db sessionID username reason content =
     PostgresDB_SaveModerationEventForUserContext env db sessionID [] username reason content"

definition PostgresDB_SaveModerationEvent ::
  "pg_env \<Rightarrow> PostgresDB \<Rightarrow> string \<Rightarrow> string \<Rightarrow> string \<Rightarrow> string \<Rightarrow>
     (db_error, ModerationEvent) result \<times> PostgresDB" where
  "PostgresDB_SaveModerationEvent env db sessionID username reason content =
     PostgresDB_SaveModerationEventContext env db sessionID username reason content"

section \<open>History queries\<close>

definition pg_row_pos :: "pg_row \<Rightarrow> position" where
  "pg_row_pos r = Position (Some (p_timestamp r)) (p_id r)"

definition pg_read_row :: "pg_env \<Rightarrow> pg_row \<Rightarrow> db_Message" where
  "pg_read_row env r =
     \<lparr>db_ID = p_id r, db_UserID = p_user_id r, db_Username = p_username r, db_Content = p_content r,
      db_Type = p_type r, db_Room = p_room r, db_Timestamp = time_UTC (decode_ts env (p_timestamp r))\<rparr>"

text \<open>Here \<open>rows.Err()\<close> is looked at before the reversal; a negative \<open>LIMIT\<close> is an error.\<close>

definition pg_collect_messages ::
  "pg_env \<Rightarrow> PostgresDB \<Rightarrow> int \<Rightarrow> pg_row list \<Rightarrow> (db_error, db_Message list) result" where
  "pg_collect_messages env db limit rows =
     (if limit < 0 then Inl (DriverError ''LIMIT must not be negative'')
      else case scan_rows (pg_driver db) (pg_read_row env) 0 (take (nat limit) rows) [] of
             Inl e \<Rightarrow> Inl e
           | Inr (ms, Some e) \<Rightarrow> Inl e
           | Inr (ms, None) \<Rightarrow> Inr (reverse_in_place ms))"

definition PostgresDB_GetRecentMessagesInRoomContext ::
  "pg_env \<Rightarrow> PostgresDB \<Rightarrow> string \<Rightarrow> int \<Rightarrow> (db_error, db_Message list) result" where
  "PostgresDB_GetRecentMessagesInRoomContext env db room0 limit =
     (case NormalizeRoom room0 of
        Inl e \<Rightarrow> Inl (RoomInvalid e)
      | Inr room \<Rightarrow>
        (case pg_driver db of
           QueryFails e \<Rightarrow> Inl (DriverError e)
         | _ \<Rightarrow> pg_collect_messages env db limit
             (sql_order_desc pg_row_pos (filter (\<lambda>r. p_room r = room) (pg_messages db)))))"

definition PostgresDB_GetRecentMessagesInRoom ::
  "pg_env \<Rightarrow> PostgresDB \<Rightarrow> string \<Rightarrow> int \<Rightarrow> (db_error, db_Message list) result" where
  "PostgresDB_GetRecentMessagesInRoom env db room limit =
     PostgresDB_GetRecentMessagesInRoomContext env db room limit"

definition PostgresDB_GetRecentMessages ::
  "pg_env \<Rightarrow> PostgresDB \<Rightarrow> int \<Rightarrow> (db_error, db_Message list) result" where
  "PostgresDB_GetRecentMessages env db limit = PostgresDB_GetRecentMessagesInRoom env db DefaultRoom limit"

definition PostgresDB_GetMessagesBeforeInRoomContext ::
  "pg_env \<Rightarrow> PostgresDB \<Rightarrow> string \<Rightarrow> gotime \<Rightarrow> int \<Rightarrow> int \<Rightarrow> (db_error, db_Message list) result" where
  "PostgresDB_GetMessagesBeforeInRoomContext env db room0 before beforeID limit =
     (case NormalizeRoom room0 of
        Inl e \<Rightarrow> Inl (RoomInvalid e)
      | Inr room \<Rightarrow>
        (case pg_driver db of
           QueryFails e \<Rightarrow> Inl (DriverError e)
         | _ \<Rightarrow> pg_collect_messages env db limit
             (sql_order_desc pg_row_pos
               (filter (\<lambda>r. p_room r = room \<and>
                    (let b = encode_ts env (time_UTC before) in
                     p_timestamp r < b \<or> p_timestamp r = b \<and> p_id r < beforeID)) (pg_messages db)))))"

definition PostgresDB_PingContext :: "PostgresDB \<Rightarrow> db_error option" where
  "PostgresDB_PingContext db = (case pg_driver db of PingFails e \<Rightarrow> Some (DriverError e) | _ \<Rightarrow> None)"

text \<open>\<open>*PostgresDB\<close> as a \<open>Repository\<close>.\<close>

definition postgres_repository :: "pg_env \<Rightarrow> PostgresDB Repository" where
  "postgres_repository env =
     \<lparr>SaveMessageInRoomContext = PostgresDB_SaveMessageInRoomContext env,
      SaveMessageForUserInRoomContext = PostgresDB_SaveMessageForUserInRoomContext env,
      GetRecentMessagesInRoomContext = PostgresDB_GetRecentMessagesInRoomContext env,
      GetMessagesBeforeInRoomContext = PostgresDB_GetMessagesBeforeInRoomContext env,
      SaveModerationEventContext = PostgresDB_SaveModerationEventContext env,
      SaveModerationEventForUserContext = PostgresDB_SaveModerationEventForUserContext env,
      PruneMessagesBeforeContext = PostgresDB_PruneMessagesBeforeContext env,
      PruneModerationEventsBeforeContext = PostgresDB_PruneModerationEventsBeforeContext env,
      PingContext = PostgresDB_PingContext\<rparr>"

section \<open>What is relied on of the driver, and the state invariant\<close>

text \<open>A stored timestamp, read and bound again, is the same count of microseconds.\<close>

definition pg_env_ok :: "pg_env \<Rightarrow> bool" where
  "pg_env_ok env \<longleftrightarrow> (\<forall>p. db_range (decode_ts env p) \<longrightarrow> encode_ts env (time_UTC (decode_ts env p)) = p) \<and>
     (\<forall>t u. db_range t \<longrightarrow> db_range u \<longrightarrow> instant t \<le> instant u \<longrightarrow> encode_ts env t \<le> encode_ts env u)"

definition pg_row_ok :: "pg_env \<Rightarrow> int \<Rightarrow> pg_row \<Rightarrow> bool" where
  "pg_row_ok env seq r \<longleftrightarrow> canonical_room (p_room r) \<and> 1 \<le> p_id r \<and> p_id r \<le> seq \<and>
     \<not> IsZero (decode_ts env (p_timestamp r)) \<and> db_range (decode_ts env (p_timestamp r))"

definition pg_inv :: "pg_env \<Rightarrow> PostgresDB \<Rightarrow> bool" where
  "pg_inv env db \<longleftrightarrow> pg_env_ok env \<and> 0 \<le> pg_seq db \<and> \<not> IsZero (decode_ts env (pg_now db)) \<and> db_range (decode_ts env (pg_now db)) \<and>
     distinct (map p_id (pg_messages db)) \<and> (\<forall>r \<in> set (pg_messages db). pg_row_ok env (pg_seq db) r)"

definition pg_quiet :: "PostgresDB \<Rightarrow> bool" where
  "pg_quiet db \<longleftrightarrow> pg_driver db = NoFault"

definition pg_stamp :: "pg_env \<Rightarrow> gotime \<Rightarrow> int option" where
  "pg_stamp env t = Some (encode_ts env t)"

definition pg_history :: "pg_env \<Rightarrow> PostgresDB \<Rightarrow> string \<Rightarrow> db_Message list" where
  "pg_history env db room =
     map (pg_read_row env) (sort_key pg_row_pos (filter (\<lambda>r. p_room r = room) (pg_messages db)))"

lemma pg_read_row_pos:
  "pg_env_ok env \<Longrightarrow> pg_row_ok env seq r \<Longrightarrow> message_pos (pg_stamp env) (pg_read_row env r) = pg_row_pos r"
  by (simp add: message_pos_def pg_row_pos_def pg_stamp_def pg_read_row_def pg_env_ok_def pg_row_ok_def)

lemma pg_stored_row_pos:
  "pg_inv env db \<Longrightarrow> r \<in> set (pg_messages db) \<Longrightarrow> message_pos (pg_stamp env) (pg_read_row env r) = pg_row_pos r"
  using pg_read_row_pos by (fastforce simp: pg_inv_def)

lemma pg_read_row_fields [simp]:
  "db_ID (pg_read_row env r) = p_id r" "db_Room (pg_read_row env r) = p_room r"
  "db_Timestamp (pg_read_row env r) = time_UTC (decode_ts env (p_timestamp r))"
  by (simp_all add: pg_read_row_def)

lemma pg_collect_sound:
  "pg_collect_messages env db n rows = Inr ms \<Longrightarrow> 0 \<le> n \<and> ms = map (pg_read_row env) (rev (take (nat n) rows))"
  by (auto simp: pg_collect_messages_def reverse_in_place_rev rev_map
      dest: scan_rows_complete split: sum.splits option.splits prod.splits if_splits)

lemma pg_collect_quiet:
  "pg_driver db = NoFault \<Longrightarrow> 0 \<le> n \<Longrightarrow>
     pg_collect_messages env db n rows = Inr (map (pg_read_row env) (rev (take (nat n) rows)))"
  by (simp add: pg_collect_messages_def scan_rows_NoFault reverse_in_place_rev rev_map)

lemma pg_recent_sound:
  assumes "canonical_room room" "PostgresDB_GetRecentMessagesInRoomContext env db room n = Inr ms"
  shows "ms = lastn (nat n) (pg_history env db room)"
proof -
  have "pg_collect_messages env db n (sql_order_desc pg_row_pos
      (filter (\<lambda>r. p_room r = room) (pg_messages db))) = Inr ms"
    using assms by (auto simp: PostgresDB_GetRecentMessagesInRoomContext_def room_simps split: fault.splits)
  then show ?thesis
    by (auto simp: pg_history_def lastn_def drop_map take_sql_order_desc dest: pg_collect_sound)
qed

lemma pg_before_sound:
  assumes inv: "pg_inv env db" and room: "canonical_room room" and "zone b = UTC"
    and res: "PostgresDB_GetMessagesBeforeInRoomContext env db room b i n = Inr ms"
  shows "ms = lastn (nat n) (filter (\<lambda>m. message_pos (pg_stamp env) m < Position (pg_stamp env b) i)
    (pg_history env db room))"
proof -
  let ?in = "filter (\<lambda>r. p_room r = room) (pg_messages db)"
  let ?p = "\<lambda>r. pg_row_pos r < Position (pg_stamp env b) i"
  let ?q = "\<lambda>m. message_pos (pg_stamp env) m < Position (pg_stamp env b) i"
  have "filter (\<lambda>r. p_room r = room \<and> (let b = encode_ts env (time_UTC b) in
      p_timestamp r < b \<or> p_timestamp r = b \<and> p_id r < i)) (pg_messages db) = filter ?p ?in"
    using assms(3) by (auto simp: pg_row_pos_def pg_stamp_def less_position_def Let_def intro!: filter_cong)
  then have "pg_collect_messages env db n (sql_order_desc pg_row_pos (filter ?p ?in)) = Inr ms"
    using res room by (auto simp: PostgresDB_GetMessagesBeforeInRoomContext_def room_simps split: fault.splits)
  then have "ms = map (pg_read_row env) (lastn (nat n) (filter ?p (sort_key pg_row_pos ?in)))"
    unfolding filter_sort_key by (auto simp: take_sql_order_desc dest: pg_collect_sound)
  moreover have "filter ?q (pg_history env db room) = map (pg_read_row env) (filter ?p (sort_key pg_row_pos ?in))"
    using pg_stored_row_pos [OF inv]
    by (auto simp: pg_history_def filter_map o_def intro!: arg_cong [where f = "map _"] filter_cong)
  ultimately show ?thesis by (simp add: lastn_def drop_map)
qed

lemma pg_history_sorted:
  assumes "pg_inv env db"
  shows "sorted_wrt (\<lambda>a b. message_pos (pg_stamp env) a < message_pos (pg_stamp env) b) (pg_history env db room)"
proof -
  let ?in = "filter (\<lambda>r. p_room r = room) (pg_messages db)"
  have "distinct (map p_id ?in)" using assms by (simp add: pg_inv_def distinct_map_filter)
  then have "distinct (map pos_id (map pg_row_pos ?in))" by (simp add: pg_row_pos_def o_def)
  then have "distinct (map pg_row_pos ?in)" by (metis distinct_map)
  then have s: "sorted_wrt (\<lambda>a b. pg_row_pos a < pg_row_pos b) (sort_key pg_row_pos ?in)"
    by (rule sort_key_strict)
  show ?thesis
    unfolding pg_history_def sorted_wrt_map
    using s by (rule sorted_wrt_mono_rel [rotated]) (simp add: pg_stored_row_pos [OF assms])
qed

lemma pg_history_row:
  assumes "pg_inv env db" "m \<in> set (pg_history env db room)"
  shows "db_Room m = room \<and> canonical_room room \<and> 1 \<le> db_ID m \<and> \<not> IsZero (db_Timestamp m) \<and>
    zone (db_Timestamp m) = UTC \<and> db_range (db_Timestamp m)"
  using assms by (auto simp: pg_history_def pg_inv_def pg_row_ok_def IsZero_def)

interpretation pg_reader: history_reader "postgres_repository env" "pg_inv env" pg_quiet
  "pg_history env" "pg_stamp env" for env
proof (unfold_locales, goal_cases)
  case (1 s room n ms)
  then show ?case by (intro pg_recent_sound) (simp_all add: postgres_repository_def)
next
  case (2 s room n)
  then show ?case
    by (simp add: postgres_repository_def PostgresDB_GetRecentMessagesInRoomContext_def room_simps pg_quiet_def
        pg_collect_quiet)
next
  case (3 s room n t i ms)
  then show ?case by (intro pg_before_sound) (simp_all add: postgres_repository_def)
next
  case (4 s room n t i)
  then show ?case
    by (simp add: postgres_repository_def PostgresDB_GetMessagesBeforeInRoomContext_def room_simps pg_quiet_def
        pg_collect_quiet)
next
  case (5 s room)
  then show ?case by (rule pg_history_sorted)
next
  case (6 s m room)
  then show ?case by (rule pg_history_row)
next
  case (7 s room n t i ms)
  then have "PostgresDB_GetMessagesBeforeInRoomContext env s room t i n = Inr ms" by (simp add: postgres_repository_def)
  from pg_before_sound [OF 7(1,2,4) this] show ?case by blast
qed

section \<open>Saving\<close>

definition pg_new_row :: "PostgresDB \<Rightarrow> string \<Rightarrow> string \<Rightarrow> string \<Rightarrow> string \<Rightarrow> string \<Rightarrow> pg_row" where
  "pg_new_row db room u n c t =
     \<lparr>p_id = pg_seq db + 1 + int (pg_skip db), p_room = room, p_user_id = u, p_username = n, p_content = c,
      p_type = t, p_timestamp = pg_now db\<rparr>"

definition pg_advance :: "PostgresDB \<Rightarrow> PostgresDB" where
  "pg_advance db = db\<lparr>pg_seq := pg_seq db + 1 + int (pg_skip db)\<rparr>"

definition pg_add_row :: "PostgresDB \<Rightarrow> pg_row \<Rightarrow> PostgresDB" where
  "pg_add_row db r = (pg_advance db)\<lparr>pg_messages := pg_messages db @ [r]\<rparr>"

lemma pg_save_cases:
  assumes "PostgresDB_SaveMessageForUserInRoomContext env db room0 u n c t = (r, db')"
  obtains (same) "db' = db \<or> db' = pg_advance db" "is_ok r \<Longrightarrow> t = ''username''" "t = ''username'' \<Longrightarrow> db' = db"
  | (stored) room where "NormalizeRoom room0 = Inr room" "t \<noteq> ''username''"
      "db' = pg_add_row db (pg_new_row db room u n c t)"
      "is_ok r \<Longrightarrow> r = Inr (pg_read_row env (pg_new_row db room u n c t))"
  using assms
  by (auto simp: PostgresDB_SaveMessageForUserInRoomContext_def pg_add_row_def pg_advance_def pg_new_row_def
      pg_read_row_def Let_def split: sum.splits if_splits fault.splits)

lemma pg_save_result:
  assumes "PostgresDB_SaveMessageForUserInRoomContext env db room u n c t = (Inr m, db')"
  shows "NormalizeRoom room = Inr (db_Room m) \<and> db_UserID m = u \<and> db_Username m = n \<and> db_Content m = c \<and>
    db_Type m = t \<and> zone (db_Timestamp m) = UTC"
  using assms
  by (auto simp: PostgresDB_SaveMessageForUserInRoomContext_def Let_def split: sum.splits if_splits fault.splits)

lemma pg_row_ok_mono: "pg_row_ok env a r \<Longrightarrow> a \<le> b \<Longrightarrow> pg_row_ok env b r"
  by (auto simp: pg_row_ok_def)

lemma pg_advance_inv: "pg_inv env db \<Longrightarrow> pg_inv env (pg_advance db)"
  by (auto simp: pg_inv_def pg_advance_def intro: pg_row_ok_mono)

lemma pg_add_row_inv:
  assumes "pg_inv env db" "canonical_room room"
  shows "pg_inv env (pg_add_row db (pg_new_row db room u n c t))"
proof -
  have "\<forall>r \<in> set (pg_messages db). p_id r \<le> pg_seq db" using assms(1) by (simp add: pg_inv_def pg_row_ok_def)
  then have "pg_seq db + 1 + int (pg_skip db) \<notin> p_id ` set (pg_messages db)" by force
  moreover have "pg_row_ok env (pg_seq db + 1 + int (pg_skip db)) (pg_new_row db room u n c t)"
    using assms by (simp add: pg_row_ok_def pg_new_row_def pg_inv_def)
  ultimately show ?thesis
    using assms by (auto simp: pg_inv_def pg_add_row_def pg_advance_def pg_new_row_def intro: pg_row_ok_mono)
qed

lemma pg_save_inv:
  assumes "pg_inv env db" "PostgresDB_SaveMessageForUserInRoomContext env db room u n c t = (r, db')"
  shows "pg_inv env db'"
  using assms(2)
  by (cases rule: pg_save_cases) (auto simp: assms(1) intro: pg_add_row_inv pg_advance_inv NormalizeRoom_canonical)

lemma pg_advance_history [simp]: "pg_history env (pg_advance db) rm = pg_history env db rm"
  by (simp add: pg_history_def pg_advance_def)

lemma pg_add_row_history_set:
  "set (pg_history env (pg_add_row db r) rm) =
     (if p_room r = rm then insert (pg_read_row env r) (set (pg_history env db rm)) else set (pg_history env db rm))"
  by (auto simp: pg_history_def pg_add_row_def)

lemma pg_save_adds:
  assumes inv: "pg_inv env db" and "t \<noteq> ''username''"
    and save: "PostgresDB_SaveMessageForUserInRoomContext env db room0 u n c t = (Inr m, db')"
  shows "set (pg_history env db' (db_Room m)) = insert m (set (pg_history env db (db_Room m))) \<and>
    (\<forall>rm. \<forall>x \<in> set (pg_history env db rm). db_ID x < db_ID m)"
  using save
proof (cases rule: pg_save_cases)
  case same
  then show ?thesis using assms(2) by simp
next
  case (stored room)
  then have m: "m = pg_read_row env (pg_new_row db room u n c t)" by simp
  have "db_ID x < db_ID m" if "x \<in> set (pg_history env db rm)" for x rm
    using that inv by (fastforce simp: pg_history_def pg_inv_def pg_row_ok_def m pg_new_row_def)
  then show ?thesis using stored(3) by (simp add: pg_add_row_history_set m)
qed

lemma pg_save_other:
  assumes "PostgresDB_SaveMessageForUserInRoomContext env db room0 u n c t = (r, db')" "NormalizeRoom room0 \<noteq> Inr rm"
  shows "pg_history env db' rm = pg_history env db rm"
  using assms(1)
proof (cases rule: pg_save_cases)
  case (stored room)
  then show ?thesis using assms(2) by (auto simp: pg_history_def pg_add_row_def pg_advance_def pg_new_row_def)
qed auto

lemma pg_audit_frame:
  assumes "PostgresDB_SaveModerationEventForUserContext env db sid u n rsn c = (ev, db')"
  shows "pg_messages db' = pg_messages db \<and> pg_seq db' = pg_seq db \<and> pg_now db' = pg_now db"
  using assms
  by (auto simp: PostgresDB_SaveModerationEventForUserContext_def Let_def split: fault.splits if_splits)

interpretation pg_writer: history_writer "postgres_repository env" "pg_inv env" pg_quiet
  "pg_history env" "pg_stamp env" for env
proof (unfold_locales, goal_cases)
  case (1 s room u n c t m s')
  then show ?case by (intro pg_save_result) (simp add: postgres_repository_def)
next
  case (2 s room u n c t r s')
  then show ?case using pg_save_inv by (simp add: postgres_repository_def)
next
  case (3 s t room u n c m s')
  then show ?case by (intro pg_save_adds) (simp_all add: postgres_repository_def)
next
  case (4 s room u n c t r s' rm)
  then show ?case by (intro pg_save_other) (simp_all add: postgres_repository_def)
next
  case (5 s room u n c r s')
  then show ?case
    by (auto simp: postgres_repository_def PostgresDB_SaveMessageForUserInRoomContext_def split: sum.splits)
next
  case (6 s sid u n rsn c ev s')
  then have "pg_messages s' = pg_messages s \<and> pg_seq s' = pg_seq s \<and> pg_now s' = pg_now s"
    by (intro pg_audit_frame) (simp add: postgres_repository_def)
  with 6 show ?case by (simp add: pg_inv_def pg_history_def fun_eq_iff)
qed

lemma pg_history_distinct: "pg_inv env db \<Longrightarrow> distinct (map db_ID (pg_history env db room))"
proof -
  assume "pg_inv env db"
  then have "distinct (map p_id (filter (\<lambda>r. p_room r = room) (pg_messages db)))"
    by (simp add: pg_inv_def distinct_map_filter)
  then have "distinct (map p_id (sort_key pg_row_pos (filter (\<lambda>r. p_room r = room) (pg_messages db))))"
    by (metis distinct_map distinct_sort set_sort)
  then show ?thesis by (simp add: pg_history_def o_def)
qed

end
