(* ===== verification/HubStorage.thy ===== *)
theory HubStorage
  imports HubTemporal Sqlite Postgres
begin

text \<open>
  The hub on top of storage: what its clients receive and what the read loop makes durable,
  over any backend that keeps the writer contract, and the two backends of the program.
\<close>

section \<open>The read loop\<close>

text \<open>A frame that is published carries the client's own identity and room, whatever it claimed.\<close>

lemma read_publishes:
  assumes "readMessages_body R X now c client msg h = (ReadPublishes m, h')"
  shows "m_Type msg \<noteq> ''username'' \<and> m_Type m = ''message'' \<and> m_Content m = TrimSpace (m_Content msg) \<and>
    validMessageBody (m_Content m) \<and> m_UserID m = c_UserID client \<and> m_Username m = c_Username client \<and>
    m_Room m = Client_room client \<and> fst (Client_allowMessage X now client)"
  using assms by (cases rule: readMessages_body_cases) (simp_all add: stamp_saved_def Client_username_def split: sum.splits)

lemma read_stamp:
  assumes "readMessages_body R X now c client msg h = (ReadPublishes m, h')"
    and "SaveMessageForUserInRoomContext R (h_database h) (Client_room client) (c_UserID client) (c_Username client)
           (TrimSpace (m_Content msg)) ''message'' = (saved, s)"
  shows "h_database h' = s \<and>
    (m_ID m, m_Timestamp m) =
      (case saved of Inl _ \<Rightarrow> (m_ID msg, m_Timestamp msg) | Inr row \<Rightarrow> (db_ID row, db_Timestamp row))"
  using assms by (cases rule: readMessages_body_cases) (simp_all add: stamp_saved_def Client_username_def split: sum.splits)

lemma read_frame:
  assumes "readMessages_body R X now c client msg h = (out, h')"
  shows "h_broadcast h' = h_broadcast h \<and> h_brokerPublish h' = h_brokerPublish h \<and> h_leaveQueue h' = h_leaveQueue h"
  using assms by (cases rule: readMessages_body_cases)
    (simp_all add: auditRejectedMessage_def reject_def count_def upd_client_def)

section \<open>History on connect\<close>

lemma enqueue_all_room:
  "\<not> c_done C \<Longrightarrow> length (c_send C) + length ms \<le> outboundQueueSize \<Longrightarrow>
     enqueue_all ms C = C\<lparr>c_send := c_send C @ ms\<rparr>"
  by (induction ms arbitrary: C) (simp_all add: Client_enqueue_def)

context hub_storage
begin

text \<open>The newest fifty messages of the room, oldest first, then the greeting.\<close>

lemma sendMessageHistory_eq:
  assumes "invar s" "quiet s" "canonical_room (c_Room C)" "\<not> c_done C" "length (c_send C) + 51 \<le> outboundQueueSize"
  shows "sendMessageHistory R s C = C\<lparr>c_send := c_send C @
    map message_of_row (lastn 50 (history s (c_Room C))) @ [welcome_message (c_Room C)]\<rparr>"
proof -
  have room: "Client_room C = c_Room C" using assms(3) canonical_ne by (auto simp: Client_room_def)
  then have "history_messages R s C = map message_of_row (lastn 50 (history s (c_Room C))) @ [welcome_message (c_Room C)]"
    using recent_eq [OF assms(1-3), of 50] by (simp add: history_messages_def)
  then show ?thesis using assms(4,5) by (simp add: sendMessageHistory_def enqueue_all_room)
qed

lemma read_rejected_history:
  assumes "invar (h_database h)" "readMessages_body R X now c client msg h = (ReadNext, h')"
  shows "history (h_database h') = history (h_database h)"
proof -
  have audit: "history (h_database (auditRejectedMessage R client r x g)) = history (h_database g)"
    if "h_database g = h_database h" for r x g
    using audit_history [OF assms(1) prod.collapse [symmetric]] that by (simp add: auditRejectedMessage_def)
  show ?thesis using assms(2)
    by (cases rule: readMessages_body_cases) (simp_all add: audit reject_def)
qed

lemma read_accepted_history:
  assumes h: "hub_inv invar h" and c: "h_heap h c = Some client"
    and b: "readMessages_body R X now c client msg h = (ReadPublishes m, h')"
    and s: "SaveMessageForUserInRoomContext R (h_database h) (Client_room client) (c_UserID client) (c_Username client)
           (TrimSpace (m_Content msg)) ''message'' = (Inr row, s)"
  shows "set (history (h_database h') (c_Room client)) = insert row (set (history (h_database h) (c_Room client)))"
    and "message_of_row row = m"
    and "rm \<noteq> c_Room client \<Longrightarrow> history (h_database h') rm = history (h_database h) rm"
proof -
  note C = client_ok_canonical [OF hub_client_ok [OF h c]]
  have norm: "NormalizeRoom (Client_room client) = Inr (c_Room client)" using C NormalizeRoom_canonical_id by metis
  note st = read_stamp [OF b s] and f = read_publishes [OF b]
  note sv = save_room [OF s]
  have row: "db_Room row = c_Room client" using sv norm by simp
  show "set (history (h_database h') (c_Room client)) = insert row (set (history (h_database h) (c_Room client)))"
    using save_adds [OF hub_invD(1) [OF h] _ s] row st by simp
  show "message_of_row row = m" using st f sv row C by (simp add: message_of_row_def)
  show "rm \<noteq> c_Room client \<Longrightarrow> history (h_database h') rm = history (h_database h) rm"
    using save_other [OF hub_invD(1) [OF h] s] norm st by simp
qed

text \<open>Reachable states.\<close>

lemma reachable_rooms:
  assumes "hub_reachable R X invar h" "h_heap h c = Some C"
  shows "list_all (\<lambda>m. m_Room m = c_Room C) (c_send C)"
    and "c_Conn C = Some k \<Longrightarrow> list_all (frame_room_ok (c_Room C)) (conn_sent k)"
  using hub_client_ok [OF hub_inv_reachable [OF assms(1)] assms(2)] by (auto simp: client_ok_def list_all_iff)

lemma reachable_bounds:
  assumes "hub_reachable R X invar h"
  shows "length (h_broadcast h) \<le> 1024" "length (h_leaveQueue h) \<le> 256" "length (h_seenEventIDs h) \<le> 4096"
    "h_heap h c = Some C \<Longrightarrow> length (c_send C) \<le> 256" "h_brokerPublish h = Some q \<Longrightarrow> length q \<le> 1024"
    "h_seenEvents h = set (h_seenEventIDs h)"
proof -
  note i = hub_inv_reachable [OF assms]
  show "length (h_broadcast h) \<le> 1024" using hub_invD(5) [OF i] by (simp add: msgs_ok_def broadcastQueueSize_def)
  show "length (h_leaveQueue h) \<le> 256" using hub_invD(6) [OF i] by (simp add: msgs_ok_def leaveNotificationQueueSize_def)
  show "length (h_seenEventIDs h) \<le> 4096" "h_seenEvents h = set (h_seenEventIDs h)"
    using hub_invD(11) [OF i] by (auto simp: seen_ok_def maxSeenBrokerEvents_def)
  show "h_heap h c = Some C \<Longrightarrow> length (c_send C) \<le> 256"
    using hub_client_ok [OF i] by (fastforce simp: client_ok_def outboundQueueSize_def)
  show "h_brokerPublish h = Some q \<Longrightarrow> length q \<le> 1024"
    using hub_invD(10) [OF i] by (simp add: broker_ok_def brokerQueueSize_def outboundQueueSize_def)
qed

lemma reachable_seen: "hub_reachable R X invar h \<Longrightarrow> seen_ok (h_seenEventIDs h) (h_seenEvents h)"
  using hub_inv_reachable hub_invD(11) by blast

lemma reachable_finish: "hub_reachable R X invar h \<Longrightarrow> \<exists>h'. notifyClientFinished c h = Some h'"
  using hub_inv_reachable hub_invD(12) notifyClientFinished_total by blast

lemma reachable_drain_returned:
  "hub_reachable R X invar h \<Longrightarrow> h_drain h = DrainReturned None \<Longrightarrow> h_drainPending h = {}"
  using hub_invD(12) [OF hub_inv_reachable] by (fastforce simp: drain_ok_def split: if_splits)

lemma reachable_draining:
  assumes "hub_reachable R X invar h" "h_draining h" "(hub_step R X invar)\<^sup>*\<^sup>* h h'"
  shows "h_draining h' \<and> h_clients h' = {}"
proof -
  have "h_clients h = {}" using hub_invD(12) [OF hub_inv_reachable [OF assms(1)]] assms(2) by (simp add: drain_ok_def)
  then show ?thesis using draining_run [OF assms(3,2)] by blast
qed

lemma reachable_drain_ends:
  assumes "hub_reachable R X invar h" "h_drain h = DrainWaiting P n" "h_drainPending h = {}"
  shows "(hub_step R X invar)\<^sup>*\<^sup>* h (h\<lparr>h_drainEvents := Some [], h_drain := DrainLeft 0 0\<rparr>)"
  by (rule drain_loop_ends [OF hub_inv_reachable [OF assms(1)] assms(2,3)])

end

interpretation sqlite_hub: hub_storage "sqlite_repository env" "sqlite_inv env" sqlite_quiet
  "sqlite_history env" "sqlite_stamp env" for env
  by unfold_locales

interpretation pg_hub: hub_storage "postgres_repository env" "pg_inv env" pg_quiet
  "pg_history env" "pg_stamp env" for env
  by unfold_locales

end
