(* ===== verification/Upgrade.thy ===== *)
theory Upgrade
  imports HubTemporal
begin

text \<open>
  The WebSocket endpoint, \<open>serveWs\<close> of \<open>server.go\<close>: the checks in front of the upgrade, the
  client it builds, and its registration with the hub. The WebSocket handshake itself is the
  gorilla library: \<open>up\<close> either answers with an error of its own or hands over an open
  connection. It takes time, so \<open>later\<close> is what the other goroutines make of the hub until the
  client is registered. A served request is shown to be a run of the hub's machine.
\<close>

section \<open>The checks\<close>

definition allow_upgrade ::
  "'l rate_lib \<Rightarrow> gotime \<Rightarrow> string \<Rightarrow> 'l WSUpgrade option \<Rightarrow> bool \<times> 'l WSUpgrade option" where
  "allow_upgrade X now ip wsRL =
     (case wsRL of
        None \<Rightarrow> (True, None)
      | Some limiter \<Rightarrow> let (ok, limiter') = WSUpgrade_Allow X now limiter ip in (ok, Some limiter'))"

definition serveWs_checks ::
  "'l rate_lib \<Rightarrow> Config \<Rightarrow> auth_lib \<Rightarrow> Service option \<Rightarrow> gotime \<Rightarrow> 'l WSUpgrade option \<Rightarrow> writer \<Rightarrow> Request \<Rightarrow>
     ('l, 's) Hub \<Rightarrow> (writer, string \<times> Principal) result \<times> 'l WSUpgrade option \<times> ('l, 's) Hub" where
  "serveWs_checks X cfg L so now wsRL w r h =
     (case NormalizeRoom (Values_Get (req_Query r) ''room'') of
        Inl _ \<Rightarrow> (Inl (http_Error ''invalid room'' 400 w), wsRL, h)
      | Inr room \<Rightarrow>
        if h_draining h then (Inl (http_Error ''server shutting down'' 503 w), wsRL, ws_upgrade ''draining'' h)
        else let ip = clientIP r; (ok, wsRL) = allow_upgrade X now ip wsRL in
          if \<not> ok then (Inl (http_Error ''too many connections'' 429 w), wsRL, ws_upgrade ''rate_limited'' h)
          else if \<not> OriginAllowed cfg r then (Inl (http_Error ''forbidden'' 403 w), wsRL, ws_upgrade ''denied_origin'' h)
          else (case Service_Authorize L so now r room of
                  Inl err \<Rightarrow>
                    (Inl (writeAuthError err w), wsRL,
                     ws_upgrade (if err = ErrRoomDenied then ''forbidden_room'' else ''authentication_required'') h)
                | Inr who \<Rightarrow> (Inr (room, who), wsRL, h)))"

section \<open>The client and its registration\<close>

definition serveWs_client :: "'l rate_lib \<Rightarrow> Config \<Rightarrow> string \<Rightarrow> Conn \<Rightarrow> string \<Rightarrow> Principal \<Rightarrow> 'l Client" where
  "serveWs_client X cfg newID conn room who =
     (let (sessionID, username) =
            (if Principal_Authenticated who then (p_SessionID who, p_DisplayName who)
             else (newID, ''Anonymous''))
      in \<lparr>c_ID = sessionID, c_UserID = p_UserID who, c_Conn = Some conn, c_Username = username,
          c_Authenticated = Principal_Authenticated who, c_AuthExpiresAt = p_ExpiresAt who, c_Room = room,
          c_msgLimiter = newMessageLimiter X cfg, c_send = [], c_done = False\<rparr>)"

text \<open>
  The address \<open>c\<close> of the new client, the identifiers \<open>newID\<close> and \<open>eventID\<close>, and the outcome of
  the close frame are chosen by the environment. \<open>None\<close>: the publication of the join notification
  waits for the run loop.
\<close>

definition serveWs_register ::
  "'s Repository \<Rightarrow> bool \<Rightarrow> string \<Rightarrow> bool \<Rightarrow> nat \<Rightarrow> 'l Client \<Rightarrow> ('l, 's) Hub \<Rightarrow> ('l, 's) Hub option" where
  "serveWs_register R pick eventID closeOK c client h =
     (let h = h\<lparr>h_heap := (h_heap h)(c \<mapsto> client)\<rparr> in
      case registerClient R pick eventID c client h of
        None \<Rightarrow> None
      | Some (ok, h) \<Rightarrow>
        Some (if \<not> ok then set_phase c Ended (upd_client c (Client_closeForShutdown closeOK) (ws_upgrade ''draining'' h))
              else set_phase c Reading (count (ConnectedClients_update (\<lambda>n. n + 1)) h)))"

definition serveWs ::
  "'s Repository \<Rightarrow> 'l rate_lib \<Rightarrow> Config \<Rightarrow> auth_lib \<Rightarrow> Service option \<Rightarrow> gotime \<Rightarrow>
     (writer \<Rightarrow> Request \<Rightarrow> (writer, Conn) result) \<Rightarrow> (('l, 's) Hub \<Rightarrow> ('l, 's) Hub) \<Rightarrow> string \<Rightarrow> bool \<Rightarrow> string \<Rightarrow>
     bool \<Rightarrow> nat \<Rightarrow> 'l WSUpgrade option \<Rightarrow> writer \<Rightarrow> Request \<Rightarrow> ('l, 's) Hub \<Rightarrow>
     (writer option \<times> 'l WSUpgrade option \<times> ('l, 's) Hub) option" where
  "serveWs R X cfg L so now up later newID pick eventID closeOK c wsRL w r h =
     (case serveWs_checks X cfg L so now wsRL w r h of
        (Inl w', wsRL, h) \<Rightarrow> Some (Some w', wsRL, h)
      | (Inr (room, who), wsRL, h) \<Rightarrow>
        (case up w r of
           Inl w' \<Rightarrow> Some (Some w', wsRL, ws_upgrade ''upgrade_error'' h)
         | Inr conn \<Rightarrow>
           map_option (\<lambda>h. (None, wsRL, h))
             (serveWs_register R pick eventID closeOK c (serveWs_client X cfg newID conn room who)
               (later (ws_upgrade ''ok'' h)))))"

section \<open>What the checks establish\<close>

lemma allow_upgrade_fst: "fst (allow_upgrade X now ip wsRL) \<longleftrightarrow>
    (\<forall>l. wsRL = Some l \<longrightarrow> fst (WSUpgrade_Allow X now l ip))"
  by (auto simp: allow_upgrade_def split: option.splits prod.splits)

lemma serveWs_checks_ok:
  assumes "serveWs_checks X cfg L so now wsRL w r h = (Inr (room, who), wsRL', h')"
  shows "NormalizeRoom (Values_Get (req_Query r) ''room'') = Inr room \<and> \<not> h_draining h \<and>
    fst (allow_upgrade X now (clientIP r) wsRL) \<and> OriginAllowed cfg r \<and>
    Service_Authorize L so now r room = Inr who \<and> h' = h"
  using assms by (auto simp: serveWs_checks_def Let_def split: sum.splits if_splits prod.splits)

lemma serveWs_checks_refused:
  assumes "serveWs_checks X cfg L so now wsRL w r h = (Inl w', wsRL', h')"
  shows "h' = h \<or> (\<exists>label. h' = ws_upgrade label h)"
  using assms by (auto simp: serveWs_checks_def Let_def split: sum.splits if_splits prod.splits)

lemma serveWs_client_fresh:
  "canonical_room room \<Longrightarrow> fresh_client (serveWs_client X cfg newID \<lparr>conn_sent = [], conn_closed = False\<rparr> room who)"
  by (simp add: fresh_client_def serveWs_client_def Let_def)

section \<open>A served request is a run of the machine\<close>

lemma Upgrade_run: "(hub_step R X invar)\<^sup>*\<^sup>* h (ws_upgrade label h)"
  by (intro r_into_rtranclp Upgrade)

lemma ws_upgrade_frame [simp]:
  "h_heap (ws_upgrade l h) = h_heap h" "h_draining (ws_upgrade l h) = h_draining h" "h_clients (ws_upgrade l h) = h_clients h"
  by (simp_all add: ws_upgrade_def)

text \<open>Saving and publishing do not look at where the goroutines stand.\<close>

lemma save_notification_phase:
  "save_notification R m h = (m', h') \<Longrightarrow> save_notification R m (h\<lparr>h_phase := p\<rparr>) = (m', h'\<lparr>h_phase := p\<rparr>)"
  by (auto simp: save_notification_def case_prod_beta Let_def)

lemma queueBrokerMessage_phase:
  "queueBrokerMessage e m (h\<lparr>h_phase := p\<rparr>) = (queueBrokerMessage e m h)\<lparr>h_phase := p\<rparr>"
  by (auto simp: queueBrokerMessage_def drop_forms split: option.split sum.split)

lemma publishContext_phase:
  assumes "publishContext pick e m h = Some (b, h')"
  shows "publishContext pick e m (h\<lparr>h_phase := p\<rparr>) = Some (b, h'\<lparr>h_phase := p\<rparr>)"
proof -
  have swap: "h\<lparr>h_phase := p, h_broadcast := q\<rparr> = h\<lparr>h_broadcast := q, h_phase := p\<rparr>" for q by simp
  have "queueBrokerMessage e m (h\<lparr>h_phase := p, h_broadcast := q\<rparr>) = (queueBrokerMessage e m (h\<lparr>h_broadcast := q\<rparr>))\<lparr>h_phase := p\<rparr>"
    for q unfolding swap by (rule queueBrokerMessage_phase)
  then show ?thesis using assms by (auto simp: publishContext_def split: if_splits)
qed

lemma publishContext_frame: "publishContext pick e m h = Some (b, h') \<Longrightarrow> h_phase h' = h_phase h"
  by (auto simp: publishContext_def queueBrokerMessage_def redis_drop_def split: if_splits option.splits sum.splits)

lemma join_run:
  assumes c: "h_heap h c = None" and f: "fresh_client client" and d: "\<not> h_draining h"
    and g: "g = h\<lparr>h_heap := (h_heap h)(c \<mapsto> client), h_clients := insert c (h_clients h), h_history := (h_history h)(c \<mapsto> Fetching)\<rparr>"
    and sv: "save_notification R (join_notification client) g = (m, g1)"
    and pb: "publishContext pick e m g1 = Some (b, g2)"
  shows "(hub_step R X invar)\<^sup>*\<^sup>* h (set_phase c Reading (count (ConnectedClients_update (\<lambda>n. n + 1)) g2))"
proof -
  let ?J = "(h_phase h)(c \<mapsto> Joining)" and ?P = "(h_phase h)(c \<mapsto> JoinPublish m)" and ?C = "(h_phase h)(c \<mapsto> Joined)"
  have g1: "h_phase g1 = h_phase h" using sv g by (auto simp: save_notification_def case_prod_beta Let_def)
  then have g2: "h_phase g2 = h_phase h" using publishContext_frame [OF pb] by simp
  have "register_locked c (h\<lparr>h_heap := (h_heap h)(c \<mapsto> client)\<rparr>) =
      (True, h\<lparr>h_heap := (h_heap h)(c \<mapsto> client), h_clients := insert c (h_clients h)\<rparr>)"
    using d by (simp add: register_locked_def)
  from Registered [OF c f this, where R = R and X = X and invar = invar]
  have 1: "hub_step R X invar h (g\<lparr>h_phase := ?J\<rparr>)" by (simp add: set_phase_def g)
  have 2: "hub_step R X invar (g\<lparr>h_phase := ?J\<rparr>) (g1\<lparr>h_phase := ?P\<rparr>)"
    using JoinSaved [of "g\<lparr>h_phase := ?J\<rparr>" c client R m "g1\<lparr>h_phase := ?J\<rparr>" X invar] save_notification_phase [OF sv]
    by (simp add: g set_phase_def)
  have 3: "hub_step R X invar (g1\<lparr>h_phase := ?P\<rparr>) (g2\<lparr>h_phase := ?C\<rparr>)"
    using JoinPublished [of "g1\<lparr>h_phase := ?P\<rparr>" c m pick e b "g2\<lparr>h_phase := ?P\<rparr>" R X invar] publishContext_phase [OF pb, of ?P] g2
    by (simp add: set_phase_def)
  have 4: "hub_step R X invar (g2\<lparr>h_phase := ?C\<rparr>) (set_phase c Reading (count (ConnectedClients_update (\<lambda>n. n + 1)) g2))"
    using Connected [of "g2\<lparr>h_phase := ?C\<rparr>" c R X invar] g2 by (simp add: set_phase_def count_def)
  show ?thesis using 1 2 3 4 by (meson r_into_rtranclp rtranclp_trans)
qed

lemma serveWs_register_run:
  assumes c: "h_heap h c = None" and f: "fresh_client client"
    and s: "serveWs_register R pick eventID closeOK c client h = Some h'"
  shows "(hub_step R X invar)\<^sup>*\<^sup>* h h'"
proof (cases "h_draining h")
  case True
  let ?h = "h\<lparr>h_heap := (h_heap h)(c \<mapsto> client)\<rparr>"
  have r: "register_locked c ?h = (False, ?h)" using True by (simp add: register_locked_def)
  let ?e = "set_phase c Ended (upd_client c (Client_closeForShutdown closeOK) ?h)"
  have "hub_step R X invar h ?e" by (rule Refused [OF c f r])
  moreover have "hub_step R X invar ?e (ws_upgrade ''draining'' ?e)" by (rule Upgrade)
  moreover have "h' = ws_upgrade ''draining'' ?e"
    using s r by (intro Hub.equality)
      (auto simp: serveWs_register_def registerClient_def Let_def drop_forms upd_client_def set_phase_def)
  ultimately show ?thesis by (meson r_into_rtranclp rtranclp_trans)
next
  case False
  let ?g = "h\<lparr>h_heap := (h_heap h)(c \<mapsto> client), h_clients := insert c (h_clients h), h_history := (h_history h)(c \<mapsto> Fetching)\<rparr>"
  obtain m g1 where sv: "save_notification R (join_notification client) ?g = (m, g1)" by fastforce
  obtain b g2 where pb: "publishContext pick eventID m g1 = Some (b, g2)"
      "h' = set_phase c Reading (count (ConnectedClients_update (\<lambda>n. n + 1)) g2)"
    using s False sv by (auto simp: serveWs_register_def registerClient_def register_locked_def Let_def split: option.splits)
  show ?thesis using join_run [OF c f False refl sv pb(1)] pb(2) by simp
qed

lemma serveWs_run:
  assumes up: "\<And>conn. up w r = Inr conn \<Longrightarrow> conn = \<lparr>conn_sent = [], conn_closed = False\<rparr>"
    and l: "(hub_step R X invar)\<^sup>*\<^sup>* (ws_upgrade ''ok'' h) (later (ws_upgrade ''ok'' h))"
    and c: "h_heap (later (ws_upgrade ''ok'' h)) c = None"
    and s: "serveWs R X cfg L so now up later newID pick eventID closeOK c wsRL w r h = Some (res, wsRL', h')"
  shows "(hub_step R X invar)\<^sup>*\<^sup>* h h'"
proof -
  obtain out rl h1 where ch: "serveWs_checks X cfg L so now wsRL w r h = (out, rl, h1)" by (metis prod.exhaust)
  show ?thesis
  proof (cases out)
    case (Inl w')
    then have "h' = h1" using s ch by (simp add: serveWs_def)
    then show ?thesis using serveWs_checks_refused [OF ch [unfolded Inl]] Upgrade_run by blast
  next
    case (Inr rp)
    obtain room who where rp: "rp = (room, who)" by fastforce
    note ok = serveWs_checks_ok [OF ch [unfolded Inr rp]]
    show ?thesis
    proof (cases "up w r")
      case (Inl w')
      then have "h' = ws_upgrade ''upgrade_error'' h" using s ch Inr rp ok by (simp add: serveWs_def)
      then show ?thesis using Upgrade_run by blast
    next
      case conn: (Inr conn)
      let ?C = "serveWs_client X cfg newID conn room who"
      have f: "fresh_client ?C"
        using serveWs_client_fresh up [OF conn] ok NormalizeRoom_canonical by blast
      have "serveWs_register R pick eventID closeOK c ?C (later (ws_upgrade ''ok'' h)) = Some h'"
        using s ch Inr rp conn ok by (auto simp: serveWs_def)
      then have "(hub_step R X invar)\<^sup>*\<^sup>* (later (ws_upgrade ''ok'' h)) h'" by (rule serveWs_register_run [OF c f])
      then show ?thesis using l Upgrade_run by (meson rtranclp_trans)
    qed
  qed
qed

lemma serveWs_register_client:
  assumes "serveWs_register R pick eventID closeOK c client h = Some h'"
  shows "\<exists>C. h_heap h' c = Some C \<and> identity C = identity client \<and>
    (if h_draining h then h_clients h' = h_clients h \<and> h_phase h' c = Some Ended
     else h_clients h' = insert c (h_clients h) \<and> h_phase h' c = Some Reading)"
proof (cases "h_draining h")
  case True
  then show ?thesis using assms
    by (auto simp: serveWs_register_def registerClient_def register_locked_def Let_def set_phase_def)
next
  case False
  let ?g = "h\<lparr>h_heap := (h_heap h)(c \<mapsto> client), h_clients := insert c (h_clients h), h_history := (h_history h)(c \<mapsto> Fetching)\<rparr>"
  obtain m g1 where sv: "save_notification R (join_notification client) ?g = (m, g1)" by fastforce
  obtain b g2 where pb: "publishContext pick eventID m g1 = Some (b, g2)"
      "h' = set_phase c Reading (count (ConnectedClients_update (\<lambda>n. n + 1)) g2)"
    using assms False sv by (auto simp: serveWs_register_def registerClient_def register_locked_def Let_def split: option.splits)
  then show ?thesis
    using publishContext_heap [OF pb(1)] save_notification_heap [OF sv] publishContext_members [OF pb(1)]
      save_notification_members [OF sv] False by (simp add: set_phase_def membership_def)
qed

text \<open>A completed upgrade: every check passed, and the new client speaks for the authorized principal.\<close>

lemma serveWs_accepted:
  assumes "serveWs R X cfg L so now up later newID pick eventID closeOK c wsRL w r h = Some (None, wsRL', h')"
  shows "\<exists>room who C. NormalizeRoom (Values_Get (req_Query r) ''room'') = Inr room \<and> \<not> h_draining h \<and>
    fst (allow_upgrade X now (clientIP r) wsRL) \<and> OriginAllowed cfg r \<and> Service_Authorize L so now r room = Inr who \<and>
    h_heap h' c = Some C \<and> c_Room C = room \<and> c_UserID C = p_UserID who \<and>
    c_Authenticated C = Principal_Authenticated who \<and> c_AuthExpiresAt C = p_ExpiresAt who \<and>
    (c_ID C, c_Username C) =
      (if Principal_Authenticated who then (p_SessionID who, p_DisplayName who) else (newID, ''Anonymous'')) \<and>
    (if h_draining (later (ws_upgrade ''ok'' h))
     then h_clients h' = h_clients (later (ws_upgrade ''ok'' h)) \<and> h_phase h' c = Some Ended
     else h_clients h' = insert c (h_clients (later (ws_upgrade ''ok'' h))) \<and> h_phase h' c = Some Reading)"
proof -
  obtain out rl h1 where ch: "serveWs_checks X cfg L so now wsRL w r h = (out, rl, h1)" by (metis prod.exhaust)
  obtain room who conn where k: "out = Inr (room, who)" "up w r = Inr conn"
    "serveWs_register R pick eventID closeOK c (serveWs_client X cfg newID conn room who) (later (ws_upgrade ''ok'' h1)) = Some h'"
    using assms ch by (auto simp: serveWs_def split: sum.splits)
  note ok = serveWs_checks_ok [OF ch [unfolded k(1)]]
  obtain C where C: "h_heap h' c = Some C" "identity C = identity (serveWs_client X cfg newID conn room who)"
    "if h_draining (later (ws_upgrade ''ok'' h))
     then h_clients h' = h_clients (later (ws_upgrade ''ok'' h)) \<and> h_phase h' c = Some Ended
     else h_clients h' = insert c (h_clients (later (ws_upgrade ''ok'' h))) \<and> h_phase h' c = Some Reading"
    using serveWs_register_client [OF k(3)] ok by blast
  then have "c_Room C = room \<and> c_UserID C = p_UserID who \<and> c_Authenticated C = Principal_Authenticated who \<and>
      c_AuthExpiresAt C = p_ExpiresAt who \<and>
      (c_ID C, c_Username C) =
        (if Principal_Authenticated who then (p_SessionID who, p_DisplayName who) else (newID, ''Anonymous''))"
    by (simp add: identity_def serveWs_client_def Let_def split: if_splits)
  then show ?thesis using ok C(1,3) by blast
qed

end
