(* ===== verification/Backends.thy ===== *)
theory Backends
  imports Sqlite Postgres Handlers
begin

text \<open>
  The two storage backends under the HTTP handlers: the history pages of theory \<open>Handlers\<close>,
  proved against the reader contract, on the operations of \<open>*DB\<close> and \<open>*PostgresDB\<close>.
\<close>

interpretation sqlite_pages: history_pages "sqlite_repository env" "sqlite_inv env" sqlite_quiet
  "sqlite_history env" "sqlite_stamp env" for env
  by unfold_locales

interpretation pg_pages: history_pages "postgres_repository env" "pg_inv env" pg_quiet
  "pg_history env" "pg_stamp env" for env
  by unfold_locales

end
