(* ===== verification/Instances.thy ===== *)
theory Instances
  imports Backends Events
begin

text \<open>
  Concrete parameters: a driver, a cursor codec, an authentication library and a rate limiter
  that satisfy what the model relies on, with small states over them. The witnesses of the
  properties are evaluated on these.
\<close>

section \<open>Times as text\<close>

definition tick :: "int \<Rightarrow> string" where
  "tick i = (if i < 0 then CHR ''-'' else CHR ''+'') # replicate (nat \<bar>i\<bar>) (CHR ''1'')"

definition untick :: "string \<Rightarrow> int" where
  "untick s = (if hd s = CHR ''-'' then - int (length (tl s)) else int (length (tl s)))"

lemma untick_tick [simp]: "untick (tick i) = i"
  by (simp add: tick_def untick_def)

definition utc :: "int \<Rightarrow> gotime" where
  "utc i = \<lparr>instant = i, zone = UTC\<rparr>"

definition sample_sqlite_env :: sqlite_env where
  "sample_sqlite_env =
     \<lparr>bind_time = (\<lambda>t. tick (instant t)), scan_text = id, julianday = (\<lambda>s. Some (untick s)),
      format_RFC3339Nano = (\<lambda>t. tick (instant t)), time_Parse = (\<lambda>_ s. Some (utc (untick s))),
      time_ParseInLocation = (\<lambda>_ s. Some (utc (untick s)))\<rparr>"

lemma sample_sqlite_env_ok: "sqlite_env_ok sample_sqlite_env"
  by (simp add: sqlite_env_ok_def sample_sqlite_env_def utc_def)

definition sample_row :: "int \<Rightarrow> string \<Rightarrow> int \<Rightarrow> msg_row" where
  "sample_row i room t =
     \<lparr>r_id = i, r_room = room, r_user_id = [], r_username = ''ada'', r_content = ''hi'', r_type = ''message'',
      r_timestamp = tick t\<rparr>"

definition sample_db :: DB where
  "sample_db =
     \<lparr>messages = [sample_row 1 ''lobby'' 5, sample_row 2 ''den'' 6, sample_row 3 ''lobby'' 5, sample_row 4 ''lobby'' 4],
      messages_seq = 4, audit_log = [], audit_seq = 0, clock = utc 9, driver = NoFault\<rparr>"

lemma canonical_samples [simp]: "canonical_room ''lobby''" "canonical_room ''den''" "canonical_room ''general''"
  by code_simp+

lemma sample_row_ok:
  "canonical_room room \<Longrightarrow> 1 \<le> i \<Longrightarrow> i \<le> seq \<Longrightarrow> 1 \<le> t \<Longrightarrow> t < 1000 \<Longrightarrow> row_ok sample_sqlite_env seq (sample_row i room t)"
  by (auto simp: row_ok_def sample_row_def sample_sqlite_env_def IsZero_def db_range_def second_def utc_def
      intro!: exI [of _ "utc t"])

lemma sample_db_inv: "sqlite_inv sample_sqlite_env sample_db"
  by (simp add: sqlite_inv_def sample_sqlite_env_ok sample_db_def sample_row_ok)
     (simp add: sample_row_def utc_def IsZero_def db_range_def second_def)

lemma sample_db_quiet: "sqlite_quiet sample_db"
  by (simp add: sqlite_quiet_def sample_db_def)

section \<open>The Postgres driver\<close>

definition sample_pg_env :: pg_env where
  "sample_pg_env = \<lparr>encode_ts = instant, decode_ts = utc\<rparr>"

definition sample_pg_row :: "int \<Rightarrow> string \<Rightarrow> int \<Rightarrow> pg_row" where
  "sample_pg_row i room t =
     \<lparr>p_id = i, p_room = room, p_user_id = [], p_username = ''ada'', p_content = ''hi'', p_type = ''message'',
      p_timestamp = t\<rparr>"

definition sample_pg :: PostgresDB where
  "sample_pg =
     \<lparr>pg_messages = [sample_pg_row 1 ''lobby'' 5, sample_pg_row 2 ''den'' 6, sample_pg_row 5 ''lobby'' 5,
        sample_pg_row 7 ''lobby'' 4],
      pg_seq = 7, pg_skip = 1, pg_audit_log = [], pg_audit_seq = 0, pg_now = 8, pg_clock = utc 9, pg_driver = NoFault\<rparr>"

lemma sample_pg_inv: "pg_inv sample_pg_env sample_pg"
  by (simp add: pg_inv_def pg_env_ok_def sample_pg_env_def sample_pg_def sample_pg_row_def pg_row_ok_def utc_def
      IsZero_def db_range_def second_def)

lemma sample_pg_quiet: "pg_quiet sample_pg"
  by (simp add: pg_quiet_def sample_pg_def)

section \<open>The cursor codec\<close>

definition sample_codec :: cursor_codec where
  "sample_codec =
     \<lparr>marshal_cursor = (\<lambda>c. Some (hc_Room c @ '' '' @ tick (instant (hc_Timestamp c)) @ '' '' @ tick (hc_ID c))),
      decode_cursor = (\<lambda>s. let (room, s1, _) = Cut s (CHR '' ''); (t, i, _) = Cut s1 (CHR '' '') in
        Some (\<lparr>hc_Version = 1, hc_Room = room, hc_Timestamp = utc (untick t), hc_ID = untick i\<rparr>, []))\<rparr>"

section \<open>The authentication library\<close>

definition sample_token :: string where
  "sample_token = ''0123456789abcdef0123456789abcdef''"

definition sample_credential :: credential where
  "sample_credential =
     \<lparr>cr_Token = sample_token, cr_UserID = ''u1'', cr_DisplayName = ''Ada'', cr_Rooms = [''lobby'', ''den'']\<rparr>"

definition sample_template :: principalTemplate where
  "sample_template = \<lparr>pt_UserID = ''u1'', pt_DisplayName = ''Ada'', pt_Rooms = [''lobby'', ''den'']\<rparr>"

definition sample_payload :: sessionPayload where
  "sample_payload =
     \<lparr>sp_Version = 1, sp_SessionID = ''sid_0102030405060708090a0b0c0d0e0fff'', sp_Subject = ''u1'',
      sp_DisplayName = ''Ada'', sp_Rooms = [''lobby'', ''den''], sp_IssuedAt = 1700000000, sp_ExpiresAt = 1700003600\<rparr>"

definition sample_auth_lib :: auth_lib where
  "sample_auth_lib =
     \<lparr>sha256_Sum256 = id,
      hmac_sha256 = (\<lambda>k m. take 32 (rev m @ k @ replicate 32 (CHR ''0''))),
      marshal_payload = (\<lambda>p. if p = sample_payload then Some ''payload'' else None),
      decode_payload = (\<lambda>s. if s = ''payload'' then Some (sample_payload, []) else None),
      decode_credential_list = (\<lambda>s. if s = ''users'' then Some ([sample_credential], []) else None)\<rparr>"

definition sample_auth_config :: auth_Config where
  "sample_auth_config =
     \<lparr>ac_Mode = '' Session'', ac_SessionSecret = ''a secret of thirty-two characters'', ac_CredentialsJSON = ''users'',
      ac_SessionTTL = 0, ac_CookieSecure = True\<rparr>"

definition sample_service :: Service where
  "sample_service =
     \<lparr>sv_mode = ''session'', sv_secret = ''a secret of thirty-two characters'',
      sv_credentials = [sample_token \<mapsto> sample_template], sv_ttl = hour, sv_cookieSecure = True\<rparr>"

lemma sample_template_ok: "template_ok sample_template"
  by (simp add: template_ok_def sample_template_def maxRoomsPerUser_def ascii_text RuneCount_ascii) code_simp

lemma sample_load:
  "load_credentials sample_auth_lib [sample_credential] Map.empty = Inr [sample_token \<mapsto> sample_template]"
proof -
  have "normalizePrincipal ''u1'' ''Ada'' [''lobby'', ''den''] = Inr sample_template"
    using normalizePrincipal_id [OF sample_template_ok] by (simp add: sample_template_def)
  moreover have "minTokenBytes \<le> length sample_token" "length sample_token \<le> MaxAccessTokenBytes"
    by (simp_all add: sample_token_def minTokenBytes_def MaxAccessTokenBytes_def)
  moreover have "TrimSpace sample_token = sample_token"
    "\<not> ContainsAny sample_token [CHR '' '', CHR 0x09, CHR 0x0D, CHR 0x0A]"
    by (simp_all add: sample_token_def ascii_text ContainsAny_def)
  ultimately show ?thesis by (simp add: sample_credential_def sample_auth_lib_def Let_def)
qed

lemma sample_auth_New: "auth_New sample_auth_lib sample_auth_config = Inr sample_service"
proof -
  have "ToLower (TrimSpace '' Session'') = ''session''" by (simp add: ascii_text) code_simp
  moreover have "decodeCredentials sample_auth_lib ''users'' = Inr [sample_credential]"
    unfolding decodeCredentials_def by (simp add: sample_auth_lib_def json_eof_def ascii_text)
  ultimately show ?thesis
    using sample_load
    by (simp add: auth_New_def sample_auth_config_def sample_service_def ModeAnonymous_def ModeSession_def
        minSecretBytes_def defaultSessionTTL_def minSessionTTL_def maxSessionTTL_def duration_defs)
qed

definition sample_now :: gotime where
  "sample_now = \<lparr>instant = (unix_offset + 1700000000) * second + 5, zone = Local\<rparr>"

definition sample_raw :: "nat list" where
  "sample_raw = [1, 2, 3, 4, 5, 6, 7, 8, 9, 10, 11, 12, 13, 14, 15, 255]"

definition sample_principal :: Principal where
  "sample_principal =
     \<lparr>p_UserID = ''u1'', p_DisplayName = ''Ada'', p_Rooms = [''lobby'', ''den''], p_Anonymous = False,
      p_SessionID = ''sid_0102030405060708090a0b0c0d0e0fff'',
      p_ExpiresAt = utc ((unix_offset + 1700003600) * second)\<rparr>"

definition sample_cookie_value :: string where
  "sample_cookie_value =
     RawURL_EncodeToString ''payload'' @ ''.'' @
     RawURL_EncodeToString (hmac_sha256 sample_auth_lib (sv_secret sample_service) (RawURL_EncodeToString ''payload''))"

definition sample_cookie :: Cookie where
  "sample_cookie =
     \<lparr>ck_Name = CookieName, ck_Value = sample_cookie_value, ck_Path = ''/'', ck_Expires = p_ExpiresAt sample_principal,
      ck_MaxAge = 3600, ck_HttpOnly = True, ck_Secure = True, ck_SameSite = SameSiteStrictMode\<rparr>"

lemma sample_service_simps [simp]:
  "Service_Mode (Some sample_service) = ModeSession" "sv_ttl sample_service = hour" "sv_cookieSecure sample_service"
  "sv_credentials sample_service (sha256_Sum256 sample_auth_lib sample_token) = Some sample_template"
  by (simp_all add: sample_service_def Service_Mode_def ModeSession_def sample_auth_lib_def)

lemma sample_hmac_length: "\<forall>k m. length (hmac_sha256 sample_auth_lib k m) = 32"
  by (auto simp: sample_auth_lib_def min_def)

lemma sample_encode: "Service_encode sample_auth_lib sample_service sample_payload = Inr sample_cookie_value"
proof -
  have "marshal_payload sample_auth_lib sample_payload = Some ''payload''" by (simp add: sample_auth_lib_def)
  moreover have "length sample_cookie_value \<le> maxCookieBytes" by code_simp
  ultimately show ?thesis unfolding Service_encode_def by (simp add: sample_cookie_value_def Let_def)
qed

lemma sample_exchange:
  "Service_Exchange sample_auth_lib (Some sample_service) sample_now (Inr sample_raw) sample_token =
     Inr (sample_principal, sample_cookie)"
proof -
  let ?now = "Truncate_second (time_UTC sample_now)"
  have tok: "\<not> length sample_token < minTokenBytes" "\<not> MaxAccessTokenBytes < length sample_token"
    by (simp_all add: sample_token_def minTokenBytes_def MaxAccessTokenBytes_def)
  have ws: "\<not> ContainsAny sample_token [CHR '' '', CHR 0x09, CHR 0x0D, CHR 0x0A]" by code_simp
  have sid: "Service_newSessionID (Inr sample_raw) = Inr ''sid_0102030405060708090a0b0c0d0e0fff''" by code_simp
  have exp: "Add ?now hour = utc ((unix_offset + 1700003600) * second)" "Unix ?now = 1700000000"
    "Unix (utc ((unix_offset + 1700003600) * second)) = 1700003600" "Duration_div hour second = 3600"
    by code_simp+
  have enc: "Service_encode sample_auth_lib sample_service
      \<lparr>sp_Version = 1, sp_SessionID = ''sid_0102030405060708090a0b0c0d0e0fff'', sp_Subject = pt_UserID sample_template,
       sp_DisplayName = pt_DisplayName sample_template, sp_Rooms = pt_Rooms sample_template,
       sp_IssuedAt = 1700000000, sp_ExpiresAt = 1700003600\<rparr> = Inr sample_cookie_value"
    using sample_encode by (simp add: sample_payload_def sample_template_def)
  show ?thesis
    unfolding Service_Exchange_def Let_def
    using tok ws by (simp add: sid exp enc sample_cookie_def sample_principal_def) (simp add: sample_template_def)
qed

definition sample_request :: Request where
  "sample_request =
     \<lparr>req_Method = ''GET'', req_Path = ''/api/messages'', req_Query = [(''room'', ''Lobby''), (''limit'', ''2'')],
      req_Header = [], req_Cookies = [], req_RemoteAddr = ''192.0.2.7:51234''\<rparr>"

lemma sample_authenticate:
  "Service_Authenticate sample_auth_lib (Some sample_service) (Add sample_now minute)
     (sample_request\<lparr>req_Cookies := [(CookieName, sample_cookie_value)]\<rparr>) = Inr sample_principal"
proof -
  let ?r = "sample_request\<lparr>req_Cookies := [(CookieName, sample_cookie_value)]\<rparr>"
  have c: "length sample_raw = 16" "list_all (\<lambda>b. b < 256) sample_raw" "clock_ok sample_now"
    "instant (Truncate_second sample_now) \<le> instant (Add sample_now minute) + minute"
    "Truncate_second (p_ExpiresAt sample_principal) = p_ExpiresAt sample_principal"
    "instant (Add sample_now minute) < instant (p_ExpiresAt sample_principal)"
    by code_simp+
  have codec: "payload_codec_ok sample_auth_lib (payload_of sample_principal sample_now)" by code_simp
  have mac: "\<forall>k m. length (hmac_sha256 sample_auth_lib k m) = 32" by (rule sample_hmac_length)
  have req: "Request_Cookie ?r CookieName = Some (ck_Value sample_cookie)"
    by (simp add: Request_Cookie_def sample_cookie_def)
  show ?thesis
    using session_roundtrip [OF sample_auth_New sample_exchange c(1,2) codec mac c(3,4) req] c(5,6) by simp
qed

section \<open>Pages and saves on the sample tables\<close>

lemma sample_codec_encodes: "\<exists>c. encodeHistoryCursor sample_codec room m = Inr c"
  by (simp add: encodeHistoryCursor_def sample_codec_def)

lemma sqlite_sample_page:
  "\<exists>c. w_body (messagesHandler (sqlite_repository sample_sqlite_env) sample_db sample_codec sample_auth_lib None sample_now
      new_writer (page_request sample_request ''lobby'' 2 None)) =
    Some (HistoryBody ''lobby'' (lastn 2 (sqlite_history sample_sqlite_env sample_db ''lobby'')) 2 True c anonymous_principal)"
proof -
  obtain c where "encodeHistoryCursor sample_codec ''lobby''
      (hd (lastn 2 (sqlite_history sample_sqlite_env sample_db ''lobby''))) = Inr c"
    using sample_codec_encodes by blast
  moreover have "2 < int (length (sqlite_history sample_sqlite_env sample_db ''lobby''))" by code_simp
  ultimately show ?thesis
    using sqlite_pages.first_page [OF sample_db_inv sample_db_quiet canonical_samples(1)
        authorize_anonymous [OF canonical_samples(1)], of 2 sample_codec c] by auto
qed

lemma postgres_sample_page:
  "\<exists>c. w_body (messagesHandler (postgres_repository sample_pg_env) sample_pg sample_codec sample_auth_lib None sample_now
      new_writer (page_request sample_request ''lobby'' 2 None)) =
    Some (HistoryBody ''lobby'' (lastn 2 (pg_history sample_pg_env sample_pg ''lobby'')) 2 True c anonymous_principal)"
proof -
  obtain c where "encodeHistoryCursor sample_codec ''lobby''
      (hd (lastn 2 (pg_history sample_pg_env sample_pg ''lobby''))) = Inr c"
    using sample_codec_encodes by blast
  moreover have "2 < int (length (pg_history sample_pg_env sample_pg ''lobby''))" by code_simp
  ultimately show ?thesis
    using pg_pages.first_page [OF sample_pg_inv sample_pg_quiet canonical_samples(1)
        authorize_anonymous [OF canonical_samples(1)], of 2 sample_codec c] by auto
qed

lemma sqlite_sample_save:
  "\<exists>m db'. DB_SaveMessageForUserInRoomContext sample_sqlite_env sample_db ''lobby'' ''u1'' ''Ada'' ''hello'' ''message'' = (Inr m, db')"
  by (simp add: DB_SaveMessageForUserInRoomContext_def NormalizeRoom_canonical_id sample_db_def Let_def)

lemma postgres_sample_save:
  "\<exists>m db'. PostgresDB_SaveMessageForUserInRoomContext sample_pg_env sample_pg ''lobby'' ''u1'' ''Ada'' ''hello'' ''message'' = (Inr m, db')"
  by (simp add: PostgresDB_SaveMessageForUserInRoomContext_def NormalizeRoom_canonical_id sample_pg_def Let_def)

section \<open>Configuration and events\<close>

definition sample_numbers :: number_lib where
  "sample_numbers = \<lparr>ParseFloat = (\<lambda>s. if s = ''NaN'' then Some NaN else None), ParseDuration = (\<lambda>_. None)\<rparr>"

definition sample_config :: Config where
  "sample_config = (FromEnv sample_numbers (\<lambda>_. []))\<lparr>AllowedOrigins := [''https://chat.example'']\<rparr>"

lemma sample_token: "normalizeToken ''node-a'' = Inr ''node-a''"
  by (rule canonical_token_id) code_simp

lemma sample_name: "TrimSpace ''Ada'' = ''Ada''"
  by (simp add: ascii_text)

lemma sample_event_id: "TrimSpace ''event_1'' = ''event_1''" "\<not> maxEventIDRunes < length (runes ''event_1'')"
  by (simp_all add: ascii_text runes_ascii maxEventIDRunes_def)

lemma sample_event:
  "\<exists>e. New ''event_1'' ''lobby'' ''node-a'' \<lparr>em_ID = 3, em_UserID = [], em_Username = ''Ada'', em_Content = ''hi'',
      em_Type = ''message''\<rparr> (utc 7) = Inr e"
  using sample_token sample_name sample_event_id
  by (simp add: New_def Validate_def Schema_def Version_def utc_def IsZero_def NormalizeRoom_canonical_id)

end
