(* ===== verification/HubInstances.thy ===== *)
theory HubInstances
  imports HubStorage Upgrade Instances
begin

text \<open>
  Concrete states of the hub's machine, reached from the start by its steps: one client in its
  room, with and without its history, and a hub that is draining or has drained.
\<close>

definition sample_rate :: "unit rate_lib" where
  "sample_rate = \<lparr>rate_NewLimiter = (\<lambda>_ _. ()), rate_Allow = (\<lambda>_ l. (True, l))\<rparr>"

definition sample_client :: "unit Client" where
  "sample_client =
     \<lparr>c_ID = ''session-1'', c_UserID = ''u1'', c_Conn = Some \<lparr>conn_sent = [], conn_closed = False\<rparr>, c_Username = ''Ada'',
      c_Authenticated = True, c_AuthExpiresAt = utc 1000, c_Room = ''lobby'', c_msgLimiter = None, c_send = [],
      c_done = False\<rparr>"

lemma sample_client_fresh: "fresh_client sample_client"
  by (simp add: fresh_client_def sample_client_def)

definition start_hub :: "'s \<Rightarrow> (unit, 's) Hub" where
  "start_hub s = newHub s (Some ''node-a'')"

definition joined_hub :: "'s \<Rightarrow> (unit, 's) Hub" where
  "joined_hub s = set_phase 7 Joining ((start_hub s)\<lparr>h_heap := [7 \<mapsto> sample_client], h_clients := {7},
     h_history := [7 \<mapsto> Fetching]\<rparr>)"

lemma start_reachable: "invar s \<Longrightarrow> hub_reachable R X invar (start_hub s)"
  unfolding start_hub_def by (rule Init)

lemma joined_reachable:
  assumes "invar s"
  shows "hub_reachable R sample_rate invar (joined_hub s)"
proof -
  let ?h = "start_hub s"
  have "register_locked 7 (?h\<lparr>h_heap := (h_heap ?h)(7 \<mapsto> sample_client)\<rparr>) =
      (True, ?h\<lparr>h_heap := [7 \<mapsto> sample_client], h_clients := {7}\<rparr>)"
    by (simp add: register_locked_def start_hub_def newHub_def)
  from Registered [OF _ sample_client_fresh this, where R = R and X = sample_rate and invar = invar]
  have "hub_step R sample_rate invar ?h (joined_hub s)"
    by (simp add: joined_hub_def start_hub_def newHub_def)
  then show ?thesis using start_reachable [where invar = invar, OF assms] by (rule Step [rotated])
qed

lemma joined_client [simp]: "h_heap (joined_hub s) 7 = Some sample_client"
  by (simp add: joined_hub_def set_phase_def)

text \<open>The client with the first message of its history in its queue.\<close>

definition greeted_hub :: "'s Repository \<Rightarrow> 's \<Rightarrow> (unit, 's) Hub" where
  "greeted_hub R s =
     (let ms = history_messages R s sample_client;
          h = (joined_hub s)\<lparr>h_history := [7 \<mapsto> Pushing ms]\<rparr>
      in history_push 7 (hd ms) (tl ms) sample_client h)"

lemma greeted_reachable:
  assumes "invar s" "history_messages R s sample_client \<noteq> []"
  shows "hub_reachable R sample_rate invar (greeted_hub R s)"
proof -
  let ?ms = "history_messages R s sample_client"
  let ?h = "(joined_hub s)\<lparr>h_history := [7 \<mapsto> Pushing ?ms]\<rparr>"
  have j: "h_history (joined_hub s) = [7 \<mapsto> Fetching]" "h_database (joined_hub s) = s"
    by (simp_all add: joined_hub_def start_hub_def newHub_def set_phase_def)
  have "hub_step R sample_rate invar (joined_hub s) ?h"
    using HistoryFetched [of "joined_hub s" 7 sample_client R sample_rate invar] j by simp
  then have "hub_reachable R sample_rate invar ?h" using joined_reachable [where invar = invar, OF assms(1)] by (rule Step [rotated])
  moreover have "hub_step R sample_rate invar ?h (greeted_hub R s)"
    using HistoryPushed [of ?h 7 "hd ?ms" "tl ?ms" sample_client R sample_rate invar] assms(2)
    by (simp add: greeted_hub_def Let_def)
  ultimately show ?thesis by (rule Step)
qed

lemma greeted_client:
  "history_messages R s sample_client = m # ms \<Longrightarrow> h_heap (greeted_hub R s) 7 = Some (sample_client\<lparr>c_send := [m]\<rparr>)"
  by (simp add: greeted_hub_def Let_def history_push_def Client_enqueue_def sample_client_def outboundQueueSize_def)

section \<open>Draining\<close>

definition draining_hub :: "'s \<Rightarrow> (unit, 's) Hub" where
  "draining_hub s = (snd (drain_begin [7] (joined_hub s)))\<lparr>h_drain := DrainBroker [7]\<rparr>"

lemma draining_step_from_joined: "hub_step R sample_rate invar (joined_hub s) (draining_hub s)"
proof -
  have j: "h_clients (joined_hub s) = {7}" "h_finished (joined_hub s) = {}" "h_drain (joined_hub s) = DrainIdle"
    by (simp_all add: joined_hub_def start_hub_def newHub_def set_phase_def)
  then have "drain_begin [7] (joined_hub s) = ([7], snd (drain_begin [7] (joined_hub s)))"
    by (simp add: drain_begin_def Let_def)
  from DrainBegin [OF j(3) _ _ this, where R = R and X = sample_rate and invar = invar] j(1)
  show ?thesis by (simp add: draining_hub_def)
qed

lemma draining_reachable: "invar s \<Longrightarrow> hub_reachable R sample_rate invar (draining_hub s)"
  by (rule Step [OF joined_reachable draining_step_from_joined])

lemma draining_facts: "h_draining (draining_hub s)" "h_drain (draining_hub s) = DrainBroker [7]"
  by (simp_all add: draining_hub_def drain_begin_def Let_def)

text \<open>A hub without clients: at the waiting loop, and returned.\<close>

definition waiting_hub :: "'s \<Rightarrow> (unit, 's) Hub" where
  "waiting_hub s = (count (WSDrainClientsRemaining_update (\<lambda>_. 0))
     (snd (drain_begin [] ((start_hub s)\<lparr>h_runStarted := True\<rparr>))))\<lparr>h_drain := DrainWaiting {} 0\<rparr>"

lemma waiting_reachable:
  assumes "invar s"
  shows "hub_reachable R X invar (waiting_hub s)"
proof -
  let ?S = "hub_step R X invar" and ?g = "(start_hub s)\<lparr>h_runStarted := True\<rparr>"
  let ?h = "snd (drain_begin [] ?g)" and ?m = "count (WSDrainClientsRemaining_update (\<lambda>_. 0))"
  have j: "h_clients ?g = {}" "h_drain ?g = DrainIdle" by (simp_all add: start_hub_def newHub_def)
  have 1: "?S (start_hub s) ?g" by (rule RunStart) (simp add: start_hub_def newHub_def)
  have "drain_begin [] ?g = ([], ?h)" by (simp add: drain_begin_def Let_def)
  from DrainBegin [OF j(2) _ _ this, where R = R and X = X and invar = invar] j(1)
  have 2: "?S ?g (?h\<lparr>h_drain := DrainBroker []\<rparr>)" by simp
  have 3: "?S (?h\<lparr>h_drain := DrainBroker []\<rparr>) (?m (?h\<lparr>h_drain := DrainClosing [] []\<rparr>))"
    using DrainBrokerStopped [of "?h\<lparr>h_drain := DrainBroker []\<rparr>" "[]" R X invar]
    by (simp add: stopBroker_returns_def drain_begin_def Let_def start_hub_def newHub_def count_def)
  have 4: "?S (?m (?h\<lparr>h_drain := DrainClosing [] []\<rparr>)) (waiting_hub s)"
    using DrainClosed [of "?m (?h\<lparr>h_drain := DrainClosing [] []\<rparr>)" "[]" R X invar] by (simp add: waiting_hub_def count_def)
  show ?thesis using Step [OF Step [OF Step [OF Step [OF start_reachable [where invar = invar, OF assms] 1] 2] 3] 4] .
qed

lemma waiting_facts: "h_drain (waiting_hub s) = DrainWaiting {} 0" "h_drainPending (waiting_hub s) = {}"
  "h_leaveStarted (waiting_hub s) = False" "h_received (waiting_hub s) = None" "h_runStarted (waiting_hub s)"
  by (simp_all add: waiting_hub_def drain_begin_def Let_def start_hub_def newHub_def count_def)

definition drained_hub :: "'s \<Rightarrow> (unit, 's) Hub" where
  "drained_hub s = (waiting_hub s)\<lparr>h_done := True, h_runDone := True, h_drain := DrainReturned None\<rparr>"

lemma drained_run: "(hub_step R X invar)\<^sup>*\<^sup>* (waiting_hub s) (drained_hub s)"
proof -
  let ?w = "waiting_hub s" and ?S = "hub_step R X invar"
  let ?r = "?w\<lparr>h_done := True, h_drain := DrainRunWait 0 0 None\<rparr>"
  have 1: "?S ?w (?w\<lparr>h_drain := DrainLeft 0 0\<rparr>)" using waiting_facts by (intro DrainDone)
  have 2: "?S (?w\<lparr>h_drain := DrainLeft 0 0\<rparr>) (?w\<lparr>h_drain := DrainLeaves 0 0, h_done := True\<rparr>)"
    using Stop [of "?w\<lparr>h_drain := DrainLeft 0 0\<rparr>" 0 0 R X invar] by (simp add: stop_def)
  have 3: "?S (?w\<lparr>h_drain := DrainLeaves 0 0, h_done := True\<rparr>) ?r"
    using StopLeaves [of "?w\<lparr>h_drain := DrainLeaves 0 0, h_done := True\<rparr>" 0 0 False
        "?w\<lparr>h_drain := DrainLeaves 0 0, h_done := True\<rparr>" R X invar] waiting_facts(3) [of s]
    by (simp add: stopLeave_begin_def)
  have 4: "?S ?r (?r\<lparr>h_runDone := True\<rparr>)" using RunStop [of ?r R X invar] waiting_facts(4,5) [of s] by simp
  have 5: "?S (?r\<lparr>h_runDone := True\<rparr>) (drained_hub s)"
    using DrainReturns [of "?r\<lparr>h_runDone := True\<rparr>" 0 0 None R X invar] by (simp add: drained_hub_def drain_result_def)
  show ?thesis using 1 2 3 4 5 by (meson converse_rtranclp_into_rtranclp rtranclp.rtrancl_refl)
qed

section \<open>Frames\<close>

text \<open>A frame that claims another name, room, identifier and time.\<close>

definition sample_frame :: Message where
  "sample_frame =
     \<lparr>m_ID = 99, m_UserID = ''mallory'', m_Username = ''Eve'', m_Content = '' hello '', m_Type = ''message'',
      m_Room = ''den'', m_Timestamp = utc 1\<rparr>"

lemma sample_frame_body: "TrimSpace '' hello '' = ''hello''" "validMessageBody ''hello''"
  by (simp_all add: ascii_text validMessageBody_def RuneCount_ascii maxMessageRunes_def)

lemma sample_frame_saved:
  "\<exists>row s. PostgresDB_SaveMessageForUserInRoomContext sample_pg_env (h_database (joined_hub sample_pg))
     (Client_room sample_client) (c_UserID sample_client) (c_Username sample_client) (TrimSpace (m_Content sample_frame))
     ''message'' = (Inr row, s)"
  by (simp add: PostgresDB_SaveMessageForUserInRoomContext_def NormalizeRoom_canonical_id sample_pg_def Let_def
      sample_client_def Client_room_def joined_hub_def start_hub_def newHub_def set_phase_def)

lemma sample_frame_accepted:
  "\<exists>m h'. readMessages_body (postgres_repository sample_pg_env) sample_rate (utc 9) 7 sample_client sample_frame
     (joined_hub sample_pg) = (ReadPublishes m, h')"
  by (auto simp: readMessages_body_def Let_def sample_frame_def sample_frame_body Client_allowMessage_def sample_client_def
      split: prod.split)

lemma sample_frame_override:
  "\<exists>h'. readMessages_body (sqlite_repository sample_sqlite_env) sample_rate (utc 9) 7 sample_client
      (sample_frame\<lparr>m_Type := ''username''\<rparr>) (joined_hub sample_db) = (ReadNext, h') \<and>
    MessagesRejected (h_metrics h') ''identity_override'' = 1"
  by (simp add: readMessages_body_def sample_client_def auditRejectedMessage_def reject_def count_def inc_def
      joined_hub_def start_hub_def newHub_def set_phase_def newMetrics_def)

lemma sample_history:
  "\<exists>m ms. history_messages (sqlite_repository sample_sqlite_env) sample_db sample_client = m # ms"
proof -
  have "GetRecentMessagesInRoomContext (sqlite_repository sample_sqlite_env) sample_db ''lobby'' 50 =
      Inr (lastn 50 (sqlite_history sample_sqlite_env sample_db ''lobby''))"
    using sqlite_reader.recent_eq [OF sample_db_inv sample_db_quiet canonical_samples(1), of 50] by simp
  then have "history_messages (sqlite_repository sample_sqlite_env) sample_db sample_client \<noteq> []"
    by (simp add: history_messages_def sample_client_def Client_room_def)
  then show ?thesis by (simp add: neq_Nil_conv)
qed

definition sample_remote :: Envelope where
  "sample_remote =
     \<lparr>env_Schema = Schema, env_Version = Version, env_EventID = ''event_2'', env_Room = ''lobby'',
      env_OriginInstance = ''node-b'', env_Timestamp = utc 7,
      env_Message = \<lparr>em_ID = 3, em_UserID = [], em_Username = ''Ada'', em_Content = ''hi'', em_Type = ''message''\<rparr>\<rparr>"

text \<open>A hub with a broker whose database is down.\<close>

definition broken_hub :: "(unit, PostgresDB) Hub" where
  "broken_hub = startBroker (joined_hub (sample_pg\<lparr>pg_driver := QueryFails ''down''\<rparr>))"

lemma broken_hub_save:
  "SaveMessageForUserInRoomContext (postgres_repository sample_pg_env) (h_database broken_hub) (Client_room sample_client)
     (c_UserID sample_client) (c_Username sample_client) (TrimSpace (m_Content sample_frame)) ''message'' =
   (Inl (DriverError ''down''), sample_pg\<lparr>pg_driver := QueryFails ''down''\<rparr>)"
  by (simp add: postgres_repository_def PostgresDB_SaveMessageForUserInRoomContext_def NormalizeRoom_canonical_id Let_def
      sample_client_def Client_room_def broken_hub_def startBroker_def joined_hub_def start_hub_def newHub_def set_phase_def)

lemma broken_hub_reads:
  "\<exists>m h'. readMessages_body (postgres_repository sample_pg_env) sample_rate (utc 9) 7 sample_client sample_frame broken_hub =
     (ReadPublishes m, h') \<and> \<not> h_done h' \<and> h_broadcast h' = [] \<and> h_fanout h' \<and> h_brokerPublish h' = Some [] \<and>
     h_instanceID h' = ''node-a''"
  by (simp add: readMessages_body_def Let_def sample_frame_def sample_frame_body Client_allowMessage_def sample_client_def
      count_def upd_client_def broken_hub_def startBroker_def joined_hub_def start_hub_def newHub_def set_phase_def
      split: prod.split)

lemma sample_user: "validUserID ''u1''"
  by code_simp

lemma sample_user_trim: "TrimSpace ''u1'' = ''u1''"
  by (simp add: ascii_text)

lemma sample_forged_event:
  "\<exists>e. New ''event_1'' (Client_room sample_client) ''node-a''
      \<lparr>em_ID = m_ID sample_frame, em_UserID = c_UserID sample_client, em_Username = c_Username sample_client,
       em_Content = TrimSpace (m_Content sample_frame), em_Type = ''message''\<rparr> (m_Timestamp sample_frame) = Inr e"
  using sample_token sample_name sample_event_id sample_user sample_user_trim sample_frame_body
  by (simp add: New_def Validate_def Schema_def Version_def utc_def IsZero_def NormalizeRoom_canonical_id
      sample_client_def sample_frame_def Client_room_def)

section \<open>An upgrade\<close>

definition sample_up :: "writer \<Rightarrow> Request \<Rightarrow> (writer, Conn) result" where
  "sample_up w r = Inr \<lparr>conn_sent = [], conn_closed = False\<rparr>"

definition ws_request :: Request where
  "ws_request = sample_request\<lparr>req_Path := ''/ws'', req_Query := [(''room'', ''lobby'')]\<rparr>"

lemma sample_checks:
  "serveWs_checks sample_rate sample_config sample_auth_lib None sample_now None new_writer ws_request (start_hub s) =
     (Inr (''lobby'', anonymous_principal), None, start_hub s)"
  and sample_room: "Values_Get (req_Query ws_request) ''room'' = ''lobby''"
  and sample_origin: "OriginAllowed sample_config ws_request"
proof -
  show q: "Values_Get (req_Query ws_request) ''room'' = ''lobby''" by (simp add: ws_request_def Values_Get_def)
  show o: "OriginAllowed sample_config ws_request"
    by (simp add: OriginAllowed_iff ws_request_def sample_request_def Values_Get_def)
  have "\<not> h_draining (start_hub s)" by (simp add: start_hub_def newHub_def)
  then show "serveWs_checks sample_rate sample_config sample_auth_lib None sample_now None new_writer ws_request (start_hub s) =
     (Inr (''lobby'', anonymous_principal), None, start_hub s)"
    using q o authorize_anonymous [OF canonical_samples(1), of sample_auth_lib sample_now ws_request]
    by (simp add: serveWs_checks_def NormalizeRoom_canonical_id allow_upgrade_def)
qed

lemma sample_upgrade:
  "\<exists>h'. serveWs (postgres_repository sample_pg_env) sample_rate sample_config sample_auth_lib None sample_now sample_up
     (\<lambda>h. h) ''sess_1'' True ''event_1'' True 7 None new_writer ws_request (start_hub sample_pg) = Some (None, None, h')"
proof -
  let ?h = "start_hub sample_pg" and ?X = "sample_rate" and ?R = "postgres_repository sample_pg_env"
  have d: "\<not> h_draining ?h" by (simp add: start_hub_def newHub_def)
  note ch = sample_checks [of sample_pg]
  let ?C = "serveWs_client ?X sample_config ''sess_1'' \<lparr>conn_sent = [], conn_closed = False\<rparr> ''lobby'' anonymous_principal"
  let ?u = "ws_upgrade ''ok'' ?h"
  let ?g = "?u\<lparr>h_heap := (h_heap ?u)(7 \<mapsto> ?C), h_clients := insert 7 (h_clients ?u), h_history := (h_history ?u)(7 \<mapsto> Fetching)\<rparr>"
  obtain m g1 where sv: "save_notification ?R (join_notification ?C) ?g = (m, g1)" by fastforce
  then have "h_broadcast g1 = []"
    by (auto simp: save_notification_def case_prod_beta Let_def start_hub_def newHub_def drop_forms)
  then obtain b g2 where "publishContext True ''event_1'' m g1 = Some (b, g2)"
    by (auto simp: publishContext_def broadcastQueueSize_def)
  then have "\<exists>h'. serveWs_register ?R True ''event_1'' True 7 ?C ?u = Some h'"
    using d sv by (simp add: serveWs_register_def registerClient_def register_locked_def Let_def)
  then show ?thesis using ch by (auto simp: serveWs_def sample_up_def)
qed

end
