(* ===== verification/Migrations.thy ===== *)
theory Migrations
  imports Sqlite Postgres Config
begin

text \<open>
  Opening the storage: the schema migrations of both backends, \<open>Open\<close>, \<open>OpenPostgres\<close> and
  \<open>OpenRepository\<close>. The statements of each migration are in the source and are given their
  meaning on a schema (tables with their columns, indexes, and the rows of
  \<open>schema_migrations\<close>). A statement, a transaction or a connection may fail at any call; an
  aborted transaction leaves the schema as it was.
\<close>

section \<open>Schemas and statements\<close>

datatype ddl =
    CreateTable string "string list"
  | AddColumn string string
  | AddColumnIfNotExists string string
  | CreateIndex string string "string list"

record schema =
  sc_tables :: "string \<rightharpoonup> string list"
  sc_indexes :: "string set"
  sc_log :: "(int \<times> string) list"

definition empty_schema :: schema where
  "empty_schema = \<lparr>sc_tables = Map.empty, sc_indexes = {}, sc_log = []\<rparr>"

text \<open>One statement: tables and indexes are created \<open>IF NOT EXISTS\<close>; \<open>None\<close> is an SQL error.\<close>

fun exec_ddl :: "ddl \<Rightarrow> schema \<Rightarrow> schema option" where
  "exec_ddl (CreateTable t cols) S =
     (case sc_tables S t of Some _ \<Rightarrow> Some S | None \<Rightarrow> Some (S\<lparr>sc_tables := (sc_tables S)(t \<mapsto> cols)\<rparr>))"
| "exec_ddl (AddColumn t col) S =
     (case sc_tables S t of
        None \<Rightarrow> None
      | Some cols \<Rightarrow> if col \<in> set cols then None else Some (S\<lparr>sc_tables := (sc_tables S)(t \<mapsto> cols @ [col])\<rparr>))"
| "exec_ddl (AddColumnIfNotExists t col) S =
     (case sc_tables S t of
        None \<Rightarrow> None
      | Some cols \<Rightarrow> if col \<in> set cols then Some S else Some (S\<lparr>sc_tables := (sc_tables S)(t \<mapsto> cols @ [col])\<rparr>))"
| "exec_ddl (CreateIndex i t cols) S =
     (if i \<in> sc_indexes S then Some S
      else case sc_tables S t of
             None \<Rightarrow> None
           | Some have \<Rightarrow> if set cols \<subseteq> set have then Some (S\<lparr>sc_indexes := insert i (sc_indexes S)\<rparr>) else None)"

fun exec_all :: "ddl list \<Rightarrow> schema \<Rightarrow> schema option" where
  "exec_all [] S = Some S"
| "exec_all (d # ds) S = (case exec_ddl d S of None \<Rightarrow> None | Some S' \<Rightarrow> exec_all ds S')"

record migration =
  mg_version :: int
  mg_name :: string
  mg_sql :: "ddl list"

definition mig :: "int \<Rightarrow> string \<Rightarrow> ddl list \<Rightarrow> migration" where
  "mig v n ds = \<lparr>mg_version = v, mg_name = n, mg_sql = ds\<rparr>"

text \<open>Where the database or the driver fails while one migration is looked up and applied.\<close>

datatype mig_fault = MigOK | LookupFails | BeginFails | LockFails | SQLFails | RecordFails | CommitFails

datatype mig_error = MigError mig_fault

section \<open>SQLite\<close>

definition migrations :: "migration list" where
  "migrations =
     [mig 1 ''create_messages''
        [CreateTable ''messages'' [''id'', ''username'', ''content'', ''type'', ''timestamp'']],
      mig 2 ''create_moderation_audit_log''
        [CreateTable ''moderation_audit_log''
           [''id'', ''session_id'', ''username'', ''reason'', ''content_preview'', ''content_length'', ''timestamp''],
         CreateIndex ''idx_moderation_audit_log_timestamp'' ''moderation_audit_log'' [''timestamp'']],
      mig 3 ''index_message_timestamp''
        [CreateIndex ''idx_messages_timestamp'' ''messages'' [''timestamp'']],
      mig 4 ''index_moderation_audit_timestamp''
        [CreateIndex ''idx_moderation_audit_log_julianday_timestamp'' ''moderation_audit_log'' [''timestamp'']],
      mig 5 ''add_message_rooms''
        [AddColumn ''messages'' ''room'',
         CreateIndex ''idx_messages_room_timestamp'' ''messages'' [''room'', ''timestamp'']],
      mig 6 ''bind_message_and_audit_user_ids''
        [AddColumn ''messages'' ''user_id'',
         AddColumn ''moderation_audit_log'' ''user_id'',
         CreateIndex ''idx_messages_user_id_timestamp'' ''messages'' [''user_id'', ''timestamp'']]]"

definition migrationApplied :: "schema \<Rightarrow> int \<Rightarrow> bool" where
  "migrationApplied S version \<longleftrightarrow> length (filter (\<lambda>e. fst e = version) (sc_log S)) > 0"

text \<open>The transaction; the primary key of \<open>schema_migrations\<close> refuses a version twice.\<close>

definition applyMigration :: "mig_fault \<Rightarrow> migration \<Rightarrow> schema \<Rightarrow> mig_error option \<times> schema" where
  "applyMigration fault m S =
     (if fault = BeginFails then (Some (MigError BeginFails), S)
      else case (if fault = SQLFails then None else exec_all (mg_sql m) S) of
             None \<Rightarrow> (Some (MigError SQLFails), S)
           | Some S1 \<Rightarrow>
             if fault = RecordFails \<or> mg_version m \<in> fst ` set (sc_log S1) then (Some (MigError RecordFails), S)
             else if fault = CommitFails then (Some (MigError CommitFails), S)
             else (None, S1\<lparr>sc_log := sc_log S1 @ [(mg_version m, mg_name m)]\<rparr>))"

definition migrate_one :: "mig_fault \<Rightarrow> migration \<Rightarrow> schema \<Rightarrow> mig_error option \<times> schema" where
  "migrate_one fault m S =
     (if fault = LookupFails then (Some (MigError LookupFails), S)
      else if migrationApplied S (mg_version m) then (None, S)
      else applyMigration fault m S)"

text \<open>The loop over the migrations, up to the first error; the fault at each version is the environment's.\<close>

fun migration_loop ::
  "(mig_fault \<Rightarrow> migration \<Rightarrow> schema \<Rightarrow> mig_error option \<times> schema) \<Rightarrow> migration list \<Rightarrow> (int \<Rightarrow> mig_fault) \<Rightarrow> schema \<Rightarrow>
     mig_error option \<times> schema" where
  "migration_loop app [] faults S = (None, S)"
| "migration_loop app (m # ms) faults S =
     (case app (faults (mg_version m)) m S of
        (Some e, S') \<Rightarrow> (Some e, S')
      | (None, S') \<Rightarrow> migration_loop app ms faults S')"

definition runMigrations :: "bool \<Rightarrow> (int \<Rightarrow> mig_fault) \<Rightarrow> schema \<Rightarrow> mig_error option \<times> schema" where
  "runMigrations createOK faults S =
     (if \<not> createOK then (Some (MigError SQLFails), S) else migration_loop migrate_one migrations faults S)"

text \<open>
  The statements the SQLite backend runs, as the table and the columns each names; a schema serves
  one when it has the table with all of them.
\<close>

definition insertMessage_stmt :: "string \<times> string list" where
  "insertMessage_stmt = (''messages'', [''room'', ''user_id'', ''username'', ''content'', ''type'', ''timestamp''])"

definition pruneMessages_stmt :: "string \<times> string list" where
  "pruneMessages_stmt = (''messages'', [''timestamp''])"

definition pruneModerationEvents_stmt :: "string \<times> string list" where
  "pruneModerationEvents_stmt = (''moderation_audit_log'', [''timestamp''])"

definition insertModerationEvent_stmt :: "string \<times> string list" where
  "insertModerationEvent_stmt =
     (''moderation_audit_log'',
      [''session_id'', ''user_id'', ''username'', ''reason'', ''content_preview'', ''content_length'', ''timestamp''])"

definition selectRecent_stmt :: "string \<times> string list" where
  "selectRecent_stmt =
     (''messages'', [''id'', ''room'', ''user_id'', ''username'', ''content'', ''type'', ''timestamp''])"

definition selectBefore_stmt :: "string \<times> string list" where
  "selectBefore_stmt =
     (''messages'', [''id'', ''room'', ''user_id'', ''username'', ''content'', ''type'', ''timestamp''])"

definition serves_stmt :: "schema \<Rightarrow> string \<times> string list \<Rightarrow> bool" where
  "serves_stmt S stmt \<longleftrightarrow>
     (case sc_tables S (fst stmt) of None \<Rightarrow> False | Some cols \<Rightarrow> list_all (\<lambda>c. c \<in> set cols) (snd stmt))"

section \<open>Postgres\<close>

definition postgresMigrations :: "migration list" where
  "postgresMigrations =
     [mig 1 ''create_messages''
        [CreateTable ''messages'' [''id'', ''username'', ''content'', ''type'', ''timestamp'']],
      mig 2 ''create_moderation_audit_log''
        [CreateTable ''moderation_audit_log''
           [''id'', ''session_id'', ''username'', ''reason'', ''content_preview'', ''content_length'', ''timestamp'']],
      mig 3 ''index_message_timestamp''
        [CreateIndex ''idx_messages_timestamp'' ''messages'' [''timestamp'']],
      mig 4 ''index_moderation_audit_timestamp''
        [CreateIndex ''idx_moderation_audit_log_timestamp'' ''moderation_audit_log'' [''timestamp'']],
      mig 5 ''add_message_rooms''
        [AddColumnIfNotExists ''messages'' ''room'',
         CreateIndex ''idx_messages_room_timestamp'' ''messages'' [''room'', ''timestamp'']],
      mig 6 ''bind_message_and_audit_user_ids''
        [AddColumnIfNotExists ''messages'' ''user_id'',
         AddColumnIfNotExists ''moderation_audit_log'' ''user_id'',
         CreateIndex ''idx_messages_user_id_timestamp'' ''messages'' [''user_id'', ''timestamp'']]]"

text \<open>
  One transaction takes the advisory lock, creates \<open>schema_migrations\<close>, looks the version up and
  applies it; the schema changes only when it commits.
\<close>

definition pg_applyMigration :: "mig_fault \<Rightarrow> migration \<Rightarrow> schema \<Rightarrow> mig_error option \<times> schema" where
  "pg_applyMigration fault m S =
     (if fault = BeginFails then (Some (MigError BeginFails), S)
      else if fault = LockFails then (Some (MigError LockFails), S)
      else if fault = LookupFails then (Some (MigError LookupFails), S)
      else if migrationApplied S (mg_version m) then
        (if fault = CommitFails then (Some (MigError CommitFails), S) else (None, S))
      else case (if fault = SQLFails then None else exec_all (mg_sql m) S) of
             None \<Rightarrow> (Some (MigError SQLFails), S)
           | Some S1 \<Rightarrow>
             if fault = RecordFails \<or> mg_version m \<in> fst ` set (sc_log S1) then (Some (MigError RecordFails), S)
             else if fault = CommitFails then (Some (MigError CommitFails), S)
             else (None, S1\<lparr>sc_log := sc_log S1 @ [(mg_version m, mg_name m)]\<rparr>))"

definition pg_runMigrations :: "(int \<Rightarrow> mig_fault) \<Rightarrow> schema \<Rightarrow> mig_error option \<times> schema" where
  "pg_runMigrations faults S = migration_loop pg_applyMigration postgresMigrations faults S"

text \<open>Any number of starts of the program, whatever fails in each.\<close>

fun migration_runs ::
  "((int \<Rightarrow> mig_fault) \<Rightarrow> schema \<Rightarrow> mig_error option \<times> schema) \<Rightarrow> (int \<Rightarrow> mig_fault) list \<Rightarrow> schema \<Rightarrow> schema" where
  "migration_runs run [] S = S"
| "migration_runs run (faults # fs) S = migration_runs run fs (snd (run faults S))"

section \<open>The contract of one migration\<close>

text \<open>
  \<open>st k\<close> is the schema after the first \<open>k\<close> migrations. Applying a migration either fails and
  leaves the schema alone, skips one that is recorded, or moves from \<open>st k\<close> to the next; without
  faults it does not fail. From that, every run from one of these schemas ends in one of them, no
  earlier, and a run that reports no error has applied everything.
\<close>

locale migrator =
  fixes app :: "mig_fault \<Rightarrow> migration \<Rightarrow> schema \<Rightarrow> mig_error option \<times> schema"
    and ms :: "migration list"
    and st :: "nat \<Rightarrow> schema"
  assumes fails: "app f m S = (Some e, S') \<Longrightarrow> S' = S"
    and skips: "j < k \<Longrightarrow> k \<le> length ms \<Longrightarrow> app f (ms ! j) (st k) = (None, S') \<Longrightarrow> S' = st k"
    and applies: "k < length ms \<Longrightarrow> app f (ms ! k) (st k) = (None, S') \<Longrightarrow> S' = st (Suc k)"
    and succeeds: "j \<le> k \<Longrightarrow> j < length ms \<Longrightarrow> k \<le> length ms \<Longrightarrow> fst (app MigOK (ms ! j) (st k)) = None"
begin

lemma loop_from:
  assumes "j \<le> k" "k \<le> length ms"
  shows "\<exists>k'. k \<le> k' \<and> k' \<le> length ms \<and> snd (migration_loop app (drop j ms) faults (st k)) = st k' \<and>
    (fst (migration_loop app (drop j ms) faults (st k)) = None \<longrightarrow> k' = length ms)"
  using assms
proof (induction "length ms - j" arbitrary: j k)
  case 0
  then have "k = length ms" by simp
  then show ?case using 0 by (intro exI [of _ "length ms"]) auto
next
  case (Suc n)
  then have j: "drop j ms = ms ! j # drop (Suc j) ms" by (simp add: Cons_nth_drop_Suc)
  obtain r S' where a: "app (faults (mg_version (ms ! j))) (ms ! j) (st k) = (r, S')" by fastforce
  show ?case
  proof (cases r)
    case (Some e)
    then have "S' = st k" using fails a by blast
    then show ?thesis using a Some j Suc.prems by (intro exI [of _ k]) simp
  next
    case None
    show ?thesis
    proof (cases "j < k")
      case True
      then have "S' = st k" using skips [OF True Suc.prems(2)] a None by blast
      then show ?thesis using Suc.hyps(1) [of "Suc j" k] Suc.hyps(2) Suc.prems True a None j by simp
    next
      case False
      then have k: "k = j" "k < length ms" using Suc by auto
      then have "S' = st (Suc k)" using applies a None by blast
      moreover have n: "n = length ms - Suc j" using Suc.hyps(2) by simp
      moreover obtain k' where "Suc k \<le> k'" "k' \<le> length ms"
          "snd (migration_loop app (drop (Suc j) ms) faults (st (Suc k))) = st k'"
          "fst (migration_loop app (drop (Suc j) ms) faults (st (Suc k))) = None \<longrightarrow> k' = length ms"
        using Suc.hyps(1) [of "Suc j" "Suc k", OF n] k by auto
      ultimately show ?thesis using k a None j by (intro exI [of _ k']) auto
    qed
  qed
qed

lemma clean_loop_from:
  assumes "j \<le> k" "k \<le> length ms"
  shows "fst (migration_loop app (drop j ms) (\<lambda>_. MigOK) (st k)) = None"
  using assms
proof (induction "length ms - j" arbitrary: j k)
  case (Suc n)
  then have j: "drop j ms = ms ! j # drop (Suc j) ms" by (simp add: Cons_nth_drop_Suc)
  obtain S' where a: "app MigOK (ms ! j) (st k) = (None, S')"
    using succeeds [of j k] Suc by (cases "app MigOK (ms ! j) (st k)") auto
  have "S' = st k \<and> j < k \<or> S' = st (Suc k) \<and> k = j"
    using skips [of j k MigOK S'] applies [of k MigOK S'] a Suc.prems Suc.hyps(2) by (cases "j < k") auto
  then show ?case using Suc.hyps(1) [of "Suc j" k] Suc.hyps(1) [of "Suc j" "Suc k"] Suc.hyps(2) Suc.prems a j by auto
qed simp

lemma runs_from: "k \<le> length ms \<Longrightarrow> \<exists>k' \<le> length ms. migration_runs (migration_loop app ms) fs (st k) = st k'"
proof (induction fs arbitrary: k)
  case (Cons faults fs)
  obtain k1 where "k1 \<le> length ms" "snd (migration_loop app ms faults (st k)) = st k1"
    using loop_from [of 0 k faults] Cons.prems by auto
  then show ?case using Cons.IH by auto
qed auto

lemma loop_clean:
  assumes "k \<le> length ms"
  shows "migration_loop app ms (\<lambda>_. MigOK) (st k) = (None, st (length ms))"
proof -
  have "fst (migration_loop app ms (\<lambda>_. MigOK) (st k)) = None" using clean_loop_from [of 0 k] assms by simp
  then show ?thesis using loop_from [of 0 k "\<lambda>_. MigOK"] assms by (cases "migration_loop app ms (\<lambda>_. MigOK) (st k)") auto
qed

end

section \<open>The schemas of a list of migrations\<close>

definition mig_step :: "migration \<Rightarrow> schema \<Rightarrow> schema" where
  "mig_step m S =
     (case exec_all (mg_sql m) S of
        None \<Rightarrow> S
      | Some S1 \<Rightarrow> S1\<lparr>sc_log := sc_log S1 @ [(mg_version m, mg_name m)]\<rparr>)"

definition migrated :: "migration list \<Rightarrow> nat \<Rightarrow> schema" where
  "migrated ms k = fold mig_step (take k ms) empty_schema"

definition migratable :: "migration list \<Rightarrow> bool" where
  "migratable ms \<longleftrightarrow> distinct (map mg_version ms) \<and>
     list_all (\<lambda>k. exec_all (mg_sql (ms ! k)) (migrated ms k) \<noteq> None) [0..<length ms]"

lemma exec_ddl_log: "exec_ddl d S = Some S' \<Longrightarrow> sc_log S' = sc_log S"
  by (cases "(d, S)" rule: exec_ddl.cases) (auto split: option.splits if_splits)

lemma exec_all_log: "exec_all ds S = Some S' \<Longrightarrow> sc_log S' = sc_log S"
  by (induction ds arbitrary: S) (auto split: option.splits dest: exec_ddl_log)

lemma migrated_Suc: "k < length ms \<Longrightarrow> migrated ms (Suc k) = mig_step (ms ! k) (migrated ms k)"
  by (simp add: migrated_def take_Suc_conv_app_nth)

lemma migratable_exec:
  assumes "migratable ms" "k < length ms"
  shows "\<exists>S1. exec_all (mg_sql (ms ! k)) (migrated ms k) = Some S1 \<and>
    migrated ms (Suc k) = S1\<lparr>sc_log := sc_log S1 @ [(mg_version (ms ! k), mg_name (ms ! k))]\<rparr>"
proof -
  obtain S1 where "exec_all (mg_sql (ms ! k)) (migrated ms k) = Some S1"
    using assms by (fastforce simp: migratable_def list_all_iff)
  then show ?thesis using migrated_Suc [OF assms(2)] by (simp add: mig_step_def)
qed

lemma migrated_log:
  "migratable ms \<Longrightarrow> k \<le> length ms \<Longrightarrow> sc_log (migrated ms k) = map (\<lambda>m. (mg_version m, mg_name m)) (take k ms)"
proof (induction k)
  case (Suc k)
  then obtain S1 where "exec_all (mg_sql (ms ! k)) (migrated ms k) = Some S1"
      "migrated ms (Suc k) = S1\<lparr>sc_log := sc_log S1 @ [(mg_version (ms ! k), mg_name (ms ! k))]\<rparr>"
    using migratable_exec [of ms k] by auto
  then show ?case using Suc exec_all_log by (simp add: take_Suc_conv_app_nth)
qed (simp add: migrated_def empty_schema_def)

lemma migrated_versions:
  assumes "migratable ms" "j < length ms" "k \<le> length ms"
  shows "mg_version (ms ! j) \<in> fst ` set (sc_log (migrated ms k)) \<longleftrightarrow> j < k"
proof -
  let ?vs = "map mg_version ms"
  have "map fst (sc_log (migrated ms k)) = take k ?vs" using migrated_log [OF assms(1,3)] by (simp add: take_map)
  then have "fst ` set (sc_log (migrated ms k)) = set (take k ?vs)" by (metis set_map)
  moreover have "?vs ! j \<in> set (take k ?vs) \<longleftrightarrow> j < k"
  proof
    assume "?vs ! j \<in> set (take k ?vs)"
    then obtain i where "i < k" "i < length ms" "?vs ! i = ?vs ! j" by (auto simp: in_set_conv_nth)
    then show "j < k" using assms(1,2) nth_eq_iff_index_eq [of ?vs i j] by (simp add: migratable_def)
  next
    assume "j < k"
    then have "take k ?vs ! j = ?vs ! j" "j < length (take k ?vs)" using assms(2) by simp_all
    then show "?vs ! j \<in> set (take k ?vs)" by (metis nth_mem)
  qed
  ultimately show ?thesis using assms(2) by simp
qed

lemma migrationApplied_iff: "migrationApplied S v \<longleftrightarrow> v \<in> fst ` set (sc_log S)"
  by (auto simp: migrationApplied_def filter_empty_conv)

section \<open>The two migrators\<close>

lemma migrate_one_fails: "migrate_one f m S = (Some e, S') \<Longrightarrow> S' = S"
  by (auto simp: migrate_one_def applyMigration_def split: if_splits option.splits)

lemma pg_applyMigration_fails: "pg_applyMigration f m S = (Some e, S') \<Longrightarrow> S' = S"
  by (auto simp: pg_applyMigration_def split: if_splits option.splits)

lemma migratable_migrations: "migratable migrations"
  by code_simp

lemma migratable_postgresMigrations: "migratable postgresMigrations"
  by code_simp

lemma applied_state:
  assumes "migratable ms" "j < length ms" "k \<le> length ms"
  shows "migrationApplied (migrated ms k) (mg_version (ms ! j)) \<longleftrightarrow> j < k"
  using migrated_versions [OF assms] by (simp add: migrationApplied_iff)

lemma record_free:
  assumes "migratable ms" "k < length ms" "exec_all (mg_sql (ms ! k)) (migrated ms k) = Some S1"
  shows "mg_version (ms ! k) \<notin> fst ` set (sc_log S1)"
  using migrated_versions [OF assms(1,2), of k] assms exec_all_log [OF assms(3)] by simp

interpretation sqlite_migrator: migrator migrate_one migrations "migrated migrations"
proof (unfold_locales, goal_cases)
  case (1 f m S e S')
  then show ?case by (rule migrate_one_fails)
next
  case (2 j k f S')
  then show ?case using applied_state [OF migratable_migrations, of j k]
    by (auto simp: migrate_one_def split: if_splits)
next
  case (3 k f S')
  then show ?case using applied_state [OF migratable_migrations, of k k] migratable_exec [OF migratable_migrations, of k]
    by (auto simp: migrate_one_def applyMigration_def split: if_splits)
next
  case (4 j k)
  then show ?case
    using applied_state [OF migratable_migrations, of j k] migratable_exec [OF migratable_migrations, of k]
      record_free [OF migratable_migrations, of k]
    by (cases "j < k") (auto simp: migrate_one_def applyMigration_def)
qed

interpretation pg_migrator: migrator pg_applyMigration postgresMigrations "migrated postgresMigrations"
proof (unfold_locales, goal_cases)
  case (1 f m S e S')
  then show ?case by (rule pg_applyMigration_fails)
next
  case (2 j k f S')
  then show ?case using applied_state [OF migratable_postgresMigrations, of j k]
    by (auto simp: pg_applyMigration_def split: if_splits)
next
  case (3 k f S')
  then show ?case using applied_state [OF migratable_postgresMigrations, of k k]
      migratable_exec [OF migratable_postgresMigrations, of k]
    by (auto simp: pg_applyMigration_def split: if_splits)
next
  case (4 j k)
  then show ?case
    using applied_state [OF migratable_postgresMigrations, of j k]
      migratable_exec [OF migratable_postgresMigrations, of k] record_free [OF migratable_postgresMigrations, of k]
    by (cases "j < k") (auto simp: pg_applyMigration_def)
qed

lemma migrated_0: "migrated ms 0 = empty_schema"
  by (simp add: migrated_def)

end
