(* ===== verification/Broker.thy ===== *)
theory Broker
  imports HubStorage
begin

text \<open>
  The Redis fan-out, \<open>internal/broker/redis.go\<close>: construction, publishing, the subscription
  loop and its reconnection with backoff. The Redis client and \<open>encoding/json\<close> are libraries:
  \<open>broker_lib\<close> holds what is used of them, and what Redis delivers is a sequence chosen by the
  environment. The last section puts the fan-out under the hub.
\<close>

section \<open>State\<close>

record broker_lib =
  redis_ParseURL :: "string \<Rightarrow> bool"
  marshal_event :: "Envelope \<Rightarrow> string option"
  unmarshal_event :: "string \<Rightarrow> Envelope option"

record broker_Config =
  bc_URL :: string
  bc_Namespace :: string
  bc_InstanceID :: string

record RedisFanout =
  rf_namespace :: string
  rf_instanceID :: string
  rf_ready :: bool
  rf_closed :: bool
  rf_closeErr :: bool

record RedisMetrics =
  RedisConnections :: "string \<Rightarrow> nat"
  RedisPublishes :: "string \<Rightarrow> nat"
  RedisSubscriptions :: "string \<Rightarrow> nat"
  RedisDecodes :: "string \<Rightarrow> nat"
  RedisReconnects :: nat

datatype broker_error =
    URLRequired
  | InvalidRedisNamespace channel_error
  | InvalidRedisInstanceID token_error
  | InvalidRedisURL
  | ConnectionCheckFailed
  | InvalidEvent event_error
  | OriginMismatch
  | BadChannel channel_error
  | EncodeFailed
  | PublishFailed
  | BadPattern channel_error

definition RedisFanout_InstanceID :: "RedisFanout \<Rightarrow> string" where
  "RedisFanout_InstanceID b = rf_instanceID b"

text \<open>Whether the channel \<open>Ready\<close> hands out has been closed.\<close>

definition RedisFanout_Ready :: "RedisFanout \<Rightarrow> bool" where
  "RedisFanout_Ready b = rf_ready b"

definition millisecond :: int where "millisecond = 1000000"
definition redisPingTimeout :: int where "redisPingTimeout = 2 * second"
definition redisMinBackoff :: int where "redisMinBackoff = 100 * millisecond"
definition redisMaxBackoff :: int where "redisMaxBackoff = 5 * second"

section \<open>Construction\<close>

definition NewRedis :: "broker_lib \<Rightarrow> bool \<Rightarrow> broker_Config \<Rightarrow> RedisMetrics \<Rightarrow> (broker_error, RedisFanout) result \<times> RedisMetrics" where
  "NewRedis L pingOK cfg M =
     (if TrimSpace (bc_URL cfg) = [] then (Inl URLRequired, M)
      else let namespace = ToLower (TrimSpace (bc_Namespace cfg)) in
        case ChannelPattern namespace of
          Inl e \<Rightarrow> (Inl (InvalidRedisNamespace e), M)
        | Inr _ \<Rightarrow>
          let instanceID = ToLower (TrimSpace (bc_InstanceID cfg)) in
          (case ValidateInstanceID instanceID of
             Some e \<Rightarrow> (Inl (InvalidRedisInstanceID e), M)
           | None \<Rightarrow>
             if \<not> redis_ParseURL L (TrimSpace (bc_URL cfg)) then (Inl InvalidRedisURL, M)
             else if \<not> pingOK then (Inl ConnectionCheckFailed, RedisConnections_update (inc ''error'') M)
             else (Inr \<lparr>rf_namespace = namespace, rf_instanceID = instanceID, rf_ready = False,
                           rf_closed = False, rf_closeErr = False\<rparr>,
                   RedisConnections_update (inc ''ok'') M)))"

section \<open>Publishing\<close>

text \<open>The channel and the payload handed to Redis, when the call gets that far and succeeds.\<close>

definition Publish ::
  "broker_lib \<Rightarrow> bool \<Rightarrow> RedisFanout \<Rightarrow> Envelope \<Rightarrow> RedisMetrics \<Rightarrow> (broker_error, string \<times> string) result \<times> RedisMetrics" where
  "Publish L sendOK b event M =
     (let failed = RedisPublishes_update (inc ''error'') M in
      case Validate event of
        Some e \<Rightarrow> (Inl (InvalidEvent e), failed)
      | None \<Rightarrow>
        if env_OriginInstance event \<noteq> rf_instanceID b then (Inl OriginMismatch, failed)
        else case Channel (rf_namespace b) (env_Room event) of
               Inl e \<Rightarrow> (Inl (BadChannel e), failed)
             | Inr channel \<Rightarrow>
               (case marshal_event L event of
                  None \<Rightarrow> (Inl EncodeFailed, failed)
                | Some payload \<Rightarrow>
                  if \<not> sendOK then (Inl PublishFailed, failed)
                  else (Inr (channel, payload), RedisPublishes_update (inc ''ok'') M)))"

section \<open>Subscribing\<close>

text \<open>One received message: the event for the handler, if it decodes, is valid and came on its own channel.\<close>

definition decode_event :: "broker_lib \<Rightarrow> RedisFanout \<Rightarrow> string \<Rightarrow> string \<Rightarrow> Envelope option" where
  "decode_event L b msgChannel payload =
     (case unmarshal_event L payload of
        None \<Rightarrow> None
      | Some event \<Rightarrow>
        if Validate event \<noteq> None then None
        else case Channel (rf_namespace b) (env_Room event) of
               Inl _ \<Rightarrow> None
             | Inr channel \<Rightarrow> if channel \<noteq> msgChannel then None else Some event)"

text \<open>
  What \<open>ReceiveMessage\<close> returns, in order. The loop ends at the first error; \<open>False\<close>: it is
  still waiting after the last message of the list.
\<close>

datatype recv = RecvMessage string string | RecvError

fun receive_loop :: "broker_lib \<Rightarrow> RedisFanout \<Rightarrow> recv list \<Rightarrow> RedisMetrics \<Rightarrow> Envelope list \<times> bool \<times> RedisMetrics" where
  "receive_loop L b [] M = ([], False, M)"
| "receive_loop L b (RecvError # rs) M = ([], True, RedisSubscriptions_update (inc ''error'') M)"
| "receive_loop L b (RecvMessage msgChannel payload # rs) M =
     (case decode_event L b msgChannel payload of
        None \<Rightarrow> receive_loop L b rs (RedisDecodes_update (inc ''error'') M)
      | Some event \<Rightarrow>
        let (events, ended, M) = receive_loop L b rs (RedisDecodes_update (inc ''ok'') M) in (event # events, ended, M))"

definition subscribeOnce ::
  "broker_lib \<Rightarrow> bool \<Rightarrow> recv list \<Rightarrow> RedisFanout \<Rightarrow> RedisMetrics \<Rightarrow> Envelope list \<times> bool \<times> RedisFanout \<times> RedisMetrics" where
  "subscribeOnce L subscribed rs b M =
     (if \<not> subscribed then ([], True, b, RedisSubscriptions_update (inc ''error'') M)
      else let (events, ended, M) = receive_loop L b rs (RedisSubscriptions_update (inc ''ok'') M)
           in (events, ended, b\<lparr>rf_ready := True\<rparr>, M))"

text \<open>
  One turn of the loop of \<open>Run\<close>: whether the subscription was made, what was received, whether
  the context had ended then, and whether the timer of the backoff fired before it did.
\<close>

record attempt =
  at_subscribed :: bool
  at_received :: "recv list"
  at_ctxDone :: bool
  at_timer :: bool

definition next_backoff :: "int \<Rightarrow> int" where
  "next_backoff backoff =
     (let backoff = backoff * 2 in if backoff > redisMaxBackoff then redisMaxBackoff else backoff)"

text \<open>The handled events, the waits, and whether \<open>Run\<close> has returned.\<close>

fun run_loop ::
  "broker_lib \<Rightarrow> int \<Rightarrow> attempt list \<Rightarrow> RedisFanout \<Rightarrow> RedisMetrics \<Rightarrow>
     Envelope list \<times> int list \<times> bool \<times> RedisFanout \<times> RedisMetrics" where
  "run_loop L backoff [] b M = ([], [], False, b, M)"
| "run_loop L backoff (a # as) b M =
     (let (events, ended, b, M) = subscribeOnce L (at_subscribed a) (at_received a) b M in
      if \<not> ended then (events, [], False, b, M)
      else if at_ctxDone a then (events, [], True, b, M)
      else let M = RedisReconnects_update Suc M in
        if \<not> at_timer a then (events, [backoff], True, b, M)
        else let (events', waits, returned, b, M) = run_loop L (next_backoff backoff) as b M
             in (events @ events', backoff # waits, returned, b, M))"

definition Run ::
  "broker_lib \<Rightarrow> attempt list \<Rightarrow> RedisFanout \<Rightarrow> RedisMetrics \<Rightarrow>
     (broker_error, Envelope list \<times> int list \<times> bool \<times> RedisFanout \<times> RedisMetrics) result" where
  "Run L as b M =
     (case ChannelPattern (rf_namespace b) of
        Inl e \<Rightarrow> Inl (BadPattern e)
      | Inr _ \<Rightarrow> Inr (run_loop L redisMinBackoff as b M))"

text \<open>
  \<open>sync.Once\<close> around the library's close: the first call decides the answer of every later one.
  The new state, whether the library was called, and whether \<open>Close\<close> reports an error.
\<close>

definition Redis_Close :: "bool \<Rightarrow> RedisFanout \<Rightarrow> RedisFanout \<times> bool \<times> bool" where
  "Redis_Close closeFails b =
     (if rf_closed b then (b, False, rf_closeErr b)
      else (b\<lparr>rf_closed := True, rf_closeErr := closeFails\<rparr>, True, closeFails))"

section \<open>The broker goroutines of the hub\<close>

text \<open>
  One turn of \<open>runBrokerPublisher\<close>: it takes the oldest event and publishes it, ignoring an
  error; \<open>None\<close> while it waits or when it returns. When the broker is cancelled and an event is
  queued, \<open>select\<close> may take either: \<open>pick\<close>.
\<close>

definition runBrokerPublisher ::
  "broker_lib \<Rightarrow> bool \<Rightarrow> bool \<Rightarrow> RedisFanout \<Rightarrow> RedisMetrics \<Rightarrow> ('l, 's) Hub \<Rightarrow>
     ((broker_error, string \<times> string) result \<times> RedisMetrics \<times> ('l, 's) Hub) option" where
  "runBrokerPublisher L pick sendOK b M h =
     (if h_brokerCancelled h \<and> \<not> pick then None
      else case h_brokerPublish h of
             Some (event # q) \<Rightarrow>
               (case Publish L sendOK b event M of (res, M') \<Rightarrow> Some (res, M', h\<lparr>h_brokerPublish := Some q\<rparr>))
           | _ \<Rightarrow> None)"

text \<open>\<open>runBrokerSubscriber\<close> over the turns the environment chooses; the handler is \<open>handleRemoteEvent\<close>.\<close>

definition runBrokerSubscriber ::
  "broker_lib \<Rightarrow> attempt list \<Rightarrow> bool \<Rightarrow> RedisFanout \<Rightarrow> RedisMetrics \<Rightarrow> ('l, 's) Hub \<Rightarrow>
     ('l, 's) Hub \<times> RedisFanout \<times> RedisMetrics" where
  "runBrokerSubscriber L as pick b M h =
     (case Run L as b M of
        Inl _ \<Rightarrow> (h, b, M)
      | Inr (events, waits, returned, b', M') \<Rightarrow> (fold (handleRemoteEvent pick) events h, b', M'))"

section \<open>Lemmas\<close>

lemma Redis_Close_once:
  assumes "Redis_Close f b = (b', called, err)"
  shows "Redis_Close g b' = (b', False, err)"
  using assms by (auto simp: Redis_Close_def split: if_splits)

text \<open>The fan-out reports to be ready exactly from its first successful subscription on.\<close>

lemma subscribeOnce_ready:
  "subscribeOnce L subscribed rs b M = (events, ended, b', M') \<Longrightarrow>
     RedisFanout_Ready b' = (RedisFanout_Ready b \<or> subscribed) \<and> RedisFanout_InstanceID b' = RedisFanout_InstanceID b"
  by (auto simp: subscribeOnce_def RedisFanout_Ready_def RedisFanout_InstanceID_def split: if_splits prod.splits)

lemma Publish_ok:
  assumes "Publish L sendOK b event M = (Inr (channel, payload), M')"
  shows "envelope_ok event \<and> env_OriginInstance event = rf_instanceID b \<and>
    Channel (rf_namespace b) (env_Room event) = Inr channel \<and> marshal_event L event = Some payload \<and> sendOK"
  using assms by (auto simp: Publish_def Let_def Validate_ok_iff split: option.splits sum.splits if_splits)

lemma decode_event_ok:
  "decode_event L b channel payload = Some event \<longleftrightarrow>
     unmarshal_event L payload = Some event \<and> envelope_ok event \<and> Channel (rf_namespace b) (env_Room event) = Inr channel"
  by (auto simp: decode_event_def Validate_ok_iff split: option.splits sum.splits if_splits)

definition delivered_by :: "broker_lib \<Rightarrow> string \<Rightarrow> recv list \<Rightarrow> Envelope \<Rightarrow> bool" where
  "delivered_by L ns rs event \<longleftrightarrow> envelope_ok event \<and>
     (\<exists>channel payload. RecvMessage channel payload \<in> set rs \<and> Channel ns (env_Room event) = Inr channel \<and>
        unmarshal_event L payload = Some event)"

lemma receive_loop_sound:
  "receive_loop L b rs M = (events, ended, M') \<Longrightarrow> list_all (delivered_by L (rf_namespace b) rs) events"
proof (induction L b rs M arbitrary: events rule: receive_loop.induct)
  case (3 L b channel payload rs M)
  have mono: "delivered_by L (rf_namespace b) rs e \<Longrightarrow> delivered_by L (rf_namespace b) (RecvMessage channel payload # rs) e" for e
    by (auto simp: delivered_by_def)
  show ?case
  proof (cases "decode_event L b channel payload")
    case None
    then show ?thesis using 3(1) [OF None] 3(3) mono by (auto simp: list_all_iff)
  next
    case (Some event)
    obtain es where es: "receive_loop L b rs (RedisDecodes_update (inc ''ok'') M) = (es, ended, M')" "events = event # es"
      using 3(3) Some by (auto split: prod.splits)
    have "delivered_by L (rf_namespace b) (RecvMessage channel payload # rs) event"
      using Some unfolding decode_event_ok by (auto simp: delivered_by_def)
    then show ?thesis using 3(2) [OF Some es(1)] es(2) mono by (auto simp: list_all_iff)
  qed
qed auto

lemma subscribeOnce_sound:
  assumes "subscribeOnce L s rs b M = (events, ended, b', M')"
  shows "list_all (delivered_by L (rf_namespace b) rs) events \<and> rf_namespace b' = rf_namespace b"
  using assms receive_loop_sound by (fastforce simp: subscribeOnce_def split: if_splits prod.splits)

lemma run_loop_sound:
  "run_loop L backoff as b M = (events, waits, returned, b', M') \<Longrightarrow>
     list_all (delivered_by L (rf_namespace b) (concat (map at_received as))) events"
proof (induction as arbitrary: backoff b M events waits returned b' M')
  case (Cons a as)
  obtain es ended b1 M1 where s: "subscribeOnce L (at_subscribed a) (at_received a) b M = (es, ended, b1, M1)"
    by (metis prod.exhaust)
  note s1 = subscribeOnce_sound [OF s]
  have mono: "delivered_by L ns rs e \<Longrightarrow> set rs \<subseteq> set rs' \<Longrightarrow> delivered_by L ns rs' e" for ns rs rs' e
    by (auto simp: delivered_by_def)
  have here: "list_all (delivered_by L (rf_namespace b) (concat (map at_received (a # as)))) es"
    using s1 mono [of "rf_namespace b" "at_received a"] by (auto simp: list_all_iff)
  show ?case
  proof (cases "ended \<and> \<not> at_ctxDone a \<and> at_timer a")
    case False
    then have "events = es" using Cons.prems s by (auto simp: Let_def split: if_splits)
    then show ?thesis using here by simp
  next
    case True
    obtain es' ws r b2 M2 where r: "run_loop L (next_backoff backoff) as b1 (RedisReconnects_update Suc M1) = (es', ws, r, b2, M2)"
      by (metis prod.exhaust)
    have "events = es @ es'" using Cons.prems s r True by (simp add: Let_def)
    moreover have "list_all (delivered_by L (rf_namespace b) (concat (map at_received (a # as)))) es'"
      using Cons.IH [OF r] s1 mono [of "rf_namespace b" "concat (map at_received as)"] by (auto simp: list_all_iff)
    ultimately show ?thesis using here by simp
  qed
qed simp

text \<open>The waits double from the minimum up to the maximum.\<close>

lemma run_loop_waits:
  "run_loop L backoff as b M = (events, waits, returned, b', M') \<Longrightarrow> 0 < backoff \<Longrightarrow> backoff \<le> redisMaxBackoff \<Longrightarrow>
     k < length waits \<Longrightarrow> waits ! k = min (backoff * 2 ^ k) redisMaxBackoff"
proof (induction as arbitrary: backoff b M events waits k returned b' M')
  case (Cons a as)
  obtain es ended b1 M1 where s: "subscribeOnce L (at_subscribed a) (at_received a) b M = (es, ended, b1, M1)"
    by (metis prod.exhaust)
  show ?case
  proof (cases "ended \<and> \<not> at_ctxDone a \<and> at_timer a")
    case False
    then have "waits = [] \<or> waits = [backoff]" using Cons.prems(1) s by (auto simp: Let_def split: if_splits)
    then show ?thesis using Cons.prems(3,4) by auto
  next
    case True
    obtain es' ws r b2 M2 where r: "run_loop L (next_backoff backoff) as b1 (RedisReconnects_update Suc M1) = (es', ws, r, b2, M2)"
      by (metis prod.exhaust)
    have w: "waits = backoff # ws" using Cons.prems(1) s r True by (simp add: Let_def)
    have nb: "0 < next_backoff backoff" "next_backoff backoff \<le> redisMaxBackoff" "next_backoff backoff = min (backoff * 2) redisMaxBackoff"
      using Cons.prems(2) by (auto simp: next_backoff_def Let_def redisMaxBackoff_def second_def)
    show ?thesis
    proof (cases k)
      case 0
      then show ?thesis using w Cons.prems(3) by simp
    next
      case (Suc j)
      have "ws ! j = min (min (backoff * 2) redisMaxBackoff * 2 ^ j) redisMaxBackoff"
        using Cons.IH [OF r nb(1,2), of j] Cons.prems(4) w Suc nb(3) by simp
      also have "\<dots> = min (backoff * 2 ^ k) redisMaxBackoff"
      proof (cases "backoff * 2 \<le> redisMaxBackoff")
        case False
        have "(1::int) \<le> 2 ^ j" by simp
        then have "redisMaxBackoff \<le> redisMaxBackoff * 2 ^ j" "backoff * 2 \<le> backoff * 2 * 2 ^ j"
          using Cons.prems(2) by (simp_all add: redisMaxBackoff_def second_def mult_le_cancel_left1)
        then show ?thesis using False Suc by (simp add: min_def mult.assoc)
      qed (simp add: Suc min_def mult.assoc)
      finally show ?thesis using w Suc by simp
    qed
  qed
qed simp

section \<open>Under the hub\<close>

text \<open>
  Every event the subscription hands over is one the hub's machine accepts as a remote event,
  so a subscription feeding \<open>handleRemoteEvent\<close> is a run of the machine.
\<close>

lemma remote_events_run:
  "list_all envelope_ok events \<Longrightarrow> (hub_step R X invar)\<^sup>*\<^sup>* h (fold (handleRemoteEvent pick) events h)"
proof (induction events arbitrary: h)
  case (Cons e events)
  then have "hub_step R X invar h (handleRemoteEvent pick e h)" by (intro Remote) simp
  then show ?case using Cons by (simp add: converse_rtranclp_into_rtranclp)
qed simp

lemma runBrokerPublisher_step:
  assumes "runBrokerPublisher L pick sendOK b M h = Some (res, M', h')"
  shows "hub_step R X invar h h'"
  using assms
  by (auto simp: runBrokerPublisher_def split: if_splits option.splits list.splits prod.splits intro: BrokerSent)

lemma runBrokerSubscriber_run:
  "(hub_step R X invar)\<^sup>*\<^sup>* h (fst (runBrokerSubscriber L as pick b M h))"
proof (cases "Run L as b M")
  case (Inr r)
  obtain events waits returned b1 M1 where r: "r = (events, waits, returned, b1, M1)" by (metis prod.exhaust)
  have "run_loop L redisMinBackoff as b M = r" using Inr by (simp add: Run_def split: sum.splits)
  then have "list_all envelope_ok events"
    using run_loop_sound r by (fastforce simp: delivered_by_def list_all_iff)
  then show ?thesis using Inr r remote_events_run by (auto simp: runBrokerSubscriber_def)
qed (simp add: runBrokerSubscriber_def)

text \<open>A message received on a live subscription is handed over when it decodes.\<close>

lemma runBrokerSubscriber_one:
  assumes "decode_event L b channel payload = Some event" "normalizeToken (rf_namespace b) = Inr ns"
    and "as = [\<lparr>at_subscribed = True, at_received = [RecvMessage channel payload], at_ctxDone = done, at_timer = timer\<rparr>]"
  shows "fst (runBrokerSubscriber L as pick b M h) = handleRemoteEvent pick event h"
proof -
  have "\<exists>p. ChannelPattern (rf_namespace b) = Inr p" using assms(2) by (simp add: ChannelPattern_def)
  then show ?thesis
    using assms(1,3) by (auto simp: runBrokerSubscriber_def Run_def subscribeOnce_def)
qed

text \<open>What is queued for the broker is the message itself, with its time in UTC.\<close>

lemma publishContext_event:
  assumes "publishContext pick eventID m h = Some (ok, h')" "h_brokerPublish h = Some q" "h_brokerPublish h' = Some (q @ [event])"
  shows "message_of_event event = m\<lparr>m_Timestamp := time_UTC (m_Timestamp m)\<rparr> \<and> env_EventID event = eventID \<and>
    env_OriginInstance event = h_instanceID h"
proof -
  let ?g = "h\<lparr>h_broadcast := h_broadcast h @ [m]\<rparr>"
  have "h' = queueBrokerMessage eventID m ?g"
    using assms by (auto simp: publishContext_def split: if_splits)
  then have "New eventID (m_Room m) (h_instanceID h)
      \<lparr>em_ID = m_ID m, em_UserID = m_UserID m, em_Username = m_Username m, em_Content = m_Content m, em_Type = m_Type m\<rparr>
      (m_Timestamp m) = Inr event"
    using assms(2,3) by (auto simp: queueBrokerMessage_def redis_drop_def count_def split: if_splits sum.splits)
  from New_ok [OF this] show ?thesis by (simp add: message_of_event_def)
qed

text \<open>The other direction: what a reachable hub has queued passes every check of \<open>Publish\<close>.\<close>

lemma queued_event_publishes:
  assumes "hub_inv invar h" "h_brokerPublish h = Some q" "event \<in> set q"
    and "rf_instanceID b = h_instanceID h" "normalizeToken (rf_namespace b) = Inr ns" "marshal_event L event = Some payload"
  shows "fst (Publish L True b event M) = Inr (channel_prefix ns @ env_Room event, payload)"
proof -
  have ok: "envelope_ok event" "env_OriginInstance event = h_instanceID h"
    using hub_invD(10) [OF assms(1)] assms(2,3) by (auto simp: broker_ok_def list_all_iff)
  then have "NormalizeRoom (env_Room event) = Inr (env_Room event)"
    by (auto simp: envelope_ok_def intro: NormalizeRoom_canonical_id)
  then have "Channel (rf_namespace b) (env_Room event) = Inr (channel_prefix ns @ env_Room event)"
    using assms(5) by (simp add: Channel_def)
  moreover have "Validate event = None" using ok(1) by (simp add: Validate_ok_iff)
  ultimately show ?thesis using ok(2) assms(4,6) by (simp add: Publish_def)
qed

lemma NewRedis_ok:
  assumes "NewRedis L pingOK cfg M = (Inr b, M')"
  shows "is_ok (normalizeToken (rf_namespace b)) \<and> is_ok (normalizeToken (rf_instanceID b)) \<and>
    TrimSpace (bc_URL cfg) \<noteq> [] \<and> pingOK \<and> \<not> rf_ready b"
  using assms by (auto simp: NewRedis_def ChannelPattern_def ValidateInstanceID_def Let_def is_ok_iff
      split: sum.splits option.splits if_splits)

end
