(* ===== verification/Paths.thy ===== *)
theory Paths
  imports GoHttp
begin

text \<open>
  Serving static files, \<open>staticHandler\<close> of \<open>server.go\<close>: \<open>filepath.Clean\<close> and \<open>filepath.Join\<close> on
  Unix, the choice the handler makes, and the file \<open>net/http\<close> opens for it. The lemmas show that
  nothing outside the static directory is opened.
\<close>

section \<open>path/filepath\<close>

definition rooted :: "string \<Rightarrow> bool" where
  "rooted path \<longleftrightarrow> HasPrefix path ''/''"

text \<open>
  \<open>Clean\<close> reads the path element by element and keeps the elements written so far, the last
  one first: empty elements and dots are dropped, and two dots take back the last element if
  there is one to take back.
\<close>

definition clean_elem :: "bool \<Rightarrow> string \<Rightarrow> string list \<Rightarrow> string list" where
  "clean_elem root e out =
     (if e = [] \<or> e = ''.'' then out
      else if e = ''..'' then
        (case out of
           [] \<Rightarrow> if root then [] else [''..'']
         | t # ts \<Rightarrow> if t = ''..'' then ''..'' # out else ts)
      else e # out)"

definition path_elems :: "string \<Rightarrow> string list" where
  "path_elems path = rev (fold (clean_elem (rooted path)) (Split path (CHR ''/'')) [])"

fun strings_Join :: "string list \<Rightarrow> string \<Rightarrow> string" where
  "strings_Join [] sep = []"
| "strings_Join [e] sep = e"
| "strings_Join (e # es) sep = e @ sep @ strings_Join es sep"

definition Clean :: "string \<Rightarrow> string" where
  "Clean path =
     (if path = [] then ''.''
      else let out = (if rooted path then ''/'' else []) @ strings_Join (path_elems path) ''/''
        in if out = [] then ''.'' else out)"

definition filepath_Join :: "string \<Rightarrow> string \<Rightarrow> string" where
  "filepath_Join a b =
     (if a \<noteq> [] then Clean (a @ ''/'' @ b) else if b \<noteq> [] then Clean b else [])"

section \<open>The handler\<close>

datatype static_call = ServeFile string | FileServer string

text \<open>\<open>os.Stat\<close> answers \<open>None\<close> for an error and otherwise whether the file is a directory.\<close>

definition staticHandler :: "string \<Rightarrow> (string \<Rightarrow> bool option) \<Rightarrow> Request \<Rightarrow> static_call" where
  "staticHandler staticDir stat r =
     (let cleanPath = Clean (req_Path r) in
      if cleanPath = ''.'' \<or> cleanPath = ''/'' then ServeFile (filepath_Join staticDir ''index.html'')
      else let path = filepath_Join staticDir cleanPath in
        if stat path = Some False then FileServer staticDir
        else ServeFile (filepath_Join staticDir ''index.html''))"

text \<open>
  What \<open>net/http\<close> does with the call: \<open>ServeFile\<close> refuses a URL path with an element of two
  dots, both redirect a path that ends in \<open>/index.html\<close>, and \<open>FileServer\<close> opens the cleaned URL
  path under its directory. \<open>None\<close>: no file is opened.
\<close>

definition HasSuffix :: "string \<Rightarrow> string \<Rightarrow> bool" where
  "HasSuffix s p \<longleftrightarrow> length p \<le> length s \<and> drop (length s - length p) s = p"

definition containsDotDot :: "string \<Rightarrow> bool" where
  "containsDotDot v \<longleftrightarrow> ''..'' \<in> set (Split (map (\<lambda>c. if c = CHR 0x5C then CHR ''/'' else c) v) (CHR ''/''))"

definition Dir_Open :: "string \<Rightarrow> string \<Rightarrow> string" where
  "Dir_Open dir name = filepath_Join dir (Clean (''/'' @ name))"

definition static_file :: "static_call \<Rightarrow> Request \<Rightarrow> string option" where
  "static_file call r =
     (let upath = req_Path r in
      case call of
        ServeFile name \<Rightarrow> if containsDotDot upath \<or> HasSuffix upath ''/index.html'' then None else Some name
      | FileServer dir \<Rightarrow>
        if HasSuffix upath ''/index.html'' then None
        else let upath = (if \<not> rooted upath then ''/'' @ upath else upath) in Some (Dir_Open dir (Clean upath)))"

section \<open>Splitting and joining\<close>

lemma Split_append: "Split (a @ c # b) c = Split a c @ Split b c"
  by (induction a) (auto split: list.splits)

lemma Split_atom: "c \<notin> set e \<Longrightarrow> Split e c = [e]"
  by (induction e) auto

lemma Split_Join:
  "es \<noteq> [] \<Longrightarrow> list_all (\<lambda>e. c \<notin> set e) es \<Longrightarrow> Split (strings_Join es [c]) c = es"
  by (induction es "[c]" rule: strings_Join.induct) (auto simp: Split_append Split_atom)

lemma strings_Join_Cons: "\<exists>t. strings_Join (e # es) sep = e @ t"
  by (cases es) auto

lemma Split_no_sep_all: "list_all (\<lambda>e. c \<notin> set e) (Split s c)"
  using Split_no_sep by (auto simp: list_all_iff)

section \<open>Cleaned paths\<close>

text \<open>An element that names a file or directory of its own.\<close>

definition proper :: "string \<Rightarrow> bool" where
  "proper e \<longleftrightarrow> e \<noteq> [] \<and> e \<noteq> ''.'' \<and> e \<noteq> ''..'' \<and> CHR ''/'' \<notin> set e"

text \<open>The elements kept by \<open>Clean\<close>, last first: proper ones over leading pairs of dots, and none of the latter under a root.\<close>

definition clean_stack :: "bool \<Rightarrow> string list \<Rightarrow> bool" where
  "clean_stack root out \<longleftrightarrow> (\<exists>ps n. out = ps @ replicate n ''..'' \<and> list_all proper ps \<and> (root \<longrightarrow> n = 0))"

lemma clean_stack_Nil [simp]: "clean_stack root []"
  by (simp add: clean_stack_def)

lemma clean_stackI: "list_all proper ps \<Longrightarrow> (root \<Longrightarrow> n = 0) \<Longrightarrow> clean_stack root (ps @ replicate n ''..'')"
  by (auto simp: clean_stack_def)

lemma clean_elem_stack:
  assumes "clean_stack root out" "CHR ''/'' \<notin> set e"
  shows "clean_stack root (clean_elem root e out)"
proof -
  obtain ps n where out: "out = ps @ replicate n ''..''" "list_all proper ps" "root \<longrightarrow> n = 0"
    using assms(1) by (auto simp: clean_stack_def)
  consider "e = [] \<or> e = ''.''" | "e = ''..''" | "proper e" using assms(2) by (auto simp: proper_def)
  then show ?thesis
  proof cases
    case 1
    then show ?thesis using assms(1) by (auto simp: clean_elem_def)
  next
    case 2
    show ?thesis
    proof (cases ps)
      case Nil
      then have "clean_elem root e out = (if root then [] else replicate (Suc n) ''..'')"
        using 2 out by (cases n) (auto simp: clean_elem_def)
      then show ?thesis using clean_stackI [of "[]" root "Suc n"] by (cases root) simp_all
    next
      case (Cons p ps')
      then have "clean_elem root e out = ps' @ replicate n ''..''" using 2 out by (auto simp: clean_elem_def proper_def)
      then show ?thesis using out Cons by (auto intro: clean_stackI)
    qed
  next
    case 3
    then have "clean_elem root e out = (e # ps) @ replicate n ''..''" using out by (auto simp: clean_elem_def proper_def)
    moreover have "list_all proper (e # ps)" using 3 out by simp
    ultimately show ?thesis using out(3) clean_stackI by metis
  qed
qed

lemma fold_clean_stack:
  "clean_stack root out \<Longrightarrow> list_all (\<lambda>e. CHR ''/'' \<notin> set e) es \<Longrightarrow> clean_stack root (fold (clean_elem root) es out)"
  by (induction es arbitrary: out) (auto simp: clean_elem_stack)

lemma clean_elem_proper: "proper e \<Longrightarrow> clean_elem root e out = e # out"
  by (simp add: clean_elem_def proper_def)

lemma fold_clean_proper: "list_all proper es \<Longrightarrow> fold (clean_elem root) es out = rev es @ out"
  by (induction es arbitrary: out) (auto simp: clean_elem_proper)

lemma fold_clean_dots: "fold (clean_elem False) (replicate n ''..'') (replicate k ''..'') = replicate (n + k) ''..''"
proof (induction n arbitrary: k)
  case (Suc n)
  have "clean_elem False ''..'' (replicate k ''..'') = replicate (Suc k) ''..''" by (cases k) (auto simp: clean_elem_def)
  then show ?case using Suc [of "Suc k"] by simp
qed simp

text \<open>Cleaned elements are left alone by a second pass.\<close>

lemma fold_clean_stable:
  assumes "clean_stack root out"
  shows "fold (clean_elem root) (rev out) [] = out"
proof -
  obtain ps n where out: "out = ps @ replicate n ''..''" "list_all proper ps" "root \<longrightarrow> n = 0"
    using assms by (auto simp: clean_stack_def)
  have "fold (clean_elem root) (replicate n ''..'') [] = replicate n ''..''"
    using out(3) fold_clean_dots [of n 0] by (cases root) auto
  moreover have "list_all proper (rev ps)" using out(2) by (simp add: list_all_iff)
  ultimately show ?thesis using out(1) by (simp add: fold_clean_proper)
qed

lemma path_elems_stack: "clean_stack (rooted p) (rev (path_elems p))"
  by (simp add: path_elems_def fold_clean_stack Split_no_sep_all)

lemma clean_stack_set:
  assumes "clean_stack root out" "e \<in> set out"
  shows "proper e \<or> \<not> root \<and> e = ''..''"
  using assms by (auto simp: clean_stack_def list_all_iff)

lemma path_elems_set: "e \<in> set (path_elems p) \<Longrightarrow> proper e \<or> \<not> rooted p \<and> e = ''..''"
  using clean_stack_set [OF path_elems_stack, of e p] by simp

lemma path_elems_no_sep: "list_all (\<lambda>e. CHR ''/'' \<notin> set e) (path_elems p)"
  using path_elems_set by (fastforce simp: list_all_iff proper_def)

lemma path_elems_proper: "rooted p \<Longrightarrow> list_all proper (path_elems p)"
  using path_elems_set by (auto simp: list_all_iff)

lemma path_elems_nonempty: "e \<in> set (path_elems p) \<Longrightarrow> e \<noteq> []"
  using path_elems_set [of e p] by (auto simp: proper_def)

lemma Split_Clean:
  "fold (clean_elem root) (Split (Clean p) (CHR ''/'')) out = fold (clean_elem root) (path_elems p) out"
proof -
  have j: "Split (strings_Join (path_elems p) ''/'') (CHR ''/'') = (if path_elems p = [] then [[]] else path_elems p)"
    using Split_Join [OF _ path_elems_no_sep] by simp
  have e: "clean_elem root [] out = out" "clean_elem root ''.'' out = out" for out by (simp_all add: clean_elem_def)
  have r: "Split (''/'' @ x) (CHR ''/'') = [] # Split x (CHR ''/'')" for x by simp
  have n: "strings_Join (path_elems p) ''/'' = [] \<Longrightarrow> path_elems p = []"
    using path_elems_nonempty [of _ p] strings_Join_Cons [of _ _ "''/''"]
    by (cases "path_elems p") (auto, metis append_is_Nil_conv)
  have "path_elems [] = []" by (simp add: path_elems_def clean_elem_def)
  then show ?thesis
    using j n by (auto simp: Clean_def Let_def e r)
qed

lemma rooted_Clean [simp]: "rooted (Clean p) = rooted p"
proof -
  have n: "\<not> rooted (strings_Join (path_elems p) ''/'')"
  proof (cases "path_elems p")
    case (Cons e es)
    obtain t where "strings_Join (path_elems p) ''/'' = e @ t" using strings_Join_Cons Cons by metis
    moreover have "e \<noteq> []" "CHR ''/'' \<notin> set e"
      using path_elems_nonempty [of e p] path_elems_no_sep [of p] Cons by auto
    ultimately show ?thesis by (cases e) (auto simp: rooted_def HasPrefix_def)
  qed (simp add: rooted_def HasPrefix_def)
  show ?thesis using n by (auto simp: Clean_def Let_def rooted_def HasPrefix_def)
qed

lemma path_elems_Clean [simp]: "path_elems (Clean p) = path_elems p"
  using fold_clean_stable [OF path_elems_stack, of p] by (simp add: path_elems_def [of "Clean p"] Split_Clean)

section \<open>Confinement\<close>

lemma rooted_append: "a \<noteq> [] \<Longrightarrow> rooted (a @ b) = rooted a"
  by (cases a) (auto simp: rooted_def HasPrefix_def)

lemma path_elems_Join:
  assumes "dir \<noteq> []" "rooted p"
  shows "path_elems (filepath_Join dir (Clean p)) = path_elems dir @ path_elems p"
    and "rooted (filepath_Join dir (Clean p)) = rooted dir"
proof -
  have "filepath_Join dir (Clean p) = Clean (dir @ CHR ''/'' # Clean p)" using assms(1) by (simp add: filepath_Join_def)
  then show "rooted (filepath_Join dir (Clean p)) = rooted dir"
      "path_elems (filepath_Join dir (Clean p)) = path_elems dir @ path_elems p"
    using assms fold_clean_proper [OF path_elems_proper [OF assms(2)]]
    by (simp_all add: rooted_append path_elems_def [of "dir @ _"] Split_append Split_Clean path_elems_def [of dir])
qed

lemma rooted_slash [simp]: "rooted (CHR ''/'' # p)"
  by (simp add: rooted_def HasPrefix_def)

lemma path_elems_slash: "rooted p \<Longrightarrow> path_elems (CHR ''/'' # p) = path_elems p"
  by (simp add: path_elems_def clean_elem_def)

lemma Clean_eqI: "path_elems p = path_elems q \<Longrightarrow> rooted p = rooted q \<Longrightarrow> p \<noteq> [] \<Longrightarrow> q \<noteq> [] \<Longrightarrow> Clean p = Clean q"
  by (simp add: Clean_def)

text \<open>The file server opens the same path as the handler has looked at.\<close>

lemma Dir_Open_Clean:
  assumes "rooted p"
  shows "Dir_Open dir (Clean p) = filepath_Join dir (Clean p)"
proof -
  have "p \<noteq> []" using assms by (auto simp: rooted_def HasPrefix_def)
  then have "Clean (CHR ''/'' # Clean p) = Clean p"
    using assms path_elems_slash [of "Clean p"] by (intro Clean_eqI) auto
  then show ?thesis by (simp add: Dir_Open_def)
qed

definition under :: "string \<Rightarrow> string \<Rightarrow> bool" where
  "under dir f \<longleftrightarrow> rooted f = rooted dir \<and>
     (\<exists>rest. path_elems f = path_elems dir @ rest \<and> list_all proper rest)"

lemma under_Join: "dir \<noteq> [] \<Longrightarrow> rooted p \<Longrightarrow> under dir (filepath_Join dir (Clean p))"
  using path_elems_Join path_elems_proper by (auto simp: under_def)

lemma under_index: "dir \<noteq> [] \<Longrightarrow> under dir (filepath_Join dir ''index.html'')"
proof -
  assume "dir \<noteq> []"
  moreover have "filepath_Join dir ''index.html'' = Clean (dir @ CHR ''/'' # ''index.html'')"
    using \<open>dir \<noteq> []\<close> by (simp add: filepath_Join_def)
  moreover have "Split ''index.html'' (CHR ''/'') = [''index.html'']" by (rule Split_atom) simp
  ultimately show ?thesis
    by (simp add: under_def rooted_append path_elems_def [of "dir @ _"] path_elems_def [of dir] Split_append clean_elem_def
        proper_def)
qed

lemma static_file_under:
  assumes "dir \<noteq> []" "static_file (staticHandler dir stat r) r = Some f"
  shows "under dir f"
  using assms under_index [OF assms(1)] under_Join [OF assms(1)] Dir_Open_Clean
  by (auto simp: static_file_def staticHandler_def Let_def split: if_splits)

lemma static_file_exists:
  assumes "rooted (req_Path r)" "staticHandler dir stat r = FileServer d" "static_file (FileServer d) r = Some f"
  shows "stat f = Some False"
  using assms Dir_Open_Clean [OF assms(1), of dir]
  by (auto simp: static_file_def staticHandler_def Let_def split: if_splits)

end
