(* ===== verification/Mount.thy ===== *)
theory Mount
  imports Upgrade Paths
begin

text \<open>
  The whole HTTP server, \<open>mountWithAuth\<close> of \<open>server.go\<close>: the routes in the order they are
  added, the middleware in front of them, and the handlers of the other theories behind them.
  The router (gorilla/mux) and the Prometheus handler are libraries: \<open>mux_lib\<close> holds what is used
  of them, and \<open>mux_ok\<close> states the documented meaning of the two kinds of route and of the cleaning
  of paths, which the program leaves switched on (it never calls \<open>SkipClean\<close>).
\<close>

section \<open>The routes\<close>

datatype route =
    MetricsRoute
  | HealthRoute
  | MessagesRoute
  | SessionRoute
  | WsRoute
  | StaticRoute string
  | BannerRoute

datatype route_path = ExactPath string | PathPrefix string

definition mount_routes :: "Config \<Rightarrow> (route_path \<times> route) list" where
  "mount_routes cfg =
     [(ExactPath ''/metrics'', MetricsRoute),
      (ExactPath ''/health'', HealthRoute),
      (ExactPath ''/api/messages'', MessagesRoute),
      (ExactPath ''/api/session'', SessionRoute),
      (ExactPath ''/ws'', WsRoute)] @
     (if StaticDir cfg \<noteq> [] then [(PathPrefix ''/'', StaticRoute (StaticDir cfg))]
      else [(ExactPath ''/'', BannerRoute)])"

record mux_lib =
  mux_cleanPath :: "string \<Rightarrow> string"
  mux_Redirect :: "string \<Rightarrow> handler"
  mux_matches :: "route_path \<Rightarrow> string \<Rightarrow> bool"
  mux_NotFound :: handler
  prom_Handler :: handler

text \<open>
  The router redirects a path to its canonical form with status 301 before it matches any route; a
  path that is rooted and clean is in that form.
\<close>

definition mux_ok :: "mux_lib \<Rightarrow> bool" where
  "mux_ok mux \<longleftrightarrow>
     (\<forall>path. rooted path \<and> Clean path = path \<longrightarrow> mux_cleanPath mux path = path) \<and>
     (\<forall>path r. w_status (mux_Redirect mux path new_writer r) = Some 301) \<and>
     (\<forall>p path. mux_matches mux (ExactPath p) path \<longleftrightarrow> path = p) \<and>
     (\<forall>p path. mux_matches mux (PathPrefix p) path \<longleftrightarrow> HasPrefix path p)"

text \<open>Among the routes, for a path that is not redirected, the first one that matches wins.\<close>

fun mux_route :: "mux_lib \<Rightarrow> (route_path \<times> route) list \<Rightarrow> string \<Rightarrow> route option" where
  "mux_route mux [] path = None"
| "mux_route mux ((p, h) # routes) path = (if mux_matches mux p path then Some h else mux_route mux routes path)"

section \<open>Serving a request\<close>

text \<open>
  What the server is built from, and what the environment decides for one request: the clock, the
  random bytes, the outcome of the handshake, what becomes of the hub in the meantime, and the
  choices of \<open>serveWs\<close>.
\<close>

record ('l, 's) server =
  srv_R :: "'s Repository"
  srv_X :: "'l rate_lib"
  srv_cfg :: Config
  srv_L :: auth_lib
  srv_auth :: "Service option"
  srv_J :: cursor_codec
  srv_mux :: mux_lib
  srv_stat :: "string \<Rightarrow> bool option"

record ('l, 's) request_env =
  rq_now :: gotime
  rq_rnd :: random_read
  rq_up :: "writer \<Rightarrow> Request \<Rightarrow> (writer, Conn) result"
  rq_later :: "('l, 's) Hub \<Rightarrow> ('l, 's) Hub"
  rq_newID :: string
  rq_pick :: bool
  rq_eventID :: string
  rq_closeOK :: bool
  rq_addr :: nat

datatype served = Responded writer | StaticCall writer static_call | Hijacked

definition handle_route :: "('l, 's) server \<Rightarrow> ('l, 's) request_env \<Rightarrow> 's \<Rightarrow> route \<Rightarrow> writer \<Rightarrow> Request \<Rightarrow> served" where
  "handle_route S e s route w r =
     (case route of
        MetricsRoute \<Rightarrow> Responded (prom_Handler (srv_mux S) w r)
      | HealthRoute \<Rightarrow> Responded (healthHandler (srv_R S) s w r)
      | MessagesRoute \<Rightarrow> Responded (messagesHandler (srv_R S) s (srv_J S) (srv_L S) (srv_auth S) (rq_now e) w r)
      | SessionRoute \<Rightarrow> Responded (sessionHandler (srv_cfg S) (srv_L S) (srv_auth S) (rq_now e) (rq_rnd e) w r)
      | StaticRoute dir \<Rightarrow> StaticCall w (staticHandler dir (srv_stat S) r)
      | BannerRoute \<Rightarrow> Responded (write_body (PlainText ''Chatster API Server'') w)
      | WsRoute \<Rightarrow> Hijacked)"

text \<open>
  The router answers a path that is not clean with a redirect, before anything else. The middleware
  runs only for a request that matches a route. \<open>None\<close>: the registration of a new
  client waits for the run loop.
\<close>

definition mountWithAuth ::
  "('l, 's) server \<Rightarrow> ('l, 's) request_env \<Rightarrow> Request \<Rightarrow> 'l WSUpgrade option \<times> ('l, 's) Hub \<Rightarrow>
     (served \<times> 'l WSUpgrade option \<times> ('l, 's) Hub) option" where
  "mountWithAuth S e r = (\<lambda>(wsRL, h).
     let w = new_writer; p = mux_cleanPath (srv_mux S) (req_Path r) in
     if p \<noteq> req_Path r then Some (Responded (mux_Redirect (srv_mux S) p w r), wsRL, h)
     else case mux_route (srv_mux S) (mount_routes (srv_cfg S)) (req_Path r) of
       None \<Rightarrow> Some (Responded (mux_NotFound (srv_mux S) w r), wsRL, h)
     | Some route \<Rightarrow>
       (case cors_gate (srv_cfg S) w r of
          Inl w \<Rightarrow> Some (Responded w, wsRL, h)
        | Inr w \<Rightarrow>
          if route = WsRoute then
            (case serveWs (srv_R S) (srv_X S) (srv_cfg S) (srv_L S) (srv_auth S) (rq_now e) (rq_up e) (rq_later e) (rq_newID e)
                    (rq_pick e) (rq_eventID e) (rq_closeOK e) (rq_addr e) wsRL w r h of
               None \<Rightarrow> None
             | Some (None, wsRL, h) \<Rightarrow> Some (Hijacked, wsRL, h)
             | Some (Some w, wsRL, h) \<Rightarrow> Some (Responded w, wsRL, h))
          else Some (handle_route S e (h_database h) route w r, wsRL, h)))"

text \<open>The server of \<open>mount\<close>: no authentication. Its \<open>auth.New\<close> cannot fail, see \<open>mount_never_panics\<close>.\<close>

definition mount :: "('l, 's) server \<Rightarrow> ('l, 's) server option" where
  "mount S =
     (case auth_New (srv_L S) \<lparr>ac_Mode = ModeAnonymous, ac_SessionSecret = [], ac_CredentialsJSON = [], ac_SessionTTL = 0,
                              ac_CookieSecure = False\<rparr> of
        Inl _ \<Rightarrow> None
      | Inr service \<Rightarrow> Some (S\<lparr>srv_auth := Some service\<rparr>))"

section \<open>Routing\<close>

lemma mux_route_ok:
  assumes "mux_ok mux"
  shows "mux_route mux (mount_routes cfg) path =
    (if path = ''/metrics'' then Some MetricsRoute
     else if path = ''/health'' then Some HealthRoute
     else if path = ''/api/messages'' then Some MessagesRoute
     else if path = ''/api/session'' then Some SessionRoute
     else if path = ''/ws'' then Some WsRoute
     else if StaticDir cfg \<noteq> [] then (if rooted path then Some (StaticRoute (StaticDir cfg)) else None)
     else if path = ''/'' then Some BannerRoute else None)"
  using assms by (simp add: mux_ok_def mount_routes_def rooted_def)

lemma clean_ws: "rooted ''/ws''" "Clean ''/ws'' = ''/ws''"
  by code_simp+

lemma mux_route_ws: "mux_ok mux \<Longrightarrow> mux_route mux (mount_routes cfg) path = Some WsRoute \<longleftrightarrow> path = ''/ws''"
  by (simp add: mux_route_ok)

lemma anonymous_mode_normal: "ToLower (TrimSpace ModeAnonymous) = ModeAnonymous"
  by (simp add: ModeAnonymous_def ascii_text)

lemma mount_never_panics: "mount S \<noteq> None"
  by (simp add: mount_def auth_New_def anonymous_mode_normal Let_def)

section \<open>The server as a whole\<close>

text \<open>Only a WebSocket request changes the hub, and it does so along a run of the hub's machine.\<close>

lemma mountWithAuth_run:
  assumes up: "\<And>w conn. rq_up e w r = Inr conn \<Longrightarrow> conn = \<lparr>conn_sent = [], conn_closed = False\<rparr>"
    and l: "\<And>g. (hub_step (srv_R S) (srv_X S) invar)\<^sup>*\<^sup>* g (rq_later e g)"
    and c: "h_heap (rq_later e (ws_upgrade ''ok'' h)) (rq_addr e) = None"
    and s: "mountWithAuth S e r (wsRL, h) = Some (out, wsRL', h')"
  shows "(hub_step (srv_R S) (srv_X S) invar)\<^sup>*\<^sup>* h h'"
proof (cases "h' = h")
  case False
  then obtain w res where sw: "serveWs (srv_R S) (srv_X S) (srv_cfg S) (srv_L S) (srv_auth S) (rq_now e) (rq_up e) (rq_later e) (rq_newID e)
      (rq_pick e) (rq_eventID e) (rq_closeOK e) (rq_addr e) wsRL w r h = Some (res, wsRL', h')"
    using s by (auto simp: mountWithAuth_def Let_def split: option.splits sum.splits if_splits)
  show ?thesis by (rule serveWs_run [OF _ l c sw]) (rule up)
qed simp

lemma mountWithAuth_http:
  assumes "mux_ok (srv_mux S)" "req_Path r \<noteq> ''/ws''" "mountWithAuth S e r (wsRL, h) = Some (out, wsRL', h')"
  shows "wsRL' = wsRL \<and> h' = h \<and>
    (if mux_cleanPath (srv_mux S) (req_Path r) \<noteq> req_Path r
     then out = Responded (mux_Redirect (srv_mux S) (mux_cleanPath (srv_mux S) (req_Path r)) new_writer r)
     else case mux_route (srv_mux S) (mount_routes (srv_cfg S)) (req_Path r) of
       None \<Rightarrow> out = Responded (mux_NotFound (srv_mux S) new_writer r)
     | Some route \<Rightarrow>
       (case cors_gate (srv_cfg S) new_writer r of
          Inl w \<Rightarrow> out = Responded w
        | Inr w \<Rightarrow> out = handle_route S e (h_database h) route w r))"
  using assms mux_route_ws [OF assms(1), of "srv_cfg S" "req_Path r"]
  by (auto simp: mountWithAuth_def Let_def split: option.splits sum.splits if_splits)

lemma mountWithAuth_answers:
  assumes "mux_route (srv_mux S) (mount_routes (srv_cfg S)) (req_Path r) \<noteq> Some WsRoute"
  shows "\<exists>out. mountWithAuth S e r (wsRL, h) = Some (out, wsRL, h)"
  using assms
  by (cases "mux_route (srv_mux S) (mount_routes (srv_cfg S)) (req_Path r)"; cases "cors_gate (srv_cfg S) new_writer r")
    (auto simp: mountWithAuth_def Let_def)

lemma serveWs_denied:
  assumes "\<not> OriginAllowed cfg r" "serveWs R X cfg L so now up later newID pick eventID closeOK c wsRL w r h = Some (res, wsRL', h')"
  shows "res \<noteq> None \<and> (h' = h \<or> (\<exists>label. h' = ws_upgrade label h))"
proof -
  obtain out rl h1 where ch: "serveWs_checks X cfg L so now wsRL w r h = (out, rl, h1)" by (metis prod.exhaust)
  show ?thesis
  proof (cases out)
    case (Inl w')
    then show ?thesis using assms(2) ch serveWs_checks_refused [OF ch [unfolded Inl]] by (auto simp: serveWs_def)
  next
    case (Inr rp)
    then show ?thesis using serveWs_checks_ok ch assms(1) by (metis prod.exhaust)
  qed
qed

end
