(* ===== verification/Startup.thy ===== *)
theory Startup
  imports Migrations Broker Mount
begin

text \<open>
  Starting and stopping the program: the choice and opening of the storage backend
  (\<open>db/repository.go\<close>, \<open>Open\<close>, \<open>OpenPostgres\<close>), the parts of \<open>main.go\<close> with logic of their own
  (\<open>newAuthService\<close>, the retention passes, the fan-out, \<open>shutdownServer\<close>), the switch and set-up of
  tracing in \<open>internal/telemetry\<close>, and \<open>main_start\<close>, the whole of \<open>main\<close> up to the point where the
  server listens. The drivers answer each call with success or failure.
\<close>

section \<open>Opening the backends\<close>

datatype open_error =
    DriverOpenFails
  | PragmaFails string
  | OpenPingFails
  | MigrationsFail mig_error
  | DSNRequired
  | MinConnsNegative
  | MaxConnsNotPositive
  | MaxConnsBelowMin
  | InvalidDSN
  | PoolFails

record open_env =
  oe_open :: bool
  oe_pragma :: "string \<Rightarrow> bool"
  oe_ping :: bool
  oe_create :: bool
  oe_migrate :: "int \<Rightarrow> mig_fault"
  oe_parseDSN :: "string \<Rightarrow> bool"

definition sqliteBusyTimeoutMS :: int where "sqliteBusyTimeoutMS = 5000"

fun exec_pragmas :: "(string \<Rightarrow> bool) \<Rightarrow> string list \<Rightarrow> open_error option" where
  "exec_pragmas ok [] = None"
| "exec_pragmas ok (p # ps) = (if \<not> ok p then Some (PragmaFails p) else exec_pragmas ok ps)"

definition configureSQLite :: "open_env \<Rightarrow> open_error option" where
  "configureSQLite E =
     exec_pragmas (oe_pragma E)
       [''PRAGMA foreign_keys = ON'', ''PRAGMA journal_mode = WAL'', ''PRAGMA synchronous = NORMAL'',
        ''PRAGMA busy_timeout = '' @ Itoa sqliteBusyTimeoutMS]"

definition Open :: "open_env \<Rightarrow> string \<Rightarrow> schema \<Rightarrow> (open_error, string) result \<times> schema" where
  "Open E path S =
     (if \<not> oe_open E then (Inl DriverOpenFails, S)
      else case configureSQLite E of
             Some e \<Rightarrow> (Inl e, S)
           | None \<Rightarrow>
             if \<not> oe_ping E then (Inl OpenPingFails, S)
             else (case runMigrations (oe_create E) (oe_migrate E) S of
                     (Some e, S') \<Rightarrow> (Inl (MigrationsFail e), S')
                   | (None, S') \<Rightarrow> (Inr path, S')))"

definition db_New :: "open_env \<Rightarrow> schema \<Rightarrow> (open_error, string) result \<times> schema" where
  "db_New E S = Open E ''./chatster.db'' S"

definition OpenPostgres :: "open_env \<Rightarrow> string \<Rightarrow> int \<Rightarrow> int \<Rightarrow> schema \<Rightarrow> (open_error, int \<times> int) result \<times> schema" where
  "OpenPostgres E dsn minConns maxConns S =
     (if TrimSpace dsn = [] then (Inl DSNRequired, S)
      else if minConns < 0 then (Inl MinConnsNegative, S)
      else if maxConns < 1 then (Inl MaxConnsNotPositive, S)
      else if maxConns < minConns then (Inl MaxConnsBelowMin, S)
      else if \<not> oe_parseDSN E dsn then (Inl InvalidDSN, S)
      else if \<not> oe_open E then (Inl PoolFails, S)
      else if \<not> oe_ping E then (Inl OpenPingFails, S)
      else case pg_runMigrations (oe_migrate E) S of
             (Some e, S') \<Rightarrow> (Inl (MigrationsFail e), S')
           | (None, S') \<Rightarrow> (Inr (minConns, maxConns), S'))"

section \<open>Choosing the backend\<close>

definition DefaultSQLitePath :: string where "DefaultSQLitePath = ''./chatster.db''"
definition DefaultPostgresMinConns :: int where "DefaultPostgresMinConns = 2"
definition DefaultPostgresMaxConns :: int where "DefaultPostgresMaxConns = 10"

record StorageConfig =
  st_Storage :: string
  st_SQLitePath :: string
  st_PostgresDSN :: string
  st_PostgresMinConns :: int
  st_PostgresMaxConns :: int

datatype backend_error = OpenFailed open_error | UnsupportedBackend string

record StartupError =
  se_Backend :: string
  se_Operation :: string
  se_Err :: backend_error

text \<open>The text of a startup error, around the text of its cause.\<close>

definition StartupError_Error :: "(backend_error \<Rightarrow> string) \<Rightarrow> StartupError \<Rightarrow> string" where
  "StartupError_Error text e = se_Backend e @ '' storage '' @ se_Operation e @ '' failed: '' @ text (se_Err e)"

definition StartupError_Unwrap :: "StartupError \<Rightarrow> backend_error" where
  "StartupError_Unwrap e = se_Err e"

datatype backend = SQLiteBackend string | PostgresBackend int int

definition OpenRepository :: "open_env \<Rightarrow> StorageConfig \<Rightarrow> schema \<Rightarrow> (StartupError, backend) result \<times> schema" where
  "OpenRepository E cfg S =
     (let kind = ToLower (TrimSpace (st_Storage cfg));
          kind = (if kind = [] then ''sqlite'' else kind)
      in if kind = ''sqlite'' then
           (let path = TrimSpace (st_SQLitePath cfg);
                path = (if path = [] then DefaultSQLitePath else path)
            in case Open E path S of
                 (Inl e, S') \<Rightarrow> (Inl \<lparr>se_Backend = kind, se_Operation = ''open'', se_Err = OpenFailed e\<rparr>, S')
               | (Inr p, S') \<Rightarrow> (Inr (SQLiteBackend p), S'))
         else if kind = ''postgres'' then
           (let minConns = (if st_PostgresMinConns cfg = 0 then DefaultPostgresMinConns else st_PostgresMinConns cfg);
                maxConns = (if st_PostgresMaxConns cfg = 0 then DefaultPostgresMaxConns else st_PostgresMaxConns cfg)
            in case OpenPostgres E (st_PostgresDSN cfg) minConns maxConns S of
                 (Inl e, S') \<Rightarrow> (Inl \<lparr>se_Backend = kind, se_Operation = ''open'', se_Err = OpenFailed e\<rparr>, S')
               | (Inr (a, b), S') \<Rightarrow> (Inr (PostgresBackend a b), S'))
         else (Inl \<lparr>se_Backend = kind, se_Operation = ''select'', se_Err = UnsupportedBackend kind\<rparr>, S))"

section \<open>The tracing switch\<close>

datatype tracing_error = NotABoolean | UnsupportedExporter string

definition ParseBool :: "string \<Rightarrow> bool option" where
  "ParseBool s =
     (if s \<in> {''1'', ''t'', ''T'', ''TRUE'', ''true'', ''True''} then Some True
      else if s \<in> {''0'', ''f'', ''F'', ''FALSE'', ''false'', ''False''} then Some False
      else None)"

definition tracingConfigured :: "environ \<Rightarrow> (tracing_error, bool) result" where
  "tracingConfigured getenv =
     (let raw = TrimSpace (getenv ''CHATSTER_OTEL_ENABLED'');
          rest = (let exporter = ToLower (TrimSpace (getenv ''OTEL_TRACES_EXPORTER'')) in
                  if exporter = ''none'' then Inr False
                  else if exporter \<noteq> [] \<and> exporter \<noteq> ''otlp'' then Inl (UnsupportedExporter exporter)
                  else if exporter = ''otlp'' \<or> TrimSpace (getenv ''OTEL_EXPORTER_OTLP_ENDPOINT'') \<noteq> [] \<or>
                          TrimSpace (getenv ''OTEL_EXPORTER_OTLP_TRACES_ENDPOINT'') \<noteq> [] then Inr True
                  else Inr (TrimSpace (getenv ''CHATSTER_OTEL_ENABLED'') \<noteq> []))
      in if raw \<noteq> [] then
           (case ParseBool raw of None \<Rightarrow> Inl NotABoolean | Some False \<Rightarrow> Inr False | Some True \<Rightarrow> rest)
         else rest)"

datatype telemetry_error = TracingConfig tracing_error | ExporterFails | ResourceFails

definition serviceName :: string where "serviceName = ''chatster''"

text \<open>
  \<open>Setup\<close>: \<open>None\<close> when tracing stays off, otherwise the service name of the installed provider.
  Whether the exporter and the resource of the tracing library can be built is the environment's
  choice.
\<close>

definition Setup :: "environ \<Rightarrow> bool \<Rightarrow> bool \<Rightarrow> (telemetry_error, string option) result" where
  "Setup getenv exporterOK resourceOK =
     (case tracingConfigured getenv of
        Inl e \<Rightarrow> Inl (TracingConfig e)
      | Inr False \<Rightarrow> Inr None
      | Inr True \<Rightarrow>
        if \<not> exporterOK then Inl ExporterFails
        else let name = TrimSpace (getenv ''OTEL_SERVICE_NAME'');
                 name = (if name = [] then serviceName else name)
          in if \<not> resourceOK then Inl ResourceFails else Inr (Some name))"

section \<open>main\<close>

datatype auth_startup_error = AuthInit auth_config_error | OriginsRequired

definition newAuthService :: "auth_lib \<Rightarrow> Config \<Rightarrow> (auth_startup_error, Service) result" where
  "newAuthService L cfg =
     (case auth_New L \<lparr>ac_Mode = AuthMode cfg, ac_SessionSecret = SessionSecret cfg, ac_CredentialsJSON = AuthUsersJSON cfg,
                        ac_SessionTTL = SessionTTL cfg, ac_CookieSecure = SessionCookieSecure cfg\<rparr> of
        Inl e \<Rightarrow> Inl (AuthInit e)
      | Inr service \<Rightarrow>
        if Service_Mode (Some service) = ModeSession \<and> length (AllowedOrigins cfg) = 0 then Inl OriginsRequired
        else Inr service)"

text \<open>\<open>AddDate(0, 0, -days)\<close> on a UTC time moves it by whole days of 24 hours.\<close>

definition retention_cutoff :: "gotime \<Rightarrow> int \<Rightarrow> gotime" where
  "retention_cutoff now days = Add (time_UTC now) (- days * (24 * 60 * minute))"

datatype start_error =
    AuthFails auth_startup_error
  | TelemetryFails telemetry_error
  | StorageFails StartupError
  | MessageRetentionFails db_error
  | AuditRetentionFails db_error
  | FanoutFails broker_error

text \<open>The two retention passes over the opened backend.\<close>

definition retention :: "'s Repository \<Rightarrow> Config \<Rightarrow> gotime \<Rightarrow> 's \<Rightarrow> start_error option \<times> 's" where
  "retention R cfg now s =
     (let (failed, s) =
            (if MessageRetentionDays cfg > 0 then
               (case PruneMessagesBeforeContext R s (retention_cutoff now (MessageRetentionDays cfg)) of
                  (Inl e, s) \<Rightarrow> (Some (MessageRetentionFails e), s)
                | (Inr _, s) \<Rightarrow> (None, s))
             else (None, s))
      in if failed \<noteq> None then (failed, s)
         else if AuditRetentionDays cfg > 0 then
           (case PruneModerationEventsBeforeContext R s (retention_cutoff now (AuditRetentionDays cfg)) of
              (Inl e, s) \<Rightarrow> (Some (AuditRetentionFails e), s)
            | (Inr _, s) \<Rightarrow> (None, s))
         else (None, s))"

text \<open>The fan-out, if one is configured; \<open>newID\<close> is the instance identifier \<open>newInstanceID\<close> makes.\<close>

definition start_fanout ::
  "broker_lib \<Rightarrow> bool \<Rightarrow> string \<Rightarrow> Config \<Rightarrow> RedisMetrics \<Rightarrow> (start_error, RedisFanout option) result \<times> RedisMetrics" where
  "start_fanout L pingOK newID cfg M =
     (if RedisURL cfg \<noteq> [] then
        (let instanceID = (if InstanceID cfg = [] then newID else InstanceID cfg) in
         case NewRedis L pingOK \<lparr>bc_URL = RedisURL cfg, bc_Namespace = RedisNamespace cfg, bc_InstanceID = instanceID\<rparr> M of
           (Inl e, M) \<Rightarrow> (Inl (FanoutFails e), M)
         | (Inr b, M) \<Rightarrow> (Inr (Some b), M))
      else (Inr None, M))"

text \<open>The hub that is started on an opened backend.\<close>

definition start_hub_of :: "'s \<Rightarrow> RedisFanout option \<Rightarrow> ('l, 's) Hub" where
  "start_hub_of s fanout = startBroker (newHub s (map_option rf_instanceID fanout))"

text \<open>
  \<open>main\<close> up to \<open>ListenAndServe\<close>. The environment of a start: the variables, the libraries, what
  the drivers answer, the clock, and the repository behind the opened backend with its contents.
\<close>

record 's start_env =
  st_getenv :: environ
  st_lib :: number_lib
  st_auth :: auth_lib
  st_exporterOK :: bool
  st_resourceOK :: bool
  st_open :: open_env
  st_repository :: "backend \<Rightarrow> 's Repository \<times> 's"
  st_now :: gotime
  st_broker :: broker_lib
  st_pingOK :: bool
  st_newID :: string

record ('l, 's) running =
  rn_cfg :: Config
  rn_service :: Service
  rn_tracing :: "string option"
  rn_backend :: backend
  rn_repository :: "'s Repository"
  rn_fanout :: "RedisFanout option"
  rn_hub :: "('l, 's) Hub"
  rn_wsRL :: "'l WSUpgrade option"

definition main_start ::
  "'s start_env \<Rightarrow> schema \<Rightarrow> RedisMetrics \<Rightarrow> (start_error, ('l, 's) running) result \<times> schema" where
  "main_start E schema M =
     (let cfg = FromEnv (st_lib E) (st_getenv E) in
      case newAuthService (st_auth E) cfg of
        Inl e \<Rightarrow> (Inl (AuthFails e), schema)
      | Inr service \<Rightarrow>
        (case Setup (st_getenv E) (st_exporterOK E) (st_resourceOK E) of
           Inl e \<Rightarrow> (Inl (TelemetryFails e), schema)
         | Inr tracing \<Rightarrow>
           (case OpenRepository (st_open E)
                   \<lparr>st_Storage = Storage cfg, st_SQLitePath = DBPath cfg, st_PostgresDSN = PostgresDSN cfg,
                    st_PostgresMinConns = PostgresMinConns cfg, st_PostgresMaxConns = PostgresMaxConns cfg\<rparr> schema of
              (Inl e, schema) \<Rightarrow> (Inl (StorageFails e), schema)
            | (Inr backend, schema) \<Rightarrow>
              (case st_repository E backend of (R, s) \<Rightarrow>
               (case retention R cfg (st_now E) s of
                  (Some e, s) \<Rightarrow> (Inl e, schema)
                | (None, s) \<Rightarrow>
                  (case start_fanout (st_broker E) (st_pingOK E) (st_newID E) cfg M of
                     (Inl e, M) \<Rightarrow> (Inl e, schema)
                   | (Inr fanout, M) \<Rightarrow>
                     (Inr \<lparr>rn_cfg = cfg, rn_service = service, rn_tracing = tracing, rn_backend = backend, rn_repository = R,
                           rn_fanout = fanout, rn_hub = start_hub_of s fanout, rn_wsRL = mount_wsRL cfg\<rparr>, schema)))))))"

definition shutdownServer :: "'e option \<Rightarrow> 'e option \<Rightarrow> 'e option" where
  "shutdownServer hubErr serverErr = (if hubErr \<noteq> None then hubErr else serverErr)"

section \<open>Lemmas\<close>

lemma runMigrations_from:
  assumes "k \<le> length migrations" "runMigrations createOK faults (migrated migrations k) = (None, S')"
  shows "S' = migrated migrations (length migrations)"
  using sqlite_migrator.loop_from [of 0 k faults] assms by (auto simp: runMigrations_def split: if_splits)

lemma pg_runMigrations_from:
  assumes "k \<le> length postgresMigrations" "pg_runMigrations faults (migrated postgresMigrations k) = (None, S')"
  shows "S' = migrated postgresMigrations (length postgresMigrations)"
  using pg_migrator.loop_from [of 0 k faults] assms by (auto simp: pg_runMigrations_def)

lemma Open_ok:
  "Open E path S = (Inr p, S') \<Longrightarrow> p = path \<and> runMigrations (oe_create E) (oe_migrate E) S = (None, S')"
  by (auto simp: Open_def split: if_splits option.splits prod.splits)

lemma OpenPostgres_ok:
  "OpenPostgres E dsn mn mx S = (Inr (a, b), S') \<Longrightarrow>
     a = mn \<and> b = mx \<and> 0 \<le> mn \<and> 1 \<le> mx \<and> mn \<le> mx \<and> pg_runMigrations (oe_migrate E) S = (None, S')"
  by (auto simp: OpenPostgres_def split: if_splits option.splits prod.splits)

text \<open>
  A start that opens its storage has opened the configured backend, never another one, and left
  it fully migrated.
\<close>

lemma OpenRepository_ok:
  assumes "OpenRepository E cfg S = (Inr b, S')"
  shows "(case b of
      SQLiteBackend path \<Rightarrow>
        ToLower (TrimSpace (st_Storage cfg)) \<in> {[], ''sqlite''} \<and>
        (\<forall>k \<le> length migrations. S = migrated migrations k \<longrightarrow> S' = migrated migrations (length migrations))
    | PostgresBackend mn mx \<Rightarrow>
        ToLower (TrimSpace (st_Storage cfg)) = ''postgres'' \<and> 0 \<le> mn \<and> 1 \<le> mx \<and> mn \<le> mx \<and>
        (\<forall>k \<le> length postgresMigrations.
           S = migrated postgresMigrations k \<longrightarrow> S' = migrated postgresMigrations (length postgresMigrations)))"
proof (cases b)
  case (SQLiteBackend p)
  then obtain path where "Open E path S = (Inr p, S')" "ToLower (TrimSpace (st_Storage cfg)) \<in> {[], ''sqlite''}"
    using assms by (auto simp: OpenRepository_def Let_def split: if_splits prod.splits sum.splits)
  then show ?thesis using SQLiteBackend Open_ok runMigrations_from by (simp, blast)
next
  case (PostgresBackend mn mx)
  then obtain a c where "OpenPostgres E (st_PostgresDSN cfg) a c S = (Inr (mn, mx), S')"
      "ToLower (TrimSpace (st_Storage cfg)) = ''postgres''"
    using assms by (auto simp: OpenRepository_def Let_def split: if_splits prod.splits sum.splits)
  then show ?thesis using PostgresBackend OpenPostgres_ok pg_runMigrations_from by (simp, blast)
qed

lemma OpenRepository_error:
  assumes "OpenRepository E cfg S = (Inl err, S')"
  shows "se_Backend err = (if ToLower (TrimSpace (st_Storage cfg)) = [] then ''sqlite'' else ToLower (TrimSpace (st_Storage cfg))) \<and>
    (se_Operation err = ''select'' \<longleftrightarrow> se_Backend err \<notin> {''sqlite'', ''postgres''})"
  using assms by (auto simp: OpenRepository_def Let_def split: if_splits prod.splits sum.splits)

text \<open>The text depends on the configuration only through the backend's name and the cause.\<close>

lemma StartupError_text:
  assumes "OpenRepository E cfg S = (Inl err, S')"
  shows "\<exists>kind op. StartupError_Error text err = kind @ '' storage '' @ op @ '' failed: '' @ text (StartupError_Unwrap err) \<and>
    op \<in> {''open'', ''select''} \<and> kind = (if ToLower (TrimSpace (st_Storage cfg)) = [] then ''sqlite'' else ToLower (TrimSpace (st_Storage cfg)))"
proof -
  have "se_Operation err \<in> {''open'', ''select''}"
    using assms by (auto simp: OpenRepository_def Let_def split: if_splits prod.splits sum.splits)
  then show ?thesis using OpenRepository_error [OF assms] unfolding StartupError_Error_def StartupError_Unwrap_def by blast
qed

lemma newAuthService_origins:
  assumes "newAuthService L cfg = Inr s" "Service_Mode (Some s) = ModeSession"
  shows "AllowedOrigins cfg \<noteq> []"
  using assms by (auto simp: newAuthService_def split: sum.splits if_splits)

lemma start_hub_reachable:
  assumes "invar s"
  shows "hub_reachable R X invar (start_hub_of s fanout)"
proof -
  have "h_brokerPublish (newHub s (map_option rf_instanceID fanout)) = None" by (simp add: newHub_def)
  then have "hub_step R X invar (newHub s (map_option rf_instanceID fanout)) (start_hub_of s fanout)"
    unfolding start_hub_of_def by (rule StartBroker)
  then show ?thesis using Init [of invar s] assms by (blast intro: Step)
qed

section \<open>Retention keeps the store\<close>

locale pruned_store =
  fixes R :: "'s Repository" and invar :: "'s \<Rightarrow> bool"
  assumes prune_messages: "invar s \<Longrightarrow> invar (snd (PruneMessagesBeforeContext R s cutoff))"
    and prune_audit: "invar s \<Longrightarrow> invar (snd (PruneModerationEventsBeforeContext R s cutoff))"
begin

lemma retention_inv:
  assumes "invar s"
  shows "invar (snd (retention R cfg now s))"
proof -
  let ?m = "PruneMessagesBeforeContext R s (retention_cutoff now (MessageRetentionDays cfg))"
  let ?a = "\<lambda>s. PruneModerationEventsBeforeContext R s (retention_cutoff now (AuditRetentionDays cfg))"
  have m: "invar (snd ?m)" and a: "\<And>s. invar s \<Longrightarrow> invar (snd (?a s))" using assms prune_messages prune_audit by auto
  have "snd (retention R cfg now s) \<in> {s, snd ?m, snd (?a s), snd (?a (snd ?m))}"
    by (cases ?m, cases "?a s", cases "?a (snd ?m)") (simp add: retention_def Let_def split: sum.split)
  then show ?thesis using assms m a [OF assms] a [OF m] by (elim insertE emptyE) simp_all
qed

end

interpretation sqlite_pruned: pruned_store "sqlite_repository env" "sqlite_inv env" for env
proof unfold_locales
  show "sqlite_inv env (snd (PruneMessagesBeforeContext (sqlite_repository env) s cutoff))" if "sqlite_inv env s" for s cutoff
    using DB_prune_inv [OF that prod.collapse [symmetric]] by (simp add: sqlite_repository_def)
  show "sqlite_inv env (snd (PruneModerationEventsBeforeContext (sqlite_repository env) s cutoff))" if "sqlite_inv env s" for s cutoff
    using that by (auto simp: sqlite_repository_def DB_PruneModerationEventsBeforeContext_def sqlite_inv_def Let_def split: fault.splits)
qed

interpretation pg_pruned: pruned_store "postgres_repository env" "pg_inv env" for env
  by unfold_locales
    (auto simp: postgres_repository_def PostgresDB_PruneMessagesBeforeContext_def PostgresDB_PruneModerationEventsBeforeContext_def
      pg_inv_def Let_def distinct_map_filter split: fault.splits)

section \<open>A started program\<close>

lemma start_fanout_ok:
  assumes "start_fanout L pingOK newID cfg M = (Inr fanout, M')"
  shows "(fanout = None \<longleftrightarrow> RedisURL cfg = []) \<and>
    (\<forall>b. fanout = Some b \<longrightarrow> is_ok (normalizeToken (rf_namespace b)) \<and> is_ok (normalizeToken (rf_instanceID b)))"
  using assms NewRedis_ok by (fastforce simp: start_fanout_def Let_def split: if_splits prod.splits sum.splits)

lemma main_start_ok:
  assumes "main_start E schema M = (Inr run, schema')"
  obtains s' b0 M' where "rn_cfg run = FromEnv (st_lib E) (st_getenv E)"
    "newAuthService (st_auth E) (rn_cfg run) = Inr (rn_service run)"
    "OpenRepository (st_open E) \<lparr>st_Storage = Storage (rn_cfg run), st_SQLitePath = DBPath (rn_cfg run),
        st_PostgresDSN = PostgresDSN (rn_cfg run), st_PostgresMinConns = PostgresMinConns (rn_cfg run),
        st_PostgresMaxConns = PostgresMaxConns (rn_cfg run)\<rparr> schema = (Inr (rn_backend run), schema')"
    "rn_repository run = fst (st_repository E (rn_backend run))"
    "retention (rn_repository run) (rn_cfg run) (st_now E) (snd (st_repository E (rn_backend run))) = (None, s')"
    "start_fanout (st_broker E) (st_pingOK E) (st_newID E) (rn_cfg run) M = (Inr (rn_fanout run), M')"
    "rn_hub run = start_hub_of s' (rn_fanout run)" "rn_wsRL run = mount_wsRL (rn_cfg run)"
  using assms unfolding main_start_def Let_def
  by (auto split: sum.splits prod.splits option.splits)

lemma start_hub_instance: "h_instanceID (start_hub_of s (Some b)) = rf_instanceID b"
  by (simp add: start_hub_of_def startBroker_def newHub_def)

end
