(* ===== verification/StartInstances.thy ===== *)
theory StartInstances
  imports HubInstances Startup
begin

text \<open>
  Concrete parameters and states of the fan-out, of a start with the default configuration and of
  the server: a codec for one event, a reachable hub that queues that event, a second instance, a
  subscription that breaks, drivers that do not fail, and a router.
\<close>

definition sample_queued :: Envelope where
  "sample_queued =
     \<lparr>env_Schema = Schema, env_Version = Version, env_EventID = ''event_1'', env_Room = ''lobby'',
      env_OriginInstance = ''node-a'', env_Timestamp = utc 9,
      env_Message = \<lparr>em_ID = 5, em_UserID = [], em_Username = ''System'', em_Content = ''Ada joined the chat'',
        em_Type = ''notification''\<rparr>\<rparr>"

definition sample_broker_lib :: broker_lib where
  "sample_broker_lib =
     \<lparr>redis_ParseURL = (\<lambda>_. True), marshal_event = (\<lambda>e. if e = sample_queued then Some ''{}'' else None),
      unmarshal_event = (\<lambda>s. if s = ''{}'' then Some sample_queued else None)\<rparr>"

definition sample_fanout :: RedisFanout where
  "sample_fanout = \<lparr>rf_namespace = ''node-a'', rf_instanceID = ''node-a'', rf_ready = False, rf_closed = False, rf_closeErr = False\<rparr>"

definition sample_redis_metrics :: RedisMetrics where
  "sample_redis_metrics =
     \<lparr>RedisConnections = (\<lambda>_. 0), RedisPublishes = (\<lambda>_. 0), RedisSubscriptions = (\<lambda>_. 0), RedisDecodes = (\<lambda>_. 0),
      RedisReconnects = 0\<rparr>"

lemma sample_system: "TrimSpace ''System'' = ''System''"
  by (simp add: ascii_text)

definition sample_saved :: Message where
  "sample_saved =
     \<lparr>m_ID = 5, m_UserID = [], m_Username = ''System'', m_Content = ''Ada joined the chat'', m_Type = ''notification'',
      m_Room = ''lobby'', m_Timestamp = utc 9\<rparr>"

lemma sample_queued_New:
  "New ''event_1'' (m_Room sample_saved) ''node-a''
     \<lparr>em_ID = m_ID sample_saved, em_UserID = m_UserID sample_saved, em_Username = m_Username sample_saved,
      em_Content = m_Content sample_saved, em_Type = m_Type sample_saved\<rparr> (m_Timestamp sample_saved) = Inr sample_queued"
  using sample_token sample_system sample_event_id
  by (simp add: New_def Validate_def Schema_def Version_def utc_def IsZero_def NormalizeRoom_canonical_id sample_saved_def
      sample_queued_def)

lemma sample_queued_ok: "envelope_ok sample_queued"
  using New_ok [OF sample_queued_New] by simp

text \<open>A reachable hub that has queued the event: the join notification of the sample client.\<close>

lemma sample_join_saved:
  assumes "h_database h = sample_db"
  shows "\<exists>db'. save_notification (sqlite_repository sample_sqlite_env) (join_notification sample_client) h =
    (sample_saved, h\<lparr>h_database := db'\<rparr>)"
  using assms
  by (simp add: save_notification_def saveMessageObservedInRoomContext_def saveMessageObservedForUserInRoomContext_def
      sqlite_repository_def DB_SaveMessageForUserInRoomContext_def NormalizeRoom_canonical_id join_notification_def
      system_notification_def sample_client_def Client_room_def Client_username_def sample_db_def stamp_saved_def
      sample_saved_def utc_def Let_def)
    (rule exI, rule refl)

lemma sample_publishing:
  "\<exists>(h :: (unit, DB) Hub) h' h1. publishContext True ''event_1'' sample_saved h = Some (True, h') \<and> h_brokerPublish h = Some [] \<and>
     h_brokerPublish h' = Some [sample_queued] \<and>
     hub_reachable (sqlite_repository sample_sqlite_env) sample_rate (sqlite_inv sample_sqlite_env) h1 \<and>
     h_brokerPublish h1 = Some [sample_queued] \<and> h_instanceID h1 = ''node-a''"
proof -
  let ?R = "sqlite_repository sample_sqlite_env" and ?I = "sqlite_inv sample_sqlite_env"
  let ?s = "start_hub_of sample_db (Some sample_fanout) :: (unit, DB) Hub"
  have s: "h_heap ?s 7 = None" "\<not> h_draining ?s" "h_database ?s = sample_db" "h_broadcast ?s = []" "\<not> h_done ?s"
      "h_brokerPublish ?s = Some []" "h_fanout ?s" "h_instanceID ?s = ''node-a''"
    by (simp_all add: start_hub_of_def startBroker_def newHub_def sample_fanout_def)
  let ?g = "?s\<lparr>h_heap := (h_heap ?s)(7 \<mapsto> sample_client), h_clients := insert 7 (h_clients ?s),
      h_history := (h_history ?s)(7 \<mapsto> Fetching)\<rparr>"
  obtain db' where sv: "save_notification ?R (join_notification sample_client) ?g = (sample_saved, ?g\<lparr>h_database := db'\<rparr>)"
    using sample_join_saved [of ?g] s(3) by auto
  let ?q = "queueBrokerMessage ''event_1'' sample_saved (?g\<lparr>h_database := db', h_broadcast := [sample_saved]\<rparr>)"
  let ?h = "set_phase 7 Reading (count (ConnectedClients_update (\<lambda>n. n + 1)) ?q)"
  have pb: "publishContext True ''event_1'' sample_saved (?g\<lparr>h_database := db'\<rparr>) = Some (True, ?q)"
    using s(4,5) by (simp add: publishContext_def broadcastQueueSize_def)
  have run: "(hub_step ?R sample_rate ?I)\<^sup>*\<^sup>* ?s ?h"
    by (rule join_run [OF s(1) sample_client_fresh s(2) refl sv pb])
  have "hub_reachable ?R sample_rate ?I ?s" by (rule start_hub_reachable [where invar = ?I, OF sample_db_inv])
  then have r: "hub_reachable ?R sample_rate ?I ?h"
    using run by (induction rule: rtranclp_induct [OF run]) (auto intro: Step)
  have q: "h_brokerPublish ?q = Some [sample_queued]" "h_instanceID ?q = ''node-a''"
    using s(6-8) sample_queued_New
    by (simp_all add: queueBrokerMessage_def brokerQueueSize_def outboundQueueSize_def)
      (simp_all add: sample_saved_def utc_def IsZero_def)
  then have "h_brokerPublish ?h = Some [sample_queued]" "h_instanceID ?h = ''node-a''"
    by (simp_all add: set_phase_def count_def)
  moreover have "h_brokerPublish (?g\<lparr>h_database := db'\<rparr>) = Some []" using s(6) by simp
  ultimately show ?thesis using pb q(1) r by blast
qed

text \<open>Another instance of the same namespace.\<close>

definition sample_peer :: RedisFanout where
  "sample_peer = sample_fanout\<lparr>rf_instanceID := ''node-b''\<rparr>"

lemma sample_peer_hub:
  fixes s :: DB
  defines "h \<equiv> start_hub_of s (Some sample_peer) :: (unit, DB) Hub"
  shows "h_instanceID h = ''node-b''" "h_seenEventIDs h = []" "\<not> h_draining h" "\<not> h_done h" "h_broadcast h = []"
  by (simp_all add: h_def start_hub_of_def startBroker_def newHub_def sample_peer_def sample_fanout_def)

definition sample_attempts :: "attempt list" where
  "sample_attempts =
     [\<lparr>at_subscribed = False, at_received = [], at_ctxDone = False, at_timer = True\<rparr>,
      \<lparr>at_subscribed = True,
       at_received = [RecvMessage ''elsewhere'' ''{}'', RecvMessage (channel_prefix ''node-a'' @ ''lobby'') ''{}'', RecvError],
       at_ctxDone = False, at_timer = False\<rparr>]"

lemma sample_run:
  "\<exists>returned b' M'. Run sample_broker_lib sample_attempts sample_fanout sample_redis_metrics =
     Inr ([sample_queued], [100000000, 200000000], returned, b', M')"
proof -
  have c: "Channel ''node-a'' ''lobby'' = Inr (channel_prefix ''node-a'' @ ''lobby'')"
    using sample_token by (simp add: Channel_def NormalizeRoom_canonical_id)
  have p: "\<exists>p. ChannelPattern ''node-a'' = Inr p" using sample_token by (simp add: ChannelPattern_def)
  have room: "env_Room sample_queued = ''lobby''" by (simp add: sample_queued_def)
  have ne: "channel_prefix ''node-a'' @ ''lobby'' \<noteq> ''elsewhere''" by (simp add: channel_prefix_def)
  have d: "decode_event sample_broker_lib b (channel_prefix ''node-a'' @ ''lobby'') ''{}'' = Some sample_queued"
      "decode_event sample_broker_lib b ''elsewhere'' ''{}'' = None" if "rf_namespace b = ''node-a''" for b
    using that c room ne sample_queued_ok by (simp_all add: decode_event_def sample_broker_lib_def Validate_ok_iff [THEN iffD2])
  show ?thesis
    using p d [of sample_fanout]
    by (auto simp: Run_def sample_attempts_def subscribeOnce_def sample_fanout_def next_backoff_def redisMinBackoff_def
        redisMaxBackoff_def millisecond_def second_def Let_def)
qed

section \<open>A start with the default configuration\<close>

definition sample_open :: open_env where
  "sample_open =
     \<lparr>oe_open = True, oe_pragma = (\<lambda>_. True), oe_ping = True, oe_create = True, oe_migrate = (\<lambda>_. MigOK), oe_parseDSN = (\<lambda>_. True)\<rparr>"

definition sample_start :: "number_lib \<Rightarrow> DB start_env" where
  "sample_start N =
     \<lparr>st_getenv = (\<lambda>_. []), st_lib = N, st_auth = sample_auth_lib, st_exporterOK = True, st_resourceOK = True,
      st_open = sample_open, st_repository = (\<lambda>_. (sqlite_repository sample_sqlite_env, sample_db)), st_now = sample_now,
      st_broker = sample_broker_lib, st_pingOK = True, st_newID = ''node-a''\<rparr>"

lemma default_config:
  "Storage (FromEnv N (\<lambda>_. [])) = ''sqlite''" "DBPath (FromEnv N (\<lambda>_. [])) = ''./chatster.db''"
  "AuthMode (FromEnv N (\<lambda>_. [])) = ModeAnonymous" "RedisURL (FromEnv N (\<lambda>_. [])) = []"
  "MessageRetentionDays (FromEnv N (\<lambda>_. [])) = 0" "AuditRetentionDays (FromEnv N (\<lambda>_. [])) = 0"
  by (simp_all add: FromEnv_eq config_defaults or_default_def int_or_def positive_env_def ModeAnonymous_def)

lemma sample_new_auth: "\<exists>service. newAuthService sample_auth_lib (FromEnv N (\<lambda>_. [])) = Inr service"
proof -
  have "ModeAnonymous \<noteq> ModeSession" "ModeAnonymous \<noteq> []" by (simp_all add: ModeAnonymous_def ModeSession_def)
  then show ?thesis
    by (simp add: newAuthService_def auth_New_def default_config anonymous_mode_normal Service_Mode_def Let_def)
qed

lemma sample_strings: "ToLower (TrimSpace ''sqlite'') = ''sqlite''" "TrimSpace ''./chatster.db'' = ''./chatster.db''"
  by (simp_all add: ascii_text)

lemma sample_open_repository:
  "\<exists>S'. OpenRepository sample_open
     \<lparr>st_Storage = ''sqlite'', st_SQLitePath = ''./chatster.db'', st_PostgresDSN = d, st_PostgresMinConns = a, st_PostgresMaxConns = c\<rparr>
     empty_schema = (Inr (SQLiteBackend ''./chatster.db''), S')"
proof -
  have "fst (runMigrations True (\<lambda>_. MigOK) empty_schema) = None"
    using sqlite_migrator.loop_clean [of 0] by (simp add: runMigrations_def migrated_0)
  then obtain S' where "runMigrations True (\<lambda>_. MigOK) empty_schema = (None, S')" by (metis prod.collapse)
  then show ?thesis
    by (simp add: OpenRepository_def sample_strings Open_def configureSQLite_def sample_open_def Let_def)
qed

lemma sample_main:
  "\<exists>(run :: (unit, DB) running) schema'. main_start (sample_start N) empty_schema sample_redis_metrics = (Inr run, schema') \<and>
     rn_backend run = SQLiteBackend ''./chatster.db''"
proof -
  obtain service where a: "newAuthService sample_auth_lib (FromEnv N (\<lambda>_. [])) = Inr service" using sample_new_auth by blast
  have t: "Setup (\<lambda>_. []) True True = Inr None" by code_simp
  obtain S' where o: "OpenRepository sample_open
      \<lparr>st_Storage = ''sqlite'', st_SQLitePath = ''./chatster.db'', st_PostgresDSN = PostgresDSN (FromEnv N (\<lambda>_. [])),
       st_PostgresMinConns = PostgresMinConns (FromEnv N (\<lambda>_. [])), st_PostgresMaxConns = PostgresMaxConns (FromEnv N (\<lambda>_. []))\<rparr>
      empty_schema = (Inr (SQLiteBackend ''./chatster.db''), S')"
    using sample_open_repository by blast
  show ?thesis
    by (simp add: main_start_def sample_start_def a t o default_config retention_def start_fanout_def Let_def)
qed

text \<open>A router with the documented behaviour, and a server over it.\<close>

definition sample_mux :: mux_lib where
  "sample_mux =
     \<lparr>mux_cleanPath = (\<lambda>path.
        let p = (if rooted path then path else ''/'' @ path); np = Clean p
        in if np \<noteq> p \<and> last p = CHR ''/'' \<and> np \<noteq> ''/'' then np @ ''/'' else np),
      mux_Redirect = (\<lambda>p w r. WriteHeader 301 (Header_Set ''Location'' p w)),
      mux_matches = (\<lambda>p path. case p of ExactPath q \<Rightarrow> path = q | PathPrefix q \<Rightarrow> HasPrefix path q),
      mux_NotFound = (\<lambda>w r. http_Error ''404 page not found'' 404 w),
      prom_Handler = (\<lambda>w r. write_body (PlainText []) w)\<rparr>"

lemma sample_mux_ok: "mux_ok sample_mux"
  by (simp add: mux_ok_def sample_mux_def)

definition sample_server :: "(unit, PostgresDB) server" where
  "sample_server =
     \<lparr>srv_R = postgres_repository sample_pg_env, srv_X = sample_rate, srv_cfg = sample_config, srv_L = sample_auth_lib,
      srv_auth = None, srv_J = sample_codec, srv_mux = sample_mux, srv_stat = (\<lambda>_. None)\<rparr>"

definition sample_request_env :: "('l, 's) request_env" where
  "sample_request_env =
     \<lparr>rq_now = sample_now, rq_rnd = Inl [], rq_up = sample_up, rq_later = (\<lambda>h. h), rq_newID = ''sess_1'', rq_pick = True, rq_eventID = ''event_1'',
      rq_closeOK = True, rq_addr = 7\<rparr>"

lemma sample_served:
  "\<exists>h'. mountWithAuth sample_server sample_request_env ws_request (None, start_hub sample_pg) = Some (Hijacked, None, h')"
proof -
  have p: "req_Path ws_request = ''/ws''" by (simp add: ws_request_def)
  then have "mux_route sample_mux (mount_routes sample_config) (req_Path ws_request) = Some WsRoute"
    using mux_route_ws [OF sample_mux_ok] by blast
  moreover have "mux_cleanPath sample_mux ''/ws'' = ''/ws''" using sample_mux_ok clean_ws by (simp add: mux_ok_def)
  moreover have "cors_gate sample_config new_writer ws_request = Inr new_writer" using p by (simp add: cors_gate_def)
  ultimately show ?thesis
    using sample_upgrade p by (auto simp: mountWithAuth_def sample_server_def sample_request_env_def Let_def)
qed

end
