(* ===== verification/Cluster.thy ===== *)
theory Cluster
  imports Broker
begin

text \<open>
  Several instances of the program over one database and one Redis, as a machine: any number of
  hubs, each with its fan-out, the store they share, and the wire, which keeps every channel and
  payload that reached Redis, so that it may be delivered late, several times, in any order or
  never. Three histories are recorded on the side: the messages the goroutines of an instance
  have published, the events they queued for the broker, and the remote events an instance let
  through its origin check and its deduplication window.
\<close>

section \<open>The traffic of one hub\<close>

definition broker_queue :: "('l, 's) Hub \<Rightarrow> Envelope list" where
  "broker_queue h = (case h_brokerPublish h of None \<Rightarrow> [] | Some q \<Rightarrow> q)"

text \<open>The part of the state that messages between instances pass through.\<close>

definition traffic :: "('l, 's) Hub \<Rightarrow> Message list \<times> Envelope list \<times> string list \<times> string" where
  "traffic h = (h_broadcast h, broker_queue h, h_seenEventIDs h, h_instanceID h)"

lemma traffic_frame [simp, frame_simps]:
  "traffic (set_phase c p h) = traffic h" "traffic (count f h) = traffic h" "traffic (upd_client c g h) = traffic h"
  "traffic (h\<lparr>h_leavePending := v1\<rparr>) = traffic h" "traffic (h\<lparr>h_database := v2\<rparr>) = traffic h"
  "traffic (h\<lparr>h_heap := v3\<rparr>) = traffic h" "traffic (h\<lparr>h_history := v4\<rparr>) = traffic h"
  "traffic (h\<lparr>h_received := v5\<rparr>) = traffic h" "traffic (h\<lparr>h_runDone := v6\<rparr>) = traffic h"
  "traffic (h\<lparr>h_drain := v7\<rparr>) = traffic h" "traffic (h\<lparr>h_leaveDone := v8\<rparr>) = traffic h"
  "traffic (h\<lparr>h_drainCtxErr := v9\<rparr>) = traffic h" "traffic (h\<lparr>h_drainEvents := v10\<rparr>) = traffic h"
  "traffic (h\<lparr>h_runStarted := v23\<rparr>) = traffic h" "traffic (h\<lparr>h_brokerWG := v24\<rparr>) = traffic h"
  "traffic (h\<lparr>h_done := v11\<rparr>) = traffic h" "traffic (h\<lparr>h_leaveStop := v12\<rparr>) = traffic h"
  "traffic (h\<lparr>h_leaveCancelled := v13\<rparr>) = traffic h" "traffic (h\<lparr>h_leaveQueue := v14\<rparr>) = traffic h"
  "traffic (h\<lparr>h_leaveStarted := v15\<rparr>) = traffic h" "traffic (h\<lparr>h_clients := v16\<rparr>) = traffic h"
  "traffic (h\<lparr>h_finished := v17\<rparr>) = traffic h" "traffic (h\<lparr>h_metrics := v18\<rparr>) = traffic h"
  "traffic (h\<lparr>h_draining := v19\<rparr>) = traffic h" "traffic (h\<lparr>h_drainCap := v20\<rparr>) = traffic h"
  "traffic (h\<lparr>h_drainPending := v21\<rparr>) = traffic h" "traffic (h\<lparr>h_brokerCancelled := v22\<rparr>) = traffic h"
  by (simp_all add: traffic_def broker_queue_def set_phase_def count_def upd_client_def)

lemma traffic_drop [simp, frame_simps]:
  "traffic (redis_drop l h) = traffic h" "traffic (outbound_drop l h) = traffic h" "traffic (reject l h) = traffic h"
  "traffic (ws_upgrade l h) = traffic h" "traffic (stop h) = traffic h"
  by (simp_all add: redis_drop_def outbound_drop_def reject_def ws_upgrade_def stop_def)

lemma traffic_startBroker: "h_brokerPublish h = None \<Longrightarrow> traffic (startBroker h) = traffic h"
  by (simp add: startBroker_def traffic_def broker_queue_def)

lemma traffic_register: "register_locked c h = (ok, h') \<Longrightarrow> traffic h' = traffic h"
  by (auto simp: register_locked_def split: if_splits)

lemma traffic_save: "save_notification R m h = (m', h') \<Longrightarrow> traffic h' = traffic h"
  by (auto simp: save_notification_def case_prod_beta Let_def)

lemma traffic_leave_take: "leave_take R h = Some h' \<Longrightarrow> traffic h' = traffic h"
  by (auto simp: leave_take_def case_prod_beta Let_def save_notification_def split: list.splits)

lemma traffic_finished: "notifyClientFinished c h = Some h' \<Longrightarrow> traffic h' = traffic h"
  by (auto simp: notifyClientFinished_def Let_def split: option.splits if_splits)

lemma traffic_queueLeave [simp]: "traffic (queueLeaveNotification m h) = traffic h"
  by (simp add: queueLeaveNotification_def Let_def)

lemma traffic_disconnect [simp]: "traffic (disconnectClientLocked c h) = traffic h"
  by (simp add: disconnectClientLocked_def Let_def split: option.split)

lemma traffic_deliver [simp]: "traffic (deliver m c h) = traffic h"
  by (simp add: deliver_def enqueue_accepts Let_def split: option.split)

lemma traffic_deliver_all [simp]: "traffic (fold (deliver m) order h) = traffic h"
  by (induction order arbitrary: h) simp_all

lemma traffic_read: "readMessages_body R X now c C msg h = (out, h') \<Longrightarrow> traffic h' = traffic h"
  by (erule readMessages_body_cases) (simp_all add: auditRejectedMessage_def)

lemma traffic_history_push [simp]: "traffic (history_push c m ms C h) = traffic h"
  by (simp add: history_push_def case_prod_beta Let_def)

lemma traffic_drain_begin: "drain_begin order h = (cs, h') \<Longrightarrow> traffic h' = traffic h"
  by (auto simp: drain_begin_def Let_def)

lemma traffic_brokerDone: "brokerDone h = Some h' \<Longrightarrow> traffic h' = traffic h"
  by (auto simp: brokerDone_def split: if_splits)

lemma traffic_stopLeave:
  "stopLeave_begin h = (w, h') \<Longrightarrow> traffic h' = traffic h" "stopLeave_end h = (err, h') \<Longrightarrow> traffic h' = traffic h"
  by (auto simp: stopLeave_begin_def stopLeave_end_def split: if_splits)

lemmas traffic_ops = traffic_register traffic_save traffic_leave_take traffic_finished traffic_read traffic_drain_begin
  traffic_brokerDone traffic_stopLeave

lemma newHub_traffic: "traffic (newHub s (Some i)) = ([], [], [], i)"
  by (simp add: traffic_def broker_queue_def newHub_def)

text \<open>What a publication adds: the message, and for the broker nothing or an event that carries it.\<close>

definition in_UTC :: "Message \<Rightarrow> Message" where
  "in_UTC m = m\<lparr>m_Timestamp := time_UTC (m_Timestamp m)\<rparr>"

lemma carried_message_room: "message_of_event e = in_UTC m \<Longrightarrow> env_Room e = m_Room m"
proof -
  have "m_Room (message_of_event e) = env_Room e" "m_Room (in_UTC m) = m_Room m" by (simp_all add: message_of_event_def in_UTC_def)
  then show "message_of_event e = in_UTC m \<Longrightarrow> env_Room e = m_Room m" by simp
qed

lemma queueBrokerMessage_traffic:
  fixes h :: "('l, 's) Hub"
  shows "\<exists>es. traffic (queueBrokerMessage eid m h) = (h_broadcast h, broker_queue h @ es, h_seenEventIDs h, h_instanceID h) \<and>
     (\<forall>e \<in> set es. envelope_ok e \<and> env_OriginInstance e = h_instanceID h \<and> message_of_event e = in_UTC m)"
proof -
  define P where "P h' \<longleftrightarrow> (\<exists>es. traffic h' = (h_broadcast h, broker_queue h @ es, h_seenEventIDs h, h_instanceID h) \<and>
     (\<forall>e \<in> set es. envelope_ok e \<and> env_OriginInstance e = h_instanceID h \<and> message_of_event e = in_UTC m))"
    for h' :: "('l, 's) Hub"
  have same: "P h" "P (redis_drop l h)" for l
    unfolding P_def by (rule exI [of _ "[]"], simp, simp add: traffic_def)+
  have add: "P (h\<lparr>h_brokerPublish := Some (q @ [e])\<rparr>)"
    if "h_brokerPublish h = Some q" "New eid (m_Room m) (h_instanceID h) \<lparr>em_ID = m_ID m, em_UserID = m_UserID m,
      em_Username = m_Username m, em_Content = m_Content m, em_Type = m_Type m\<rparr> (m_Timestamp m) = Inr e" for q e
    unfolding P_def using that(1) New_ok [OF that(2)]
    by (intro exI [of _ "[e]"]) (simp add: traffic_def broker_queue_def message_of_event_def in_UTC_def)
  have "P (queueBrokerMessage eid m h)"
    unfolding queueBrokerMessage_def by (auto simp: same split: option.split sum.split intro!: add)
  then show ?thesis by (simp only: P_def)
qed

lemma publishContext_traffic:
  assumes "publishContext pick eid m h = Some (b, h')"
  obtains "traffic h' = traffic h"
  | es where "traffic h' = (h_broadcast h @ [m], broker_queue h @ es, h_seenEventIDs h, h_instanceID h)"
      "\<forall>e \<in> set es. envelope_ok e \<and> env_OriginInstance e = h_instanceID h \<and> message_of_event e = in_UTC m"
proof (cases "h' = h")
  case False
  then have "h' = queueBrokerMessage eid m (h\<lparr>h_broadcast := h_broadcast h @ [m]\<rparr>)"
    using assms by (auto simp: publishContext_def split: if_splits)
  then show thesis
    using queueBrokerMessage_traffic [of eid m "h\<lparr>h_broadcast := h_broadcast h @ [m]\<rparr>"] that(2)
    by (auto simp: broker_queue_def)
qed (rule that, simp)

text \<open>Every way a step of the hub can change the traffic.\<close>

lemma step_traffic:
  assumes "hub_step R X invar h h'"
  obtains (same) "traffic h' = traffic h"
  | (publishes) m es where "traffic h' = (h_broadcast h @ [m], broker_queue h @ es, h_seenEventIDs h, h_instanceID h)"
      "\<forall>e \<in> set es. envelope_ok e \<and> env_OriginInstance e = h_instanceID h \<and> message_of_event e = in_UTC m"
  | (delivers) "traffic h' = (tl (h_broadcast h), broker_queue h, h_seenEventIDs h, h_instanceID h)"
      "h_broadcast h \<noteq> []"
  | (sends) e q where "broker_queue h = e # q" "traffic h' = (h_broadcast h, q, h_seenEventIDs h, h_instanceID h)"
  | (hears) e pick where "envelope_ok e" "h' = handleRemoteEvent pick e h"
  using assms
proof (cases rule: hub_step.cases)
  case (JoinPublished c m pick e b h1)
  from JoinPublished(3) show ?thesis
    by (cases rule: publishContext_traffic) (use JoinPublished(1) same publishes in auto)
next
  case (ReadPublished c m pick e b h1)
  from ReadPublished(3) show ?thesis
    by (cases rule: publishContext_traffic) (use ReadPublished(1) same publishes in auto)
next
  case (LeavePublished m pick e b h1)
  from LeavePublished(3) show ?thesis
    by (cases rule: publishContext_traffic) (use LeavePublished(1) same publishes in auto)
next
  case (RunBroadcast order)
  then obtain m rest where "h_broadcast h = m # rest" "h' = fold (deliver m) order (h\<lparr>h_broadcast := rest\<rparr>)"
    by (auto simp: run_broadcast_def split: list.splits)
  then have "traffic h' = traffic (h\<lparr>h_broadcast := tl (h_broadcast h)\<rparr>)" "h_broadcast h \<noteq> []" by simp_all
  then show ?thesis using delivers by (simp add: traffic_def broker_queue_def)
next
  case (BrokerSent event q)
  then show ?thesis using sends by (simp add: traffic_def broker_queue_def)
next
  case (Remote event pick)
  then show ?thesis using hears by blast
qed (rule same; auto simp: traffic_startBroker dest: traffic_ops split: if_splits)+

text \<open>A remote event that passes the origin check and the window is remembered; no other changes anything.\<close>

definition lets_through :: "('l, 's) Hub \<Rightarrow> Envelope \<Rightarrow> bool" where
  "lets_through h event \<longleftrightarrow> env_OriginInstance event \<noteq> h_instanceID h \<and> env_EventID event \<notin> set (h_seenEventIDs h)"

lemma handleRemoteEvent_traffic:
  assumes "seen_ok (h_seenEventIDs h) (h_seenEvents h)"
  obtains ms where "set ms \<subseteq> (if lets_through h e then {message_of_event e} else {})"
    "traffic (handleRemoteEvent pick e h) = (h_broadcast h @ ms, broker_queue h,
       if lets_through h e then lastn maxSeenBrokerEvents (h_seenEventIDs h @ [env_EventID e]) else h_seenEventIDs h,
       h_instanceID h)"
proof -
  obtain b h1 where r: "rememberBrokerEvent (env_EventID e) h = (b, h1)" by fastforce
  have q: "broker_queue h1 = broker_queue h"
    using r by (auto simp: rememberBrokerEvent_def broker_queue_def Let_def split: if_splits)
  have "\<exists>ms. set ms \<subseteq> (if lets_through h e then {message_of_event e} else {}) \<and>
     traffic (handleRemoteEvent pick e h) = (h_broadcast h @ ms, broker_queue h,
       if lets_through h e then lastn maxSeenBrokerEvents (h_seenEventIDs h @ [env_EventID e]) else h_seenEventIDs h,
       h_instanceID h)"
    using rememberBrokerEvent_refines [OF assms r] rememberBrokerEvent_frame [OF r] q
    by (auto simp: handleRemoteEvent_def r lets_through_def window_add_def traffic_def broker_queue_def drop_forms Let_def)
  then show thesis using that by blast
qed

text \<open>So a step that leaves the window alone is one of this instance's own.\<close>

lemma own_step_traffic:
  assumes "hub_step R X invar h h'" "h_seenEventIDs h' = h_seenEventIDs h" "seen_ok (h_seenEventIDs h) (h_seenEvents h)"
  obtains (same) "traffic h' = traffic h"
  | (publishes) m es where "traffic h' = (h_broadcast h @ [m], broker_queue h @ es, h_seenEventIDs h, h_instanceID h)"
      "\<forall>e \<in> set es. envelope_ok e \<and> env_OriginInstance e = h_instanceID h \<and> message_of_event e = in_UTC m"
  | (delivers) "traffic h' = (tl (h_broadcast h), broker_queue h, h_seenEventIDs h, h_instanceID h)"
  | (sends) e q where "broker_queue h = e # q" "traffic h' = (h_broadcast h, q, h_seenEventIDs h, h_instanceID h)"
  using assms(1)
proof (cases rule: step_traffic)
  case (hears e pick)
  obtain ms where ms: "set ms \<subseteq> (if lets_through h e then {message_of_event e} else {})"
    "traffic h' = (h_broadcast h @ ms, broker_queue h,
       if lets_through h e then lastn maxSeenBrokerEvents (h_seenEventIDs h @ [env_EventID e]) else h_seenEventIDs h,
       h_instanceID h)"
    using handleRemoteEvent_traffic [OF assms(3)] hears(2) by metis
  have "env_EventID e \<in> set (lastn maxSeenBrokerEvents (h_seenEventIDs h @ [env_EventID e]))"
    by (simp add: lastn_def maxSeenBrokerEvents_def)
  then have "\<not> lets_through h e"
    using ms(2) assms(2) by (auto simp: traffic_def lets_through_def split: if_splits)
  then show ?thesis using ms same by (simp add: traffic_def)
qed (use that in blast)+

section \<open>The machine\<close>

record ('l, 's) Cluster =
  cl_store :: 's
  cl_hub :: "nat \<Rightarrow> ('l, 's) Hub"
  cl_wire :: "(string \<times> string) list"
  cl_said :: "nat \<Rightarrow> Message list"
  cl_sent :: "nat \<Rightarrow> Envelope list"
  cl_got :: "nat \<Rightarrow> Envelope list"

definition appended :: "'a list \<Rightarrow> 'a list \<Rightarrow> 'a list" where
  "appended old new = drop (length old) new"

definition own_step :: "nat \<Rightarrow> ('l, 's) Hub \<Rightarrow> ('l, 's) Cluster \<Rightarrow> ('l, 's) Cluster" where
  "own_step i h' s =
     s\<lparr>cl_store := h_database h', cl_hub := (cl_hub s)(i := h'),
       cl_said := (cl_said s)(i := cl_said s i @ appended (h_broadcast (cl_hub s i)) (h_broadcast h')),
       cl_sent := (cl_sent s)(i := cl_sent s i @ appended (broker_queue (cl_hub s i)) (broker_queue h'))\<rparr>"

definition new_cluster :: "(nat \<Rightarrow> RedisFanout) \<Rightarrow> 's \<Rightarrow> ('l, 's) Cluster" where
  "new_cluster B s =
     \<lparr>cl_store = s, cl_hub = (\<lambda>i. newHub s (Some (rf_instanceID (B i)))), cl_wire = [], cl_said = (\<lambda>_. []),
      cl_sent = (\<lambda>_. []), cl_got = (\<lambda>_. [])\<rparr>"

text \<open>
  A step of one of an instance's own goroutines, on the shared store; a turn of its publisher,
  whose call may also fail after Redis has taken the payload; and the receipt of anything that is
  on the wire, by any instance, as often as Redis likes.
\<close>

inductive cluster_step ::
  "'s Repository \<Rightarrow> 'l rate_lib \<Rightarrow> ('s \<Rightarrow> bool) \<Rightarrow> broker_lib \<Rightarrow> (nat \<Rightarrow> RedisFanout) \<Rightarrow>
     ('l, 's) Cluster \<Rightarrow> ('l, 's) Cluster \<Rightarrow> bool"
  for R :: "'s Repository" and X :: "'l rate_lib" and invar :: "'s \<Rightarrow> bool" and L B where
  Own: "hub_step R X invar ((cl_hub s i)\<lparr>h_database := cl_store s\<rparr>) h' \<Longrightarrow>
    h_seenEventIDs h' = h_seenEventIDs (cl_hub s i) \<Longrightarrow> cluster_step R X invar L B s (own_step i h' s)"
| Sent: "runBrokerPublisher L pick sendOK (B i) M (cl_hub s i) = Some (res, M', h') \<Longrightarrow>
    cluster_step R X invar L B s
      (s\<lparr>cl_hub := (cl_hub s)(i := h'), cl_wire := cl_wire s @ (case res of Inl _ \<Rightarrow> [] | Inr sent \<Rightarrow> [sent])\<rparr>)"
| SentUnacknowledged: "runBrokerPublisher L pick False (B i) M (cl_hub s i) = Some (Inl PublishFailed, M', h') \<Longrightarrow>
    runBrokerPublisher L pick True (B i) M (cl_hub s i) = Some (Inr sent, M1, h1) \<Longrightarrow>
    cluster_step R X invar L B s (s\<lparr>cl_hub := (cl_hub s)(i := h'), cl_wire := cl_wire s @ [sent]\<rparr>)"
| Received: "(channel, payload) \<in> set (cl_wire s) \<Longrightarrow> decode_event L (B i) channel payload = Some event \<Longrightarrow>
    cluster_step R X invar L B s
      (s\<lparr>cl_hub := (cl_hub s)(i := handleRemoteEvent pick event (cl_hub s i)),
         cl_got := (cl_got s)(i := cl_got s i @ (if lets_through (cl_hub s i) event then [event] else []))\<rparr>)"

inductive cluster_reachable ::
  "'s Repository \<Rightarrow> 'l rate_lib \<Rightarrow> ('s \<Rightarrow> bool) \<Rightarrow> broker_lib \<Rightarrow> (nat \<Rightarrow> RedisFanout) \<Rightarrow> ('l, 's) Cluster \<Rightarrow> bool"
  for R :: "'s Repository" and X :: "'l rate_lib" and invar :: "'s \<Rightarrow> bool" and L B where
  NewCluster: "invar s \<Longrightarrow> cluster_reachable R X invar L B (new_cluster B s)"
| ClusterStep: "cluster_reachable R X invar L B s \<Longrightarrow> cluster_step R X invar L B s s' \<Longrightarrow>
    cluster_reachable R X invar L B s'"

section \<open>The invariant\<close>

text \<open>No identifier comes twice among any \<open>n\<close> consecutive ones.\<close>

definition recent_distinct :: "nat \<Rightarrow> 'a list \<Rightarrow> bool" where
  "recent_distinct n xs \<longleftrightarrow> (\<forall>k. distinct (take n (drop k xs)))"

lemma recent_distinct_snoc:
  assumes "recent_distinct n xs" "x \<notin> set (lastn n xs)"
  shows "recent_distinct n (xs @ [x])"
  unfolding recent_distinct_def
proof
  fix k
  have "set (drop k xs) \<subseteq> set (lastn n xs)" if "length xs - k < n"
    using that by (simp add: lastn_def set_drop_subset_set_drop)
  then show "distinct (take n (drop k (xs @ [x])))"
    using assms(1) [unfolded recent_distinct_def, THEN spec, of k] assms(2)
    by (cases "length xs - k < n"; cases "k \<le> length xs") auto
qed

definition instance_ok ::
  "('s \<Rightarrow> bool) \<Rightarrow> RedisFanout \<Rightarrow> ('l, 's) Hub \<Rightarrow> Message list \<Rightarrow> Envelope list \<Rightarrow> Envelope list \<Rightarrow> bool" where
  "instance_ok invar b h said sent got \<longleftrightarrow>
     hub_inv invar h \<and> h_instanceID h = rf_instanceID b \<and> set (broker_queue h) \<subseteq> set sent \<and>
     (\<forall>e \<in> set sent. envelope_ok e \<and> env_OriginInstance e = rf_instanceID b \<and> message_of_event e \<in> in_UTC ` set said) \<and>
     set (h_broadcast h) \<subseteq> set said \<union> message_of_event ` set got \<and>
     (\<forall>e \<in> set got. envelope_ok e \<and> env_OriginInstance e \<noteq> rf_instanceID b) \<and>
     h_seenEventIDs h = lastn maxSeenBrokerEvents (map env_EventID got) \<and>
     recent_distinct maxSeenBrokerEvents (map env_EventID got)"

text \<open>What \<open>Publish\<close> on one side and the subscription on the other make of an event.\<close>

definition carried :: "broker_lib \<Rightarrow> RedisFanout \<Rightarrow> RedisFanout \<Rightarrow> Envelope \<Rightarrow> Envelope \<Rightarrow> bool" where
  "carried L b b' e e' \<longleftrightarrow>
     (\<exists>channel payload. Channel (rf_namespace b) (env_Room e) = Inr channel \<and> marshal_event L e = Some payload \<and>
        decode_event L b' channel payload = Some e')"

definition cluster_inv ::
  "('s \<Rightarrow> bool) \<Rightarrow> broker_lib \<Rightarrow> (nat \<Rightarrow> RedisFanout) \<Rightarrow> ('l, 's) Cluster \<Rightarrow> bool" where
  "cluster_inv invar L B s \<longleftrightarrow> invar (cl_store s) \<and>
     (\<forall>i. instance_ok invar (B i) (cl_hub s i) (cl_said s i) (cl_sent s i) (cl_got s i)) \<and>
     (\<forall>(channel, payload) \<in> set (cl_wire s). \<exists>j. \<exists>e \<in> set (cl_sent s j).
        Channel (rf_namespace (B j)) (env_Room e) = Inr channel \<and> marshal_event L e = Some payload) \<and>
     (\<forall>i. \<forall>e' \<in> set (cl_got s i). \<exists>j. \<exists>e \<in> set (cl_sent s j). carried L (B j) (B i) e e')"

text \<open>What is relied on of \<open>encoding/json\<close>: the origin, plain ASCII, comes back as it was.\<close>

definition json_keeps_origin :: "broker_lib \<Rightarrow> bool" where
  "json_keeps_origin L \<longleftrightarrow> (\<forall>e payload e'. envelope_ok e \<longrightarrow> marshal_event L e = Some payload \<longrightarrow>
     unmarshal_event L payload = Some e' \<longrightarrow> env_OriginInstance e' = env_OriginInstance e)"

lemma carried_origin:
  "carried L b b' e e' \<Longrightarrow> envelope_ok e \<Longrightarrow> json_keeps_origin L \<Longrightarrow> env_OriginInstance e' = env_OriginInstance e"
  by (auto simp: carried_def decode_event_ok json_keeps_origin_def)

text \<open>The channel keeps the room and the namespace, by the check of the subscription.\<close>

lemma carried_room:
  assumes "carried L b b' e e'" "envelope_ok e"
  shows "env_Room e' = env_Room e \<and> normalizeToken (rf_namespace b') = normalizeToken (rf_namespace b)"
proof -
  obtain channel where c: "Channel (rf_namespace b) (env_Room e) = Inr channel" "envelope_ok e'"
      "Channel (rf_namespace b') (env_Room e') = Inr channel"
    using assms(1) by (auto simp: carried_def decode_event_ok)
  have "NormalizeRoom (env_Room x) = Inr (env_Room x)" if "envelope_ok x" for x
    using that by (intro NormalizeRoom_canonical_id) (simp add: envelope_ok_def)
  then show ?thesis using Channel_inj [OF c(1,3)] assms(2) c(2) by (metis sum.inject(2))
qed

context hub_storage
begin

lemma instance_own:
  assumes ok: "instance_ok invar b h said sent got" and "invar st"
    and st: "hub_step R X invar (h\<lparr>h_database := st\<rparr>) h'" and seen: "h_seenEventIDs h' = h_seenEventIDs h"
  shows "instance_ok invar b h' (said @ appended (h_broadcast h) (h_broadcast h'))
    (sent @ appended (broker_queue h) (broker_queue h')) got"
proof -
  let ?h = "h\<lparr>h_database := st\<rparr>"
  have inv: "hub_inv invar ?h" using ok assms(2) hub_inv_database by (auto simp: instance_ok_def)
  note inv' = hub_inv_step [OF st inv]
  have so: "seen_ok (h_seenEventIDs ?h) (h_seenEvents ?h)" "h_seenEventIDs h' = h_seenEventIDs ?h"
    using hub_invD(11) [OF inv] seen by simp_all
  have t: "broker_queue ?h = broker_queue h" "traffic ?h = traffic h" by (simp_all add: broker_queue_def)
  from st so(2,1) show ?thesis
  proof (cases rule: own_step_traffic)
    case same
    then show ?thesis using ok inv' unfolding t by (simp add: instance_ok_def traffic_def appended_def)
  next
    case (publishes m es)
    then have e: "h_broadcast h' = h_broadcast h @ [m]" "broker_queue h' = broker_queue h @ es" "h_instanceID h' = h_instanceID h"
      unfolding t by (simp_all add: traffic_def)
    have "\<forall>e \<in> set es. envelope_ok e \<and> env_OriginInstance e = rf_instanceID b \<and> message_of_event e = in_UTC m"
      using publishes(2) ok by (simp add: instance_ok_def)
    then show ?thesis using ok inv' e seen by (auto simp: instance_ok_def appended_def)
  next
    case delivers
    then have "h_broadcast h' = tl (h_broadcast h)" "broker_queue h' = broker_queue h" "h_instanceID h' = h_instanceID h"
      unfolding t by (simp_all add: traffic_def)
    then show ?thesis using ok inv' seen list.set_sel(2) [of "h_broadcast h"]
      by (cases "h_broadcast h") (auto simp: instance_ok_def appended_def)
  next
    case (sends e q)
    then have "h_broadcast h' = h_broadcast h" "broker_queue h = e # q" "broker_queue h' = q" "h_instanceID h' = h_instanceID h"
      unfolding t by (simp_all add: traffic_def)
    then show ?thesis using ok inv' seen by (auto simp: instance_ok_def appended_def)
  qed
qed

lemma instance_publishes:
  assumes ok: "instance_ok invar b h said sent got" and p: "runBrokerPublisher L pick sendOK b M h = Some (res, M', h')"
  shows "instance_ok invar b h' said sent got"
    "res = Inr (channel, payload) \<Longrightarrow>
       \<exists>e \<in> set sent. Channel (rf_namespace b) (env_Room e) = Inr channel \<and> marshal_event L e = Some payload"
proof -
  obtain e q where q: "h_brokerPublish h = Some (e # q)" "Publish L sendOK b e M = (res, M')" "h' = h\<lparr>h_brokerPublish := Some q\<rparr>"
    using p by (auto simp: runBrokerPublisher_def split: if_splits option.splits list.splits prod.splits)
  have e: "e \<in> set sent" using ok q(1) by (simp add: instance_ok_def broker_queue_def)
  have "hub_inv invar h" using ok by (simp add: instance_ok_def)
  then have "hub_inv invar h'" by (rule hub_inv_step [OF runBrokerPublisher_step [OF p]])
  then show "instance_ok invar b h' said sent got"
    using ok q(1,3) by (auto simp: instance_ok_def broker_queue_def)
  show "res = Inr (channel, payload) \<Longrightarrow>
      \<exists>e \<in> set sent. Channel (rf_namespace b) (env_Room e) = Inr channel \<and> marshal_event L e = Some payload"
    using Publish_ok e q(2) by blast
qed

lemma instance_receives:
  assumes ok: "instance_ok invar b h said sent got" and e: "envelope_ok e"
  shows "instance_ok invar b (handleRemoteEvent pick e h) said sent (got @ (if lets_through h e then [e] else []))"
proof -
  have inv: "hub_inv invar h" using ok by (simp add: instance_ok_def)
  obtain ms where ms: "set ms \<subseteq> (if lets_through h e then {message_of_event e} else {})"
    "traffic (handleRemoteEvent pick e h) = (h_broadcast h @ ms, broker_queue h,
       if lets_through h e then lastn maxSeenBrokerEvents (h_seenEventIDs h @ [env_EventID e]) else h_seenEventIDs h,
       h_instanceID h)"
    using handleRemoteEvent_traffic [OF hub_invD(11) [OF inv]] by metis
  let ?ids = "map env_EventID got"
  have ids: "h_seenEventIDs h = lastn maxSeenBrokerEvents ?ids" "recent_distinct maxSeenBrokerEvents ?ids"
    "h_instanceID h = rf_instanceID b"
    using ok by (simp_all add: instance_ok_def)
  have "recent_distinct maxSeenBrokerEvents (?ids @ [env_EventID e])" if "lets_through h e"
    using that ids by (intro recent_distinct_snoc) (simp_all add: lets_through_def)
  moreover have "lastn maxSeenBrokerEvents (h_seenEventIDs h @ [env_EventID e]) = lastn maxSeenBrokerEvents (?ids @ [env_EventID e])"
    by (simp add: ids(1) lastn_append_lastn)
  ultimately show ?thesis
    using ok e ms hub_inv_remote [OF inv e, of pick] ids(3)
    by (auto simp: instance_ok_def traffic_def lets_through_def split: if_splits)
qed

lemma cluster_inv_own:
  assumes ok: "cluster_inv invar L B s" and st: "hub_step R X invar ((cl_hub s i)\<lparr>h_database := cl_store s\<rparr>) h'"
    and seen: "h_seenEventIDs h' = h_seenEventIDs (cl_hub s i)"
  shows "cluster_inv invar L B (own_step i h' s)"
proof -
  have "instance_ok invar (B i) (cl_hub s i) (cl_said s i) (cl_sent s i) (cl_got s i)" "invar (cl_store s)"
    using ok by (simp_all add: cluster_inv_def)
  note i = instance_own [OF this st seen]
  then have "invar (h_database h')" by (simp add: instance_ok_def hub_inv_def)
  moreover have "set (cl_sent s j) \<subseteq> set (cl_sent (own_step i h' s) j)" for j by (auto simp: own_step_def)
  ultimately show ?thesis using ok i unfolding cluster_inv_def own_step_def by (fastforce split: if_splits)
qed

lemma cluster_inv_sent:
  assumes "cluster_inv invar L B s" "instance_ok invar (B i) h' (cl_said s i) (cl_sent s i) (cl_got s i)"
    and "\<And>channel payload. (channel, payload) \<in> set w \<Longrightarrow> \<exists>e \<in> set (cl_sent s i).
      Channel (rf_namespace (B i)) (env_Room e) = Inr channel \<and> marshal_event L e = Some payload"
  shows "cluster_inv invar L B (s\<lparr>cl_hub := (cl_hub s)(i := h'), cl_wire := cl_wire s @ w\<rparr>)"
  using assms unfolding cluster_inv_def by fastforce

lemma cluster_inv_step:
  assumes "cluster_step R X invar L B s s'" "cluster_inv invar L B s"
  shows "cluster_inv invar L B s'"
  using assms
proof (induction rule: cluster_step.induct)
  case (Own s i h')
  then show ?case by (intro cluster_inv_own)
next
  case (Sent pick sendOK i M s res M' h')
  then have ok: "instance_ok invar (B i) (cl_hub s i) (cl_said s i) (cl_sent s i) (cl_got s i)" by (simp add: cluster_inv_def)
  note p = instance_publishes [OF ok Sent(1)]
  show ?case by (rule cluster_inv_sent [OF Sent(2) p(1)]) (auto split: sum.splits intro!: p(2))
next
  case (SentUnacknowledged pick i M s M' h' sent M1 h1)
  then have ok: "instance_ok invar (B i) (cl_hub s i) (cl_said s i) (cl_sent s i) (cl_got s i)" by (simp add: cluster_inv_def)
  note p = instance_publishes(1) [OF ok SentUnacknowledged(1)] instance_publishes(2) [OF ok SentUnacknowledged(2)]
  show ?case by (rule cluster_inv_sent [OF SentUnacknowledged(3) p(1)]) (auto intro!: p(2))
next
  case (Received channel payload s i event pick)
  then have ok: "instance_ok invar (B i) (cl_hub s i) (cl_said s i) (cl_sent s i) (cl_got s i)" by (simp add: cluster_inv_def)
  have e: "envelope_ok event" using Received(2) by (simp add: decode_event_ok)
  obtain j x where x: "x \<in> set (cl_sent s j)" "Channel (rf_namespace (B j)) (env_Room x) = Inr channel"
    "marshal_event L x = Some payload"
    using Received(1,3) by (fastforce simp: cluster_inv_def)
  then have "carried L (B j) (B i) x event" using Received(2) by (auto simp: carried_def)
  then show ?case using Received(3) instance_receives [OF ok e, of pick] x(1) unfolding cluster_inv_def by (auto split: if_splits)
qed

lemma cluster_inv_new: "invar s \<Longrightarrow> cluster_inv invar L B (new_cluster B s)"
  using hub_inv_new newHub_traffic [of s]
  by (auto simp: cluster_inv_def instance_ok_def new_cluster_def traffic_def recent_distinct_def lastn_def)

lemma cluster_inv_reachable: "cluster_reachable R X invar L B s \<Longrightarrow> cluster_inv invar L B s"
  by (induction rule: cluster_reachable.induct) (auto intro: cluster_inv_new cluster_inv_step)

text \<open>What an instance let through was queued by another one, whatever the wire did to it.\<close>

lemma cluster_remote:
  assumes "cluster_reachable R X invar L B s" "json_keeps_origin L" "e' \<in> set (cl_got s i)"
  obtains j e m where "j \<noteq> i" "e \<in> set (cl_sent s j)" "carried L (B j) (B i) e e'" "m \<in> set (cl_said s j)"
    "message_of_event e = in_UTC m" "env_Room e' = env_Room e"
    "normalizeToken (rf_namespace (B i)) = normalizeToken (rf_namespace (B j))"
proof -
  have inv: "cluster_inv invar L B s" by (rule cluster_inv_reachable [OF assms(1)])
  then obtain j e where e: "e \<in> set (cl_sent s j)" "carried L (B j) (B i) e e'"
    using assms(3) unfolding cluster_inv_def by blast
  have ok: "instance_ok invar (B k) (cl_hub s k) (cl_said s k) (cl_sent s k) (cl_got s k)" for k
    using inv by (simp add: cluster_inv_def)
  have s: "envelope_ok e" "env_OriginInstance e = rf_instanceID (B j)" "message_of_event e \<in> in_UTC ` set (cl_said s j)"
    using ok [of j] e(1) by (simp_all add: instance_ok_def)
  have "env_OriginInstance e' \<noteq> rf_instanceID (B i)" using ok [of i] assms(3) by (simp add: instance_ok_def)
  moreover have "env_OriginInstance e' = env_OriginInstance e" by (rule carried_origin [OF e(2) s(1) assms(2)])
  ultimately have "j \<noteq> i" using s(2) by auto
  then show thesis using that e s(3) carried_room [OF e(2) s(1)] by blast
qed

lemma cluster_queue:
  assumes "cluster_reachable R X invar L B s"
  shows "set (h_broadcast (cl_hub s i)) \<subseteq> set (cl_said s i) \<union> message_of_event ` set (cl_got s i)"
    "distinct (take 4096 (drop k (map env_EventID (cl_got s i))))"
  using cluster_inv_reachable [OF assms]
  by (auto simp: cluster_inv_def instance_ok_def recent_distinct_def maxSeenBrokerEvents_def)

end

end
