(* ===== verification/Lifecycle.thy ===== *)
theory Lifecycle
  imports HubStorage
begin

text \<open>
  The loops of the hub as the source writes them, on top of the step relation: \<open>isDraining\<close>,
  \<open>unregisterClient\<close>, the iterations of \<open>run\<close>, the context of a leave notification and
  \<open>Shutdown\<close>. Each turn is shown to be a step of the machine, the run loop to wait only when it
  has nothing to do, and a shutdown to come to its end from every state and to end once.
\<close>

section \<open>Operations\<close>

definition isDraining :: "('l, 's) Hub \<Rightarrow> bool" where
  "isDraining h = h_draining h"

text \<open>
  The channel has no buffer: the send completes when the run loop is there to receive, which it is
  once it has been started and until it ends. Go may
  take either case when the hub is stopped between the two \<open>select\<close> statements: \<open>pick\<close>.
\<close>

definition unregisterClient :: "bool \<Rightarrow> nat \<Rightarrow> ('l, 's) Hub \<Rightarrow> ('l, 's) Hub option" where
  "unregisterClient pick c h =
     (if h_runStarted h \<and> \<not> h_runDone h \<and> h_received h = None \<and> (\<not> h_done h \<or> pick) then Some (h\<lparr>h_received := Some c\<rparr>)
      else if h_done h then Some h
      else None)"

text \<open>
  One iteration of \<open>run\<close> by the case its \<open>select\<close> takes; a broadcast with the order in which
  the map of clients is iterated. \<open>None\<close>: the case is not ready.
\<close>

datatype run_case = CaseDone | CaseUnregister | CaseBroadcast "nat list"

definition run_iteration :: "run_case \<Rightarrow> ('l, 's) Hub \<Rightarrow> ('l, 's) Hub option" where
  "run_iteration k h =
     (if \<not> h_runStarted h \<or> h_runDone h then None
      else case k of
             CaseDone \<Rightarrow> if h_done h \<and> h_received h = None then Some (h\<lparr>h_runDone := True\<rparr>) else None
           | CaseUnregister \<Rightarrow>
               (case h_received h of
                  None \<Rightarrow> None
                | Some client \<Rightarrow> Some (disconnectClientLocked client (h\<lparr>h_received := None\<rparr>)))
           | CaseBroadcast order \<Rightarrow> if h_received h = None then run_broadcast order h else None)"

text \<open>
  The context a leave notification is saved under: cancelled with its parent (none: the
  background), with the hub's leave context, or by the caller once the save has returned.
\<close>

definition leaveNotificationContext :: "bool option \<Rightarrow> bool \<Rightarrow> ('l, 's) Hub \<Rightarrow> bool" where
  "leaveNotificationContext parent cancelled h =
     ((case parent of None \<Rightarrow> False | Some ended \<Rightarrow> ended) \<or> h_leaveCancelled h \<or> cancelled)"

text \<open>
  \<open>Shutdown\<close> with its \<open>sync.Once\<close>: the first call starts the drain, and every call answers
  with the result of that drain once there is one; until then it waits: \<open>None\<close>.
\<close>

definition Shutdown :: "nat list \<Rightarrow> ('l, 's) Hub \<Rightarrow> ctx_error option option \<times> ('l, 's) Hub" where
  "Shutdown order h =
     (case h_drain h of
        DrainIdle \<Rightarrow> (case drain_begin order h of (clients, h') \<Rightarrow> (None, h'\<lparr>h_drain := DrainBroker clients\<rparr>))
      | DrainReturned err \<Rightarrow> (Some err, h)
      | _ \<Rightarrow> (None, h))"

section \<open>As steps of the machine\<close>

lemma unregisterClient_step:
  assumes "h_phase h c = Some Unregistering" "unregisterClient pick c h = Some h'"
  shows "hub_step R X invar h (set_phase c Unregistered h')"
  using assms by (auto simp: unregisterClient_def split: if_splits intro: Unregister UnregisterStopped)

lemma unregisterClient_waits:
  "unregisterClient pick c h = None \<longleftrightarrow> \<not> h_done h \<and> (\<not> h_runStarted h \<or> h_runDone h \<or> h_received h \<noteq> None)"
  by (auto simp: unregisterClient_def)

lemma run_iteration_step:
  assumes "run_iteration k h = Some h'" "\<And>order. k = CaseBroadcast order \<Longrightarrow> distinct order \<and> set order = h_clients h"
  shows "hub_step R X invar h h'"
  using assms
  by (cases k) (auto simp: run_iteration_def split: if_splits option.splits intro: RunStop RunDisconnect RunBroadcast)

text \<open>The run loop waits only when the hub is not stopped and nothing has arrived: no case of it blocks.\<close>

lemma run_iteration_ready:
  assumes "h_runStarted h" "\<not> h_runDone h"
  shows "(\<exists>k h'. run_iteration k h = Some h') \<longleftrightarrow> h_done h \<or> h_received h \<noteq> None \<or> h_broadcast h \<noteq> []"
proof
  assume "\<exists>k h'. run_iteration k h = Some h'"
  then obtain k h' where "run_iteration k h = Some h'" by blast
  then show "h_done h \<or> h_received h \<noteq> None \<or> h_broadcast h \<noteq> []"
    by (cases k) (auto simp: run_iteration_def run_broadcast_def split: if_splits option.splits list.splits)
next
  assume r: "h_done h \<or> h_received h \<noteq> None \<or> h_broadcast h \<noteq> []"
  consider c where "h_received h = Some c" | "h_received h = None" "h_done h" | "h_received h = None" "h_broadcast h \<noteq> []"
    using r by auto
  then show "\<exists>k h'. run_iteration k h = Some h'"
  proof cases
    case 1
    then show ?thesis using assms by (intro exI [of _ CaseUnregister]) (simp add: run_iteration_def)
  next
    case 2
    then show ?thesis using assms by (intro exI [of _ CaseDone]) (simp add: run_iteration_def)
  next
    case 3
    then show ?thesis using assms
      by (intro exI [of _ "CaseBroadcast order" for order]) (auto simp: run_iteration_def run_broadcast_def neq_Nil_conv)
  qed
qed

lemma Shutdown_step:
  assumes "Shutdown order h = (r, h')" "distinct order" "set order = h_clients h"
  shows "(hub_step R X invar)\<^sup>*\<^sup>* h h'"
  using assms
  by (auto simp: Shutdown_def split: drain_phase.splits prod.splits intro!: r_into_rtranclp DrainBegin)

section \<open>The stages of a shutdown\<close>

definition stage :: "('l, 's) Hub \<Rightarrow> drain_phase \<times> bool \<times> bool \<times> bool" where
  "stage h = (h_drain h, h_done h, h_runStarted h, h_runDone h)"

lemma stage_frame [simp, frame_simps]:
  "stage (set_phase c p h) = stage h" "stage (count f h) = stage h" "stage (upd_client c g h) = stage h"
  "stage (h\<lparr>h_leavePending := v1\<rparr>) = stage h" "stage (h\<lparr>h_database := v2\<rparr>) = stage h"
  "stage (h\<lparr>h_heap := v3\<rparr>) = stage h" "stage (h\<lparr>h_history := v4\<rparr>) = stage h"
  "stage (h\<lparr>h_received := v5\<rparr>) = stage h" "stage (h\<lparr>h_broadcast := v6\<rparr>) = stage h"
  "stage (h\<lparr>h_brokerPublish := v7\<rparr>) = stage h" "stage (h\<lparr>h_leaveDone := v8\<rparr>) = stage h"
  "stage (h\<lparr>h_drainCtxErr := v9\<rparr>) = stage h" "stage (h\<lparr>h_drainEvents := v10\<rparr>) = stage h"
  "stage (h\<lparr>h_seenEvents := v11\<rparr>) = stage h" "stage (h\<lparr>h_leaveStop := v12\<rparr>) = stage h"
  "stage (h\<lparr>h_leaveCancelled := v13\<rparr>) = stage h" "stage (h\<lparr>h_leaveQueue := v14\<rparr>) = stage h"
  "stage (h\<lparr>h_leaveStarted := v15\<rparr>) = stage h" "stage (h\<lparr>h_clients := v16\<rparr>) = stage h"
  "stage (h\<lparr>h_finished := v17\<rparr>) = stage h" "stage (h\<lparr>h_seenEventIDs := v18\<rparr>) = stage h"
  "stage (h\<lparr>h_draining := v19\<rparr>) = stage h" "stage (h\<lparr>h_drainCap := v20\<rparr>) = stage h"
  "stage (h\<lparr>h_drainPending := v21\<rparr>) = stage h" "stage (h\<lparr>h_brokerCancelled := v22\<rparr>) = stage h"
  "stage (h\<lparr>h_metrics := v23\<rparr>) = stage h" "stage (h\<lparr>h_brokerWG := v24\<rparr>) = stage h"
  by (simp_all add: stage_def set_phase_def count_def upd_client_def)

lemma stage_drop [simp, frame_simps]:
  "stage (redis_drop l h) = stage h" "stage (outbound_drop l h) = stage h" "stage (reject l h) = stage h"
  "stage (ws_upgrade l h) = stage h" "stage (startBroker h) = stage h"
  by (simp_all add: redis_drop_def outbound_drop_def reject_def ws_upgrade_def startBroker_def)

lemma stage_queueBroker [simp]: "stage (queueBrokerMessage e m h) = stage h"
  by (simp add: queueBrokerMessage_def split: option.split sum.split)

lemma stage_publish: "publishContext pick e m h = Some (b, h') \<Longrightarrow> stage h' = stage h"
  by (auto simp: publishContext_def split: if_splits)

lemma stage_register: "register_locked c h = (ok, h') \<Longrightarrow> stage h' = stage h"
  by (auto simp: register_locked_def split: if_splits)

lemma stage_save: "save_notification R m h = (m', h') \<Longrightarrow> stage h' = stage h"
  by (auto simp: save_notification_def case_prod_beta Let_def)

lemma stage_leave_take: "leave_take R h = Some h' \<Longrightarrow> stage h' = stage h"
  by (auto simp: leave_take_def case_prod_beta Let_def save_notification_def split: list.splits)

lemma stage_finished: "notifyClientFinished c h = Some h' \<Longrightarrow> stage h' = stage h"
  by (auto simp: notifyClientFinished_def Let_def split: option.splits if_splits)

lemma stage_disconnect [simp]: "stage (disconnectClientLocked c h) = stage h"
  by (simp add: disconnectClientLocked_def queueLeaveNotification_def Let_def split: option.split)

lemma stage_deliver [simp]: "stage (deliver m c h) = stage h"
  by (simp add: deliver_def enqueue_accepts Let_def split: option.split)

lemma stage_deliver_all [simp]: "stage (fold (deliver m) order h) = stage h"
  by (induction order arbitrary: h) simp_all

lemma stage_run_broadcast: "run_broadcast order h = Some h' \<Longrightarrow> stage h' = stage h"
  by (auto simp: run_broadcast_def split: list.splits)

lemma stage_read: "readMessages_body R X now c C msg h = (out, h') \<Longrightarrow> stage h' = stage h"
  by (erule readMessages_body_cases) (simp_all add: auditRejectedMessage_def)

lemma stage_history_push [simp]: "stage (history_push c m ms C h) = stage h"
  by (simp add: history_push_def case_prod_beta Let_def)

lemma stage_remote [simp]: "stage (handleRemoteEvent pick e h) = stage h"
  by (simp add: handleRemoteEvent_def rememberBrokerEvent_def Let_def)

lemma stage_drain_begin: "drain_begin order h = (cs, h') \<Longrightarrow> stage h' = stage h"
  by (auto simp: drain_begin_def Let_def)

lemma stage_brokerDone: "brokerDone h = Some h' \<Longrightarrow> stage h' = stage h"
  by (auto simp: brokerDone_def split: if_splits)

lemma stage_stopLeave:
  "stopLeave_begin h = (w, h') \<Longrightarrow> stage h' = stage h" "stopLeave_end h = (err, h') \<Longrightarrow> stage h' = stage h"
  by (auto simp: stopLeave_begin_def stopLeave_end_def split: if_splits)

lemmas stage_ops = stage_publish stage_register stage_save stage_leave_take stage_finished stage_run_broadcast stage_read
  stage_drain_begin stage_brokerDone stage_stopLeave

text \<open>
  Which stages a step connects: the hub is stopped before the leave notifications are, and when
  \<open>drain\<close> returns and the run loop has been started, the run loop has ended.
\<close>

fun stage_ok :: "drain_phase \<Rightarrow> bool \<Rightarrow> bool" where
  "stage_ok (DrainLeaves r f) stopped = stopped"
| "stage_ok (DrainLeaveWait r f) stopped = stopped"
| "stage_ok (DrainRunWait r f err) stopped = stopped"
| "stage_ok (DrainReturned err) stopped = stopped"
| "stage_ok _ stopped = True"

fun shutdown_answer :: "drain_phase \<Rightarrow> ctx_error option option" where
  "shutdown_answer (DrainReturned err) = Some err"
| "shutdown_answer _ = None"

lemma shutdown_answer_iff: "shutdown_answer d = Some err \<longleftrightarrow> d = DrainReturned err"
  by (cases d) auto

text \<open>Every step outside the shutdown and the start and the end of the run loop leaves the stage alone.\<close>

lemma step_stage:
  assumes "hub_step R X invar h h'"
  obtains (same) "stage h' = stage h"
  | (run_starts) "stage h' = (h_drain h, h_done h, True, h_runDone h)"
  | (run_stops) "stage h' = (h_drain h, h_done h, h_runStarted h, True)"
  | (moves) d b where "stage h' = (d, b, h_runStarted h, h_runDone h)" "shutdown_answer (h_drain h) = None"
      "stage_ok (h_drain h) (h_done h) \<Longrightarrow> stage_ok d b" "shutdown_answer d = None \<or> \<not> h_runStarted h \<or> h_runDone h"
  using assms
proof (cases rule: hub_step.cases)
  case RunStart
  then show ?thesis using run_starts by (simp add: stage_def)
next
  case RunStop
  then show ?thesis using run_stops by (simp add: stage_def)
next
  case (DrainBegin order cs h1)
  then show ?thesis using moves [of "DrainBroker cs" "h_done h"] stage_drain_begin [of order h] by (simp add: stage_def)
next
  case (DrainBrokerStopped cs)
  then show ?thesis using moves [of "DrainClosing cs cs" "h_done h"] by (simp add: stage_def count_def)
next
  case (DrainClose cs cs0 c ok)
  then show ?thesis using moves [of "DrainClosing (remove1 c cs) cs0" "h_done h"] by (simp add: stage_def upd_client_def)
next
  case (DrainClosed cs0)
  then show ?thesis using moves [of "DrainWaiting (set cs0) (length cs0)" "h_done h"] by (simp add: stage_def)
next
  case (DrainEvent P n c es)
  then show ?thesis using moves [of "h_drain h'" "h_done h"] by (simp add: stage_def)
next
  case (DrainDeadline P n err)
  then show ?thesis using moves [of "DrainLeft (Suc n) (Suc n)" "h_done h"] by (simp add: stage_def count_def)
next
  case (DrainDone P)
  then show ?thesis using moves [of "DrainLeft 0 0" "h_done h"] by (simp add: stage_def)
next
  case (Stop remaining forced)
  then show ?thesis using moves [of "DrainLeaves remaining forced" True] by (simp add: stage_def stop_def)
next
  case (StopLeaves remaining forced waits h1)
  then show ?thesis using moves [of "h_drain h'" "h_done h"] stage_stopLeave(1) [of h] by (simp add: stage_def)
next
  case (LeavesStopped remaining forced err h1)
  then show ?thesis using moves [of "h_drain h'" "h_done h"] stage_stopLeave(2) [of h] by (simp add: stage_def)
next
  case (DrainReturns remaining forced err)
  then show ?thesis using moves [of "h_drain h'" "h_done h"] by (auto simp: stage_def)
qed (rule same; auto dest: stage_ops split: if_splits)+

lemma stage_step:
  assumes "hub_step R X invar h h'" "stage_ok (h_drain h) (h_done h)"
  shows "stage_ok (h_drain h') (h_done h') \<and>
    (shutdown_answer (h_drain h) \<noteq> None \<longrightarrow> shutdown_answer (h_drain h') = shutdown_answer (h_drain h))"
  using assms(1) by (cases rule: step_stage) (use assms(2) in \<open>auto simp: stage_def\<close>)

text \<open>From a state in which the run loop has been started, \<open>drain\<close> returns only after the run loop has ended.\<close>

lemma started_run_ends:
  assumes "(hub_step R X invar)\<^sup>*\<^sup>* h h'" "h_runStarted h" "shutdown_answer (h_drain h) = None \<or> h_runDone h"
  shows "h_runStarted h' \<and> (shutdown_answer (h_drain h') = None \<or> h_runDone h')"
  using assms
proof (induction rule: rtranclp_induct)
  case (step g g')
  from step(2) show ?case
    by (cases rule: step_stage) (use step(3-5) in \<open>auto simp: stage_def\<close>)
qed simp

lemma stage_reachable: "hub_reachable R X invar h \<Longrightarrow> stage_ok (h_drain h) (h_done h)"
  by (induction rule: hub_reachable.induct) (auto simp: newHub_def dest: stage_step)

lemma returned_stays:
  assumes "(hub_step R X invar)\<^sup>*\<^sup>* h h'" "hub_reachable R X invar h" "h_drain h = DrainReturned err"
  shows "h_drain h' = DrainReturned err \<and> h_done h'"
proof -
  have "stage_ok (h_drain h') (h_done h') \<and> shutdown_answer (h_drain h') = Some err"
    using assms
  proof (induction rule: rtranclp_induct)
    case base
    then show ?case using stage_reachable by fastforce
  next
    case (step g g')
    then show ?case using stage_step [OF step(2)] by simp
  qed
  then show ?thesis by (auto simp: shutdown_answer_iff)
qed

section \<open>A shutdown ends\<close>

text \<open>\<open>drain\<close> can get from a state to its return.\<close>

definition can_return :: "'s Repository \<Rightarrow> 'l rate_lib \<Rightarrow> ('s \<Rightarrow> bool) \<Rightarrow> ('l, 's) Hub \<Rightarrow> bool" where
  "can_return R X invar h \<longleftrightarrow> (\<exists>h' err. (hub_step R X invar)\<^sup>*\<^sup>* h h' \<and> h_drain h' = DrainReturned err)"

lemma can_return_step: "hub_step R X invar h h' \<Longrightarrow> can_return R X invar h' \<Longrightarrow> can_return R X invar h"
  unfolding can_return_def by (meson converse_rtranclp_into_rtranclp)

lemma can_return_deadline:
  assumes "h_drain h \<noteq> DrainIdle" "h_drainCtxErr h = None"
    and "can_return R X invar (h\<lparr>h_drainCtxErr := Some DeadlineExceeded\<rparr>)"
  shows "can_return R X invar h"
  using can_return_step [OF DrainContext [OF assms(1,2)] assms(3)] .

lemma can_return_run_wait:
  assumes "h_drain h = DrainRunWait r f err" "h_done h"
  shows "can_return R X invar h"
proof -
  have ended: "can_return R X invar g" if "h_drain g = DrainRunWait r f err" "h_runStarted g \<longrightarrow> h_runDone g" for g
    by (rule can_return_step [OF DrainReturns [OF that]]) (auto simp: can_return_def)
  have idle: "can_return R X invar g" if "h_drain g = DrainRunWait r f err" "h_done g" "h_received g = None" for g
  proof (cases "h_runStarted g")
    case True
    show ?thesis by (rule can_return_step [OF RunStop [OF True that(2,3)]]) (rule ended, simp_all add: that(1))
  qed (simp add: ended that(1))
  show ?thesis
  proof (cases "h_received h")
    case (Some c)
    let ?g = "disconnectClientLocked c (h\<lparr>h_received := None\<rparr>)"
    have g: "h_drain ?g = h_drain h" "h_done ?g = h_done h"
      using stage_disconnect [of c "h\<lparr>h_received := None\<rparr>"] by (simp_all add: stage_def)
    have "h_received ?g = None"
      by (simp add: disconnectClientLocked_def queueLeaveNotification_def small_forms Let_def split: option.split)
    then show ?thesis using g assms by (intro can_return_step [OF RunDisconnect [OF Some]] idle) simp_all
  qed (rule idle [OF assms])
qed

lemma can_return_leave_wait:
  assumes "h_drain h = DrainLeaveWait r f" "h_done h"
  shows "can_return R X invar h"
proof -
  have ended: "can_return R X invar g" if "h_drain g = DrainLeaveWait r f" "h_done g" "h_drainCtxErr g \<noteq> None" for g
    by (rule can_return_step [OF LeavesStopped [OF that(1)]])
      (use that in \<open>auto simp: stopLeave_end_def intro!: can_return_run_wait\<close>)
  show ?thesis
  proof (cases "h_drainCtxErr h")
    case None
    show ?thesis by (rule can_return_deadline [OF _ None]) (use assms ended in simp_all)
  qed (use assms in \<open>simp add: ended\<close>)
qed

lemma can_return_leaves:
  assumes "h_drain h = DrainLeaves r f" "h_done h"
  shows "can_return R X invar h"
proof -
  obtain w g where w: "stopLeave_begin h = (w, g)" by fastforce
  have "h_done g" using stage_stopLeave(1) [OF w] assms(2) by (simp add: stage_def)
  then have "can_return R X invar (g\<lparr>h_drain := (if w then DrainLeaveWait r f else DrainRunWait r f None)\<rparr>)"
    using can_return_leave_wait [of "g\<lparr>h_drain := DrainLeaveWait r f\<rparr>" r f]
      can_return_run_wait [of "g\<lparr>h_drain := DrainRunWait r f None\<rparr>" r f None] by simp
  then show ?thesis using StopLeaves [OF assms(1) w] can_return_step by blast
qed

lemma can_return_left: "h_drain h = DrainLeft r f \<Longrightarrow> can_return R X invar h"
  by (erule can_return_step [OF Stop]) (rule can_return_leaves, simp_all add: stop_def)

lemma can_return_waiting:
  assumes "h_drain h = DrainWaiting P n"
  shows "can_return R X invar h"
proof (cases n)
  case 0
  then have "hub_step R X invar h (h\<lparr>h_drain := DrainLeft 0 0\<rparr>)" using assms DrainDone by simp
  then show ?thesis by (rule can_return_step) (rule can_return_left, simp)
next
  case (Suc k)
  have late: "can_return R X invar g" if "h_drain g = DrainWaiting P (Suc k)" "h_drainCtxErr g = Some err" for g err
    by (rule can_return_step [OF DrainDeadline [OF that]]) (rule can_return_left, simp add: count_def)
  show ?thesis
  proof (cases "h_drainCtxErr h")
    case None
    show ?thesis by (rule can_return_deadline [OF _ None]) (use assms Suc late in simp_all)
  qed (use assms Suc late in simp)
qed

lemma can_return_closing: "h_drain h = DrainClosing cs cs0 \<Longrightarrow> can_return R X invar h"
proof (induction cs arbitrary: h)
  case Nil
  then have "hub_step R X invar h (h\<lparr>h_drain := DrainWaiting (set cs0) (length cs0)\<rparr>)" by (rule DrainClosed)
  then show ?case by (rule can_return_step) (rule can_return_waiting, simp)
next
  case (Cons c cs)
  have "hub_step R X invar h (upd_client c (Client_closeForShutdown True) (h\<lparr>h_drain := DrainClosing cs cs0\<rparr>))"
    using DrainClose [OF Cons.prems, of c R X invar True] by simp
  then show ?case by (rule can_return_step) (rule Cons.IH, simp add: upd_client_def)
qed

lemma can_return_broker:
  assumes "h_drain h = DrainBroker cs"
  shows "can_return R X invar h"
proof -
  have ended: "can_return R X invar g" if "h_drain g = DrainBroker cs" "stopBroker_returns g" for g
    by (rule can_return_step [OF DrainBrokerStopped [OF that]]) (rule can_return_closing, simp add: count_def)
  show ?thesis
  proof (cases "h_drainCtxErr h")
    case None
    show ?thesis by (rule can_return_deadline [OF _ None]) (use assms in \<open>simp_all add: ended stopBroker_returns_def\<close>)
  qed (use assms in \<open>simp add: ended stopBroker_returns_def\<close>)
qed

lemma shutdown_can_return:
  assumes "stage_ok (h_drain h) (h_done h)" "h_drain h \<noteq> DrainIdle"
  shows "can_return R X invar h"
proof (cases "h_drain h")
  case (DrainReturned err)
  then show ?thesis unfolding can_return_def by blast
qed (use assms in \<open>auto intro: can_return_broker can_return_closing can_return_waiting can_return_left can_return_leaves
      can_return_leave_wait can_return_run_wait\<close>)

end
