(* ===== verification/Telemetry.thy ===== *)
theory Telemetry
  imports Startup Lifecycle
begin

text \<open>
  Tracing, \<open>internal/telemetry\<close> and its use on the HTTP and WebSocket path: the process-wide
  tracer and its replacement, starting a span, the outcome of \<open>Setup\<close> on that state, the middleware
  \<open>traceHTTP\<close>, and the life of the span of a WebSocket session, which \<open>serveWs\<close> either ends
  itself or hands over to the client. OpenTelemetry is a library: \<open>otel_lib\<close> holds what is used of
  it, and a span is the list of the calls made on it.
\<close>

section \<open>The tracer\<close>

definition instrumentationName :: string where
  "instrumentationName = ''github.com/AliSinaDevelo/Chatster''"

record ('p, 't, 'c) otel_lib =
  otel_Tracer :: "string \<Rightarrow> 't"
  provider_Tracer :: "'p \<Rightarrow> string \<Rightarrow> 't"
  noop_NewTracerProvider :: 'p
  tracer_Start :: "'t \<Rightarrow> 'c \<Rightarrow> string \<Rightarrow> (string \<times> string) list \<Rightarrow> 'c"
  ctx_Background :: 'c
  trace_Extract :: "Request \<Rightarrow> 'c"

text \<open>The calls on a span. Its attributes at the start are recorded the same way.\<close>

datatype span_call = SetAttribute string string | SetStatusError string | SpanEnd

type_synonym span = "span_call list"

text \<open>\<open>tracerState.tracer\<close>: \<open>None\<close> is nil, on which \<open>Start\<close> would panic.\<close>

definition telemetry_init :: "('p, 't, 'c) otel_lib \<Rightarrow> 't option" where
  "telemetry_init T = Some (otel_Tracer T instrumentationName)"

definition SetTracerProvider :: "('p, 't, 'c) otel_lib \<Rightarrow> 'p option \<Rightarrow> 't option \<Rightarrow> 't option" where
  "SetTracerProvider T provider tracer =
     (let provider = (case provider of None \<Rightarrow> noop_NewTracerProvider T | Some p \<Rightarrow> p)
      in Some (provider_Tracer T provider instrumentationName))"

definition telemetry_Start ::
  "('p, 't, 'c) otel_lib \<Rightarrow> 'c option \<Rightarrow> string \<Rightarrow> (string \<times> string) list \<Rightarrow> 't option \<Rightarrow> ('c \<times> span) option" where
  "telemetry_Start T ctx name attrs tracer =
     (let ctx = (case ctx of None \<Rightarrow> ctx_Background T | Some c \<Rightarrow> c)
      in map_option (\<lambda>t. (tracer_Start T t ctx name attrs, map (\<lambda>(k, v). SetAttribute k v) attrs)) tracer)"

definition MarkError :: "span option \<Rightarrow> span option" where
  "MarkError sp = map_option (\<lambda>sp. sp @ [SetStatusError ''operation failed'']) sp"

text \<open>\<open>Setup\<close> with its effect on the tracer; \<open>newProvider\<close> builds the provider for a service name.\<close>

definition Setup_tracer ::
  "('p, 't, 'c) otel_lib \<Rightarrow> (string \<Rightarrow> 'p) \<Rightarrow> environ \<Rightarrow> bool \<Rightarrow> bool \<Rightarrow> 't option \<Rightarrow>
     (telemetry_error, string option) result \<times> 't option" where
  "Setup_tracer T newProvider getenv exporterOK resourceOK tracer =
     (case Setup getenv exporterOK resourceOK of
        Inr (Some name) \<Rightarrow> (Inr (Some name), SetTracerProvider T (Some (newProvider name)) tracer)
      | r \<Rightarrow> (r, tracer))"

section \<open>HTTP requests\<close>

text \<open>\<open>template\<close> is the path template of the matched route, when there is one and it has one.\<close>

definition traceHTTP ::
  "('p, 't, 'c) otel_lib \<Rightarrow> 't option \<Rightarrow> (Request \<Rightarrow> string option) \<Rightarrow> ('c \<Rightarrow> Request \<Rightarrow> 'a) \<Rightarrow> Request \<Rightarrow> ('a \<times> span) option" where
  "traceHTTP T tracer template serveNext r =
     (let route = (case template r of Some t \<Rightarrow> if t \<noteq> [] then t else ''unmatched'' | None \<Rightarrow> ''unmatched'');
          parent = trace_Extract T r
      in case telemetry_Start T (Some parent) ''chatster.http.request''
                [(''http.request.method'', req_Method r), (''http.route'', route)] tracer of
           None \<Rightarrow> None
         | Some (ctx, sp) \<Rightarrow> Some (serveNext ctx r, sp @ [SpanEnd]))"

record upgrader =
  up_ReadBufferSize :: nat
  up_WriteBufferSize :: nat
  up_CheckOrigin :: "Request \<Rightarrow> bool"

definition newUpgrader :: upgrader where
  "newUpgrader = \<lparr>up_ReadBufferSize = 1024, up_WriteBufferSize = 1024, up_CheckOrigin = (\<lambda>r. True)\<rparr>"

section \<open>The span of a WebSocket session\<close>

definition ws_result :: "string \<Rightarrow> span_call" where
  "ws_result = SetAttribute ''chatster.websocket.result''"

text \<open>What the checks of \<open>serveWs\<close> write to the span, branch by branch.\<close>

definition serveWs_checks_span ::
  "'l rate_lib \<Rightarrow> Config \<Rightarrow> auth_lib \<Rightarrow> Service option \<Rightarrow> gotime \<Rightarrow> 'l WSUpgrade option \<Rightarrow> Request \<Rightarrow> ('l, 's) Hub \<Rightarrow> span" where
  "serveWs_checks_span X cfg L so now wsRL r h =
     (case NormalizeRoom (Values_Get (req_Query r) ''room'') of
        Inl _ \<Rightarrow> [ws_result ''invalid_room'']
      | Inr room \<Rightarrow>
        SetAttribute ''chatster.room'' room #
        (if h_draining h then [ws_result ''draining'']
         else if \<not> fst (allow_upgrade X now (clientIP r) wsRL) then [ws_result ''rate_limited'']
         else if \<not> OriginAllowed cfg r then [ws_result ''denied_origin'']
         else (case Service_Authorize L so now r room of
                 Inl err \<Rightarrow> [ws_result (if err = ErrRoomDenied then ''forbidden_room'' else ''authentication_required'')]
               | Inr _ \<Rightarrow> [])))"

text \<open>
  The span after \<open>serveWs\<close>, with the deferred \<open>End\<close>, and whether it was handed over to the
  client (\<open>traceTransferred\<close>); \<open>later\<close> is what becomes of the hub during the handshake.
\<close>

definition serveWs_span ::
  "'l rate_lib \<Rightarrow> Config \<Rightarrow> auth_lib \<Rightarrow> Service option \<Rightarrow> gotime \<Rightarrow> (writer \<Rightarrow> Request \<Rightarrow> (writer, Conn) result) \<Rightarrow>
     (('l, 's) Hub \<Rightarrow> ('l, 's) Hub) \<Rightarrow> nat \<Rightarrow> 'l WSUpgrade option \<Rightarrow> writer \<Rightarrow> Request \<Rightarrow> ('l, 's) Hub \<Rightarrow> span \<times> bool" where
  "serveWs_span X cfg L so now up later c wsRL w r h =
     (let sp = serveWs_checks_span X cfg L so now wsRL r h in
      case serveWs_checks X cfg L so now wsRL w r h of
        (Inl _, _, _) \<Rightarrow> (sp @ [SpanEnd], False)
      | (Inr (room, who), _, h') \<Rightarrow>
        (case up w r of
           Inl _ \<Rightarrow> (the (MarkError (Some sp)) @ [ws_result ''upgrade_error'', SpanEnd], False)
         | Inr conn \<Rightarrow>
           let sp = sp @ [ws_result ''accepted''] in
           if \<not> fst (register_locked c (later (ws_upgrade ''ok'' h'))) then (sp @ [ws_result ''draining'', SpanEnd], False)
           else (sp, True)))"

text \<open>The client's reference to its span, and the spans by reference.\<close>

definition Client_finishTrace :: "nat option \<Rightarrow> (nat \<Rightarrow> span) \<Rightarrow> nat option \<times> (nat \<Rightarrow> span)" where
  "Client_finishTrace traceSpan spans =
     (case traceSpan of
        None \<Rightarrow> (None, spans)
      | Some a \<Rightarrow> (None, spans(a := spans a @ [SetAttribute ''chatster.websocket.lifecycle'' ''closed'', SpanEnd])))"

text \<open>
  The deferred function of \<open>readMessages\<close>: it counts the client out, unregisters it, reports its
  end, closes its socket and ends its span. \<open>None\<close>: it waits in \<open>unregisterClient\<close>.
\<close>

definition readMessages_deferred ::
  "bool \<Rightarrow> nat \<Rightarrow> nat option \<Rightarrow> (nat \<Rightarrow> span) \<Rightarrow> ('l, 's) Hub \<Rightarrow> (nat option \<times> (nat \<Rightarrow> span) \<times> ('l, 's) Hub) option" where
  "readMessages_deferred pick c traceSpan spans h =
     (let h = count (ConnectedClients_update (\<lambda>n. n - 1)) h in
      case unregisterClient pick c h of
        None \<Rightarrow> None
      | Some h \<Rightarrow>
        (case notifyClientFinished c h of
           None \<Rightarrow> None
         | Some h \<Rightarrow>
           let h = upd_client c Client_close h; (traceSpan, spans) = Client_finishTrace traceSpan spans
           in Some (traceSpan, spans, h)))"

definition Client_traceContext :: "('p, 't, 'c) otel_lib \<Rightarrow> 'c option \<Rightarrow> 'c" where
  "Client_traceContext T traceCtx = (case traceCtx of None \<Rightarrow> ctx_Background T | Some c \<Rightarrow> c)"

section \<open>Lemmas\<close>

text \<open>From \<open>init\<close> on there is a tracer, whatever is installed, so a span can always be started.\<close>

lemma tracer_present:
  "telemetry_init T \<noteq> None" "SetTracerProvider T p tracer \<noteq> None"
  "tracer \<noteq> None \<Longrightarrow> snd (Setup_tracer T np getenv e r tracer) \<noteq> None"
  by (auto simp: telemetry_init_def SetTracerProvider_def Setup_tracer_def split: sum.split option.split)

lemma Start_never_panics: "tracer \<noteq> None \<Longrightarrow> telemetry_Start T ctx name attrs tracer \<noteq> None"
  by (simp add: telemetry_Start_def Let_def)

lemma Setup_tracer_off:
  assumes "Setup_tracer T np getenv e r tracer = (res, tracer')" "tracer' \<noteq> tracer"
  shows "tracingConfigured getenv = Inr True \<and> e \<and> r"
  using assms by (auto simp: Setup_tracer_def Setup_def Let_def split: sum.splits option.splits bool.splits if_splits)

text \<open>The middleware changes neither the request nor the answer, and its span is ended once.\<close>

lemma traceHTTP_transparent:
  assumes "tracer \<noteq> None"
  obtains ctx sp where "traceHTTP T tracer template serveNext r = Some (serveNext ctx r, sp @ [SpanEnd])" "SpanEnd \<notin> set sp"
  using assms that by (auto simp: traceHTTP_def telemetry_Start_def Let_def)

text \<open>The span of a session ends once, and carries a room name and fixed words only.\<close>

definition ws_results :: "string set" where
  "ws_results = {''invalid_room'', ''draining'', ''rate_limited'', ''denied_origin'', ''forbidden_room'',
     ''authentication_required'', ''upgrade_error'', ''accepted''}"

fun call_bounded :: "span_call \<Rightarrow> bool" where
  "call_bounded (SetAttribute k v) \<longleftrightarrow>
     k = ''chatster.room'' \<and> canonical_room v \<or> k = ''chatster.websocket.result'' \<and> v \<in> ws_results \<or>
     k = ''chatster.websocket.lifecycle'' \<and> v = ''closed''"
| "call_bounded (SetStatusError s) \<longleftrightarrow> s = ''operation failed''"
| "call_bounded SpanEnd \<longleftrightarrow> True"

text \<open>A span that has been ended, once and as the last call on it.\<close>

definition ended_once :: "span \<Rightarrow> bool" where
  "ended_once sp \<longleftrightarrow> count_list sp SpanEnd = 1 \<and> last sp = SpanEnd"

lemma ended_once_append [simp]: "SpanEnd \<notin> set sp \<Longrightarrow> ended_once (sp @ [SpanEnd])"
  by (simp add: ended_once_def)

lemma checks_span_bounded:
  "list_all call_bounded (serveWs_checks_span X cfg L so now wsRL r h)" "SpanEnd \<notin> set (serveWs_checks_span X cfg L so now wsRL r h)"
  by (auto simp: serveWs_checks_span_def ws_result_def ws_results_def list_all_iff split: sum.split
      dest: NormalizeRoom_canonical)

lemma serveWs_span_cases:
  assumes "serveWs_span X cfg L so now up later c wsRL w r h = (sp, transferred)"
  shows "list_all call_bounded sp \<and> (if transferred then SpanEnd \<notin> set sp else ended_once sp)"
proof -
  let ?sp = "serveWs_checks_span X cfg L so now wsRL r h"
  note ch = checks_span_bounded [of X cfg L so now wsRL r h]
  have more: "ended_once (?sp @ more @ [SpanEnd])" if "SpanEnd \<notin> set more" for more
    using ended_once_append [of "?sp @ more"] ch(2) that by simp
  show ?thesis
    using assms ch more [of "[]"] more [of "[SetStatusError ''operation failed'', ws_result ''upgrade_error'']"]
      more [of "[ws_result ''accepted'', ws_result ''draining'']"]
    by (auto simp: serveWs_span_def MarkError_def ws_result_def ws_results_def Let_def split: sum.splits prod.splits if_splits)
qed

lemma finishTrace_ends:
  assumes "list_all call_bounded (spans a)" "SpanEnd \<notin> set (spans a)" "Client_finishTrace (Some a) spans = (p, spans')"
  shows "p = None \<and> list_all call_bounded (spans' a) \<and> ended_once (spans' a)"
  using assms ended_once_append [of "spans a @ [SetAttribute ''chatster.websocket.lifecycle'' ''closed'']"]
  by (auto simp: Client_finishTrace_def)

text \<open>The deferred function as a run of the hub's machine, from the end of the read loop to the end of the client.\<close>

lemma notifyClientFinished_phase:
  "notifyClientFinished c h = Some h' \<Longrightarrow> notifyClientFinished c (h\<lparr>h_phase := p\<rparr>) = Some (h'\<lparr>h_phase := p\<rparr>)"
  by (auto simp: notifyClientFinished_def Let_def count_def split: option.splits if_splits)

lemma unregisterClient_phase:
  "unregisterClient pick c h = Some h' \<Longrightarrow> unregisterClient pick c (h\<lparr>h_phase := p\<rparr>) = Some (h'\<lparr>h_phase := p\<rparr>) \<and> h_phase h' = h_phase h"
  by (auto simp: unregisterClient_def split: if_splits)

lemma notifyClientFinished_same_phase: "notifyClientFinished c h = Some h' \<Longrightarrow> h_phase h' = h_phase h"
  by (auto simp: notifyClientFinished_def Let_def count_def split: option.splits if_splits)

lemma readMessages_deferred_run:
  assumes "h_phase h c = Some Leaving" "readMessages_deferred pick c traceSpan spans h = Some (traceSpan', spans', h')"
  shows "(hub_step R X invar)\<^sup>*\<^sup>* h (set_phase c Ended h')"
proof -
  let ?d = "count (ConnectedClients_update (\<lambda>n. n - 1)) h" and ?S = "hub_step R X invar"
  obtain h1 h2 where u: "unregisterClient pick c ?d = Some h1" and n: "notifyClientFinished c h1 = Some h2"
    and h': "h' = upd_client c Client_close h2"
    using assms(2) by (auto simp: readMessages_deferred_def Let_def split: option.splits prod.splits)
  have p: "h_phase h1 = h_phase h" "h_phase h2 = h_phase h"
    using unregisterClient_phase [OF u] notifyClientFinished_same_phase [OF n] by (simp_all add: count_def)
  have 1: "?S h (set_phase c Unregistering ?d)" by (rule Disconnected [OF assms(1)])
  have 2: "?S (set_phase c Unregistering ?d) (set_phase c Unregistered h1)"
    using unregisterClient_step [of "set_phase c Unregistering ?d" c pick _ R X invar] unregisterClient_phase [OF u] p
    by (simp add: set_phase_def count_def)
  have "notifyClientFinished c (set_phase c Unregistered h1) = Some (set_phase c Unregistered h2)"
    using notifyClientFinished_phase [OF n] p by (simp add: set_phase_def)
  from Finish [OF _ this, where R = R and X = X and invar = invar]
  have 3: "?S (set_phase c Unregistered h1) (set_phase c Ended h')" by (simp add: set_phase_def upd_client_def h')
  show ?thesis using 1 2 3 by (meson r_into_rtranclp rtranclp_trans)
qed

lemma readMessages_deferred_trace:
  "readMessages_deferred pick c traceSpan spans h = Some (ref, spans', h') \<Longrightarrow> Client_finishTrace traceSpan spans = (ref, spans')"
  by (auto simp: readMessages_deferred_def Let_def case_prod_beta split: option.splits)

text \<open>The deferred function waits only for the run loop to take the client.\<close>

lemma readMessages_deferred_waits:
  assumes "drain_ok h"
  shows "readMessages_deferred pick c traceSpan spans h = None \<longleftrightarrow>
    \<not> h_done h \<and> (\<not> h_runStarted h \<or> h_runDone h \<or> h_received h \<noteq> None)"
proof -
  let ?d = "count (ConnectedClients_update (\<lambda>n. n - 1)) h"
  have "\<exists>h2. notifyClientFinished c h1 = Some h2" if "unregisterClient pick c ?d = Some h1" for h1
  proof -
    have "drain_ok h1" using that assms by (auto simp: unregisterClient_def count_def split: if_splits)
    then show ?thesis by (rule notifyClientFinished_total)
  qed
  then have "readMessages_deferred pick c traceSpan spans h = None \<longleftrightarrow> unregisterClient pick c ?d = None"
    by (fastforce simp: readMessages_deferred_def Let_def case_prod_beta split: option.splits)
  then show ?thesis by (simp add: unregisterClient_waits count_def)
qed

lemma finishTrace_twice:
  "Client_finishTrace p spans = (p', spans') \<Longrightarrow> Client_finishTrace p' spans' = (p', spans')"
  by (auto simp: Client_finishTrace_def split: option.splits)

text \<open>A refusal is written to the span with the label it is counted under.\<close>

lemma span_agrees_with_counter:
  assumes "serveWs_checks X cfg L so now wsRL w r h = (Inl w', wsRL', h')" "h' \<noteq> h"
  obtains label where "h' = ws_upgrade label h" "ws_result label \<in> set (serveWs_checks_span X cfg L so now wsRL r h)"
  using assms by (auto simp: serveWs_checks_def serveWs_checks_span_def Let_def split: sum.splits if_splits prod.splits)

end
