(* ===== verification/Service.thy ===== *)
theory Service
  imports Telemetry Lifecycle
begin

text \<open>
  How the process ends: \<open>main\<close> from the listener on, its exit code, and the deferred calls that
  run before it leaves. \<open>os.Exit\<close> ends the process without running them.
\<close>

datatype listen_result = ServerClosed | ListenError

text \<open>The deferred calls of \<open>main\<close>, in the order they run in: the last one deferred comes first.\<close>

datatype deferred = CloseFanout | CloseRepository | FlushTelemetry

definition main_deferred :: "('l, 's) running \<Rightarrow> deferred list" where
  "main_deferred run = (if rn_fanout run \<noteq> None then [CloseFanout] else []) @ [CloseRepository, FlushTelemetry]"

text \<open>
  The end of the process, if it has come: what the listening goroutine got from \<open>ListenAndServe\<close>,
  if it has returned, and what the two shutdowns answered, if a signal came and both returned.
\<close>

definition main_end ::
  "listen_result option \<Rightarrow> ('e option \<times> 'e option) option \<Rightarrow> ('l, 's) running \<Rightarrow> (nat \<times> deferred list) option" where
  "main_end listened stopped run =
     (if listened = Some ListenError then Some (1, [])
      else case stopped of
             None \<Rightarrow> None
           | Some (hubErr, serverErr) \<Rightarrow>
             if shutdownServer hubErr serverErr \<noteq> None then Some (1, []) else Some (0, main_deferred run))"

definition main_exit ::
  "(start_error, ('l, 's) running) result \<Rightarrow> listen_result option \<Rightarrow> ('e option \<times> 'e option) option \<Rightarrow>
     (nat \<times> deferred list) option" where
  "main_exit started listened stopped =
     (case started of Inl _ \<Rightarrow> Some (1, []) | Inr run \<Rightarrow> main_end listened stopped run)"

section \<open>Lemmas\<close>

lemma main_end_cases:
  assumes "main_end listened stopped run = Some (code, calls)"
  shows "(code = 0 \<and> stopped = Some (None, None) \<and> calls = main_deferred run) \<or> (code = 1 \<and> calls = [])"
  using assms by (auto simp: main_end_def shutdownServer_def split: if_splits option.splits prod.splits)

lemma main_end_deadline:
  "listened \<noteq> Some ListenError \<Longrightarrow> main_end listened (Some (Some err, serverErr)) run = Some (1, [])"
  by (simp add: main_end_def shutdownServer_def)

text \<open>What is true of a hub whose \<open>Shutdown\<close> has answered.\<close>

context hub_storage
begin

lemma shutdown_answered:
  assumes "hub_reachable R X invar h" "Shutdown order h = (Some err, h1)" "(hub_step R X invar)\<^sup>*\<^sup>* h h'"
  shows "h1 = h" "Shutdown order' h' = (Some err, h')" "h_done h' \<and> h_clients h' = {}"
    "err = None \<Longrightarrow> h_drainPending h' = {}"
proof -
  have d: "h_drain h = DrainReturned err" "h1 = h"
    using assms(2) by (auto simp: Shutdown_def split: drain_phase.splits prod.splits)
  note r = returned_stays [OF assms(3,1) d(1)] and h' = reachable_run [OF assms(3,1)]
  show "h1 = h" by (rule d(2))
  show "Shutdown order' h' = (Some err, h')" using r by (simp add: Shutdown_def)
  have "h_draining h'" using draining_iff [OF hub_inv_reachable [OF h']] r by simp
  then show "h_done h' \<and> h_clients h' = {}"
    using r hub_invD(12) [OF hub_inv_reachable [OF h']] by (simp add: drain_ok_def)
  show "err = None \<Longrightarrow> h_drainPending h' = {}"
    using r hub_invD(12) [OF hub_inv_reachable [OF h']] \<open>h_draining h'\<close> by (auto simp: drain_ok_def)
qed

text \<open>When the run loop was started before \<open>Shutdown\<close> answered, the answer came after the run loop had ended.\<close>

lemma shutdown_awaits_run:
  assumes "(hub_step R X invar)\<^sup>*\<^sup>* h0 h" "fst (Shutdown order h0) = None" "h_runStarted h0"
    and "Shutdown order' h = (Some err, h1)"
  shows "h_runDone h"
proof -
  have "shutdown_answer (h_drain h0) = None" using assms(2) by (auto simp: Shutdown_def split: drain_phase.splits prod.splits)
  moreover have "shutdown_answer (h_drain h) \<noteq> None"
    using assms(4) by (auto simp: Shutdown_def split: drain_phase.splits prod.splits)
  ultimately show ?thesis using started_run_ends [OF assms(1,3)] by auto
qed

lemma shutdown_reachable_returns:
  assumes "hub_reachable R X invar h" "h_drain h \<noteq> DrainIdle"
  shows "\<exists>h' err. (hub_step R X invar)\<^sup>*\<^sup>* h h' \<and> Shutdown order h' = (Some err, h')"
proof -
  obtain h' err where "(hub_step R X invar)\<^sup>*\<^sup>* h h'" "h_drain h' = DrainReturned err"
    using shutdown_can_return [OF stage_reachable [OF assms(1)] assms(2)] unfolding can_return_def by blast
  then show ?thesis by (auto simp: Shutdown_def)
qed

end

end
