(* ===== verification/ClusterInstances.thy ===== *)
theory ClusterInstances
  imports StartInstances Cluster Service
begin

text \<open>
  A concrete run of two instances over one Postgres database: a client joins on the first one, its
  join notification is saved, published and queued, the publisher sends the event, and the second
  instance receives it.
\<close>

definition sample_instances :: "nat \<Rightarrow> RedisFanout" where
  "sample_instances i = (if i = 0 then sample_fanout else sample_peer)"

definition sample_shared :: PostgresDB where
  "sample_shared = sample_pg\<lparr>pg_messages := [], pg_seq := 4, pg_skip := 0, pg_now := 9\<rparr>"

lemma sample_shared_inv: "pg_inv sample_pg_env sample_shared"
  by (simp add: sample_shared_def pg_inv_def pg_env_ok_def sample_pg_env_def sample_pg_def utc_def IsZero_def db_range_def
      second_def)

lemma sample_json: "json_keeps_origin sample_broker_lib"
  by (auto simp: json_keeps_origin_def sample_broker_lib_def split: if_splits)

section \<open>Runs of one instance\<close>

definition own_hub_step :: "'s Repository \<Rightarrow> 'l rate_lib \<Rightarrow> ('s \<Rightarrow> bool) \<Rightarrow> ('l, 's) Hub \<Rightarrow> ('l, 's) Hub \<Rightarrow> bool" where
  "own_hub_step R X invar h h' \<longleftrightarrow> hub_step R X invar h h' \<and> h_seenEventIDs h' = h_seenEventIDs h"

lemma own_run:
  assumes "(own_hub_step R X invar)\<^sup>*\<^sup>* (cl_hub s i) h'" "cluster_reachable R X invar L B s"
    and "h_database (cl_hub s i) = cl_store s"
  shows "\<exists>s'. cluster_reachable R X invar L B s' \<and> cl_hub s' = (cl_hub s)(i := h') \<and> cl_store s' = h_database h' \<and>
    cl_wire s' = cl_wire s \<and> cl_got s' = cl_got s"
  using assms
proof (induction rule: rtranclp_induct)
  case base
  then show ?case by (intro exI [of _ s]) simp
next
  case (step h h')
  then obtain t where t: "cluster_reachable R X invar L B t" "cl_hub t = (cl_hub s)(i := h)" "cl_store t = h_database h"
    "cl_wire t = cl_wire s" "cl_got t = cl_got s" by blast
  have "(cl_hub t i)\<lparr>h_database := cl_store t\<rparr> = h" using t(2,3) by simp
  then have "cluster_step R X invar L B t (own_step i h' t)"
    using step(2) t(2) by (intro Own) (simp_all add: own_hub_step_def)
  then have "cluster_reachable R X invar L B (own_step i h' t)" by (rule ClusterStep [OF t(1)])
  then show ?case using t by (intro exI [of _ "own_step i h' t"]) (simp add: own_step_def)
qed

text \<open>The join of the sample client, by the goroutine that serves it.\<close>

lemma sample_join:
  "\<exists>h'. (own_hub_step (postgres_repository sample_pg_env) sample_rate (pg_inv sample_pg_env))\<^sup>*\<^sup>*
      (newHub sample_shared (Some ''node-a'')) h' \<and> h_brokerPublish h' = Some [sample_queued] \<and> \<not> h_brokerCancelled h'"
proof -
  let ?R = "postgres_repository sample_pg_env" and ?I = "pg_inv sample_pg_env"
  let ?S = "own_hub_step ?R sample_rate ?I"
  let ?h0 = "newHub sample_shared (Some ''node-a'') :: (unit, PostgresDB) Hub"
  let ?h1 = "startBroker ?h0"
  have f1: "h_heap ?h1 7 = None" "\<not> h_draining ?h1" "h_database ?h1 = sample_shared" "h_broadcast ?h1 = []" "\<not> h_done ?h1"
      "h_brokerPublish ?h1 = Some []" "h_fanout ?h1" "h_instanceID ?h1 = ''node-a''" "\<not> h_brokerCancelled ?h1"
    by (simp_all add: startBroker_def newHub_def)
  let ?r = "?h1\<lparr>h_heap := (h_heap ?h1)(7 \<mapsto> sample_client), h_clients := insert 7 (h_clients ?h1)\<rparr>"
  let ?h2 = "set_phase 7 Joining (?r\<lparr>h_history := (h_history ?r)(7 \<mapsto> Fetching)\<rparr>)"
  let ?db = "snd (PostgresDB_SaveMessageForUserInRoomContext sample_pg_env sample_shared ''lobby'' [] ''System''
      ''Ada joined the chat'' ''notification'')"
  let ?h3 = "set_phase 7 (JoinPublish sample_saved) (?h2\<lparr>h_database := ?db\<rparr>)"
  let ?q = "queueBrokerMessage ''event_1'' sample_saved (?h3\<lparr>h_broadcast := [sample_saved]\<rparr>)"
  let ?h4 = "set_phase 7 Joined ?q"
  have s1: "?S ?h0 ?h1" unfolding own_hub_step_def by (intro conjI StartBroker) (simp_all add: newHub_def startBroker_def)
  have s2: "?S ?h1 ?h2" unfolding own_hub_step_def
    using f1(2) by (intro conjI Registered [OF f1(1) sample_client_fresh]) (simp_all add: register_locked_def set_phase_def)
  have "save_notification ?R (join_notification sample_client) ?h2 = (sample_saved, ?h2\<lparr>h_database := ?db\<rparr>)"
    using f1(3)
    by (simp add: save_notification_def saveMessageObservedInRoomContext_def saveMessageObservedForUserInRoomContext_def
        postgres_repository_def PostgresDB_SaveMessageForUserInRoomContext_def NormalizeRoom_canonical_id join_notification_def
        system_notification_def sample_client_def Client_room_def Client_username_def sample_shared_def sample_pg_def
        stamp_saved_def sample_saved_def sample_pg_env_def utc_def time_UTC_def set_phase_def Let_def)
  then have s3: "?S ?h2 ?h3" unfolding own_hub_step_def
    by (intro conjI JoinSaved [where c = 7]) (simp_all add: set_phase_def)
  have "publishContext True ''event_1'' sample_saved ?h3 = Some (True, ?q)"
    using f1(4,5) by (simp add: publishContext_def broadcastQueueSize_def set_phase_def)
  moreover have q: "?q = ?h3\<lparr>h_broadcast := [sample_saved], h_brokerPublish := Some [sample_queued]\<rparr>"
    using f1(6-8) sample_queued_New
    by (simp add: queueBrokerMessage_def brokerQueueSize_def outboundQueueSize_def set_phase_def)
      (simp add: sample_saved_def utc_def IsZero_def)
  ultimately have s4: "?S ?h3 ?h4" unfolding own_hub_step_def
    by (intro conjI JoinPublished [where c = 7]) (simp_all add: set_phase_def count_def)
  have "?S\<^sup>*\<^sup>* ?h0 ?h4" using s1 s2 s3 s4 by (meson converse_rtranclp_into_rtranclp rtranclp.rtrancl_refl)
  moreover have "h_brokerPublish ?h4 = Some [sample_queued]" "\<not> h_brokerCancelled ?h4"
    using f1(9) unfolding q by (simp_all add: set_phase_def count_def)
  ultimately show ?thesis by blast
qed

section \<open>The other instance hears of it\<close>

lemma sample_cluster:
  "\<exists>s. cluster_reachable (postgres_repository sample_pg_env) sample_rate (pg_inv sample_pg_env) sample_broker_lib sample_instances s \<and>
     cl_got s 1 = [sample_queued] \<and> h_broadcast (cl_hub s 1) = [message_of_event sample_queued]"
proof -
  let ?C = "cluster_reachable (postgres_repository sample_pg_env) sample_rate (pg_inv sample_pg_env) sample_broker_lib sample_instances"
  let ?n = "new_cluster sample_instances sample_shared :: (unit, PostgresDB) Cluster"
  let ?ch = "channel_prefix ''node-a'' @ ''lobby''"
  have n: "?C ?n" by (rule NewCluster) (rule sample_shared_inv)
  have z: "cl_hub ?n 0 = newHub sample_shared (Some ''node-a'')" "h_database (cl_hub ?n 0) = cl_store ?n"
    "cl_wire ?n = []" "cl_got ?n = (\<lambda>_. [])"
    by (simp_all add: new_cluster_def newHub_def sample_instances_def sample_fanout_def)
  obtain h where h: "(own_hub_step (postgres_repository sample_pg_env) sample_rate (pg_inv sample_pg_env))\<^sup>*\<^sup>* (cl_hub ?n 0) h"
    "h_brokerPublish h = Some [sample_queued]" "\<not> h_brokerCancelled h" using sample_join unfolding z(1) by blast
  obtain s where s: "?C s" "cl_hub s = (cl_hub ?n)(0 := h)" "cl_wire s = []" "cl_got s = (\<lambda>_. [])"
    using own_run [OF h(1) n z(2)] unfolding z(3,4) by blast
  have c: "Channel ''node-a'' ''lobby'' = Inr ?ch"
    using sample_token by (simp add: Channel_def NormalizeRoom_canonical_id)
  have room: "env_Room sample_queued = ''lobby''" "env_OriginInstance sample_queued = ''node-a''" by (simp_all add: sample_queued_def)
  have v: "Validate sample_queued = None" using sample_queued_ok by (simp add: Validate_ok_iff)
  have "\<exists>M' h'. runBrokerPublisher sample_broker_lib True True (sample_instances 0) sample_redis_metrics (cl_hub s 0) =
      Some (Inr (?ch, ''{}''), M', h')"
    using h(2,3) s(2) c room v
    by (simp add: runBrokerPublisher_def Publish_def sample_instances_def sample_fanout_def sample_broker_lib_def)
  then obtain M' h' where p: "runBrokerPublisher sample_broker_lib True True (sample_instances 0) sample_redis_metrics (cl_hub s 0) =
      Some (Inr (?ch, ''{}''), M', h')" by blast
  let ?t = "s\<lparr>cl_hub := (cl_hub s)(0 := h'), cl_wire := [(?ch, ''{}'')]\<rparr>"
  have t: "?C ?t" using ClusterStep [OF s(1) Sent [where B = sample_instances and i = 0, OF p]] s(3) by simp
  have d: "decode_event sample_broker_lib (sample_instances 1) ?ch ''{}'' = Some sample_queued"
    using c room v by (simp add: decode_event_def sample_instances_def sample_peer_def sample_fanout_def sample_broker_lib_def)
  have "cl_hub ?t 1 = newHub sample_shared (Some ''node-b'')"
    using s(2) by (simp add: new_cluster_def sample_instances_def sample_peer_def)
  moreover have "lets_through (newHub sample_shared (Some ''node-b'')) sample_queued"
    using room by (simp add: lets_through_def newHub_def)
  moreover have "h_broadcast (handleRemoteEvent True sample_queued (newHub sample_shared (Some ''node-b''))) =
      [message_of_event sample_queued]"
    using room by (simp add: handleRemoteEvent_def rememberBrokerEvent_def newHub_def maxSeenBrokerEvents_def broadcastQueueSize_def)
  ultimately show ?thesis
    using ClusterStep [OF t Received [where B = sample_instances and i = 1 and s = ?t and pick = True, OF _ d]] s(4) by (fastforce simp del: One_nat_def)
qed

section \<open>A session and its span\<close>

lemma sample_handed_over:
  "\<exists>sp. serveWs_span sample_rate sample_config sample_auth_lib None sample_now sample_up (\<lambda>h. h) 7 None new_writer ws_request
     (start_hub sample_pg) = (sp, True)"
  using sample_checks [of sample_pg]
  by (simp add: serveWs_span_def sample_up_def register_locked_def start_hub_def newHub_def Let_def)

lemma sample_clean_up:
  "\<exists>ref spans' h'. readMessages_deferred True 7 (Some 0) spans (waiting_hub sample_db) = Some (ref, spans', h')"
proof -
  have "drain_ok (waiting_hub sample_db)"
    using hub_invD(12) [OF sqlite_hub.hub_inv_reachable [OF waiting_reachable [where invar = "sqlite_inv sample_sqlite_env"
          and X = sample_rate and R = "sqlite_repository sample_sqlite_env", OF sample_db_inv]]] .
  from readMessages_deferred_waits [OF this, of True 7 "Some 0" spans] have
    "readMessages_deferred True 7 (Some 0) spans (waiting_hub sample_db) \<noteq> None"
    using waiting_facts [of sample_db] by (simp add: waiting_hub_def drain_begin_def Let_def start_hub_def newHub_def count_def)
  then show ?thesis by auto
qed

end
