(* ===== verification/HubGauge.thy ===== *)
theory HubGauge
  imports HubStorage
begin

text \<open>
  The gauge \<open>ConnectedClients\<close>: it is incremented after a registration and decremented in the
  deferred clean-up of the read loop, before the client is unregistered, by different goroutines. In
  every reachable state it is the number of the connections that have been counted in and whose
  clean-up has not yet counted them out.
\<close>

fun served :: "phase option \<Rightarrow> bool" where
  "served (Some Reading) = True"
| "served (Some (ReadPublish m)) = True"
| "served (Some Leaving) = True"
| "served _ = False"

lemma served_iff: "served p \<longleftrightarrow> (\<exists>m. p \<in> {Some Reading, Some (ReadPublish m), Some Leaving})"
  by (cases p rule: served.cases) auto

definition serving :: "('l, 's) Hub \<Rightarrow> nat set" where
  "serving h = {c. served (h_phase h c)}"

definition gauge :: "('l, 's) Hub \<Rightarrow> (nat \<rightharpoonup> phase) \<times> int" where
  "gauge h = (h_phase h, ConnectedClients (h_metrics h))"

lemma gauge_frame [simp, frame_simps]:
  "gauge (upd_client c g h) = gauge h" "gauge (h\<lparr>h_broadcast := v0\<rparr>) = gauge h"
  "gauge (h\<lparr>h_leavePending := v1\<rparr>) = gauge h" "gauge (h\<lparr>h_database := v2\<rparr>) = gauge h"
  "gauge (h\<lparr>h_heap := v3\<rparr>) = gauge h" "gauge (h\<lparr>h_history := v4\<rparr>) = gauge h"
  "gauge (h\<lparr>h_received := v5\<rparr>) = gauge h" "gauge (h\<lparr>h_runDone := v6\<rparr>) = gauge h"
  "gauge (h\<lparr>h_drain := v7\<rparr>) = gauge h" "gauge (h\<lparr>h_leaveDone := v8\<rparr>) = gauge h"
  "gauge (h\<lparr>h_drainCtxErr := v9\<rparr>) = gauge h" "gauge (h\<lparr>h_drainEvents := v10\<rparr>) = gauge h"
  "gauge (h\<lparr>h_done := v11\<rparr>) = gauge h" "gauge (h\<lparr>h_leaveStop := v12\<rparr>) = gauge h"
  "gauge (h\<lparr>h_leaveCancelled := v13\<rparr>) = gauge h" "gauge (h\<lparr>h_leaveQueue := v14\<rparr>) = gauge h"
  "gauge (h\<lparr>h_leaveStarted := v15\<rparr>) = gauge h" "gauge (h\<lparr>h_clients := v16\<rparr>) = gauge h"
  "gauge (h\<lparr>h_finished := v17\<rparr>) = gauge h" "gauge (h\<lparr>h_brokerPublish := v18\<rparr>) = gauge h"
  "gauge (h\<lparr>h_draining := v19\<rparr>) = gauge h" "gauge (h\<lparr>h_drainCap := v20\<rparr>) = gauge h"
  "gauge (h\<lparr>h_drainPending := v21\<rparr>) = gauge h" "gauge (h\<lparr>h_brokerCancelled := v22\<rparr>) = gauge h"
  "gauge (h\<lparr>h_runStarted := v25\<rparr>) = gauge h" "gauge (h\<lparr>h_brokerWG := v26\<rparr>) = gauge h"
  "gauge (h\<lparr>h_seenEvents := v23\<rparr>) = gauge h" "gauge (h\<lparr>h_seenEventIDs := v24\<rparr>) = gauge h"
  by (simp_all add: gauge_def upd_client_def)

text \<open>Every other metric leaves the gauge alone.\<close>

lemma gauge_count [simp, frame_simps]:
  "gauge (count (WSDrainStarted_update f1) h) = gauge h" "gauge (count (WSDrainClientsRemaining_update f2) h) = gauge h"
  "gauge (count (WSDrainForcedCloses_update f3) h) = gauge h" "gauge (count (MessagesIngested_update f4) h) = gauge h"
  "gauge (redis_drop l h) = gauge h" "gauge (outbound_drop l h) = gauge h" "gauge (reject l h) = gauge h"
  "gauge (ws_upgrade l h) = gauge h" "gauge (startBroker h) = gauge h" "gauge (stop h) = gauge h"
  by (simp_all add: gauge_def drop_forms count_def startBroker_def stop_def)

lemma gauge_phase: "gauge (set_phase c p h) = ((fst (gauge h))(c \<mapsto> p), snd (gauge h))"
  by (simp add: gauge_def set_phase_def)

lemma gauge_connected:
  "gauge (count (ConnectedClients_update f) h) = (fst (gauge h), f (snd (gauge h)))"
  by (simp add: gauge_def count_def)

lemma gauge_queueBroker [simp]: "gauge (queueBrokerMessage e m h) = gauge h"
  by (simp add: queueBrokerMessage_def split: option.split sum.split)

lemma gauge_publish: "publishContext pick e m h = Some (b, h') \<Longrightarrow> gauge h' = gauge h"
  by (auto simp: publishContext_def split: if_splits)

lemma gauge_register: "register_locked c h = (ok, h') \<Longrightarrow> gauge h' = gauge h"
  by (auto simp: register_locked_def split: if_splits)

lemma gauge_save: "save_notification R m h = (m', h') \<Longrightarrow> gauge h' = gauge h"
  by (auto simp: save_notification_def case_prod_beta Let_def)

lemma gauge_leave_take: "leave_take R h = Some h' \<Longrightarrow> gauge h' = gauge h"
  by (auto simp: leave_take_def case_prod_beta Let_def save_notification_def split: list.splits)

lemma gauge_finished: "notifyClientFinished c h = Some h' \<Longrightarrow> gauge h' = gauge h"
  by (auto simp: notifyClientFinished_def Let_def split: option.splits if_splits)

lemma gauge_disconnect [simp]: "gauge (disconnectClientLocked c h) = gauge h"
  by (simp add: disconnectClientLocked_def queueLeaveNotification_def Let_def split: option.split)

lemma gauge_deliver [simp]: "gauge (deliver m c h) = gauge h"
  by (simp add: deliver_def enqueue_accepts Let_def split: option.split)

lemma gauge_deliver_all [simp]: "gauge (fold (deliver m) order h) = gauge h"
  by (induction order arbitrary: h) simp_all

lemma gauge_run_broadcast: "run_broadcast order h = Some h' \<Longrightarrow> gauge h' = gauge h"
  by (auto simp: run_broadcast_def split: list.splits)

lemma gauge_read: "readMessages_body R X now c C msg h = (out, h') \<Longrightarrow> gauge h' = gauge h"
  by (erule readMessages_body_cases) (simp_all add: auditRejectedMessage_def)

lemma gauge_history_push [simp]: "gauge (history_push c m ms C h) = gauge h"
  by (simp add: history_push_def case_prod_beta Let_def)

lemma gauge_remote [simp]: "gauge (handleRemoteEvent pick e h) = gauge h"
  by (simp add: handleRemoteEvent_def rememberBrokerEvent_def Let_def)

lemma gauge_drain_begin: "drain_begin order h = (cs, h') \<Longrightarrow> gauge h' = gauge h"
  by (auto simp: drain_begin_def Let_def)

lemma gauge_brokerDone: "brokerDone h = Some h' \<Longrightarrow> gauge h' = gauge h"
  by (auto simp: brokerDone_def split: if_splits)

lemma gauge_stopLeave:
  "stopLeave_begin h = (w, h') \<Longrightarrow> gauge h' = gauge h" "stopLeave_end h = (err, h') \<Longrightarrow> gauge h' = gauge h"
  by (auto simp: stopLeave_begin_def stopLeave_end_def split: if_splits)

lemmas gauge_ops = gauge_publish gauge_register gauge_save gauge_leave_take gauge_finished gauge_run_broadcast gauge_read
  gauge_drain_begin gauge_brokerDone gauge_stopLeave

text \<open>A step moves at most one connection on, and the gauge with it; a new one has an address of its own.\<close>

lemma step_gauge:
  assumes "hub_step R X invar h h'" "dom (h_phase h) \<subseteq> dom (h_heap h)"
  obtains (same) "gauge h' = gauge h"
  | (moves) c p where "h_phase h' = (h_phase h)(c \<mapsto> p)" "h_phase h c \<noteq> None \<or> h_heap h' c \<noteq> None"
      "ConnectedClients (h_metrics h') = ConnectedClients (h_metrics h) + of_bool (served (Some p)) - of_bool (served (h_phase h c))"
proof -
  have move: thesis
    if "gauge h' = ((fst (gauge h))(c \<mapsto> p), snd (gauge h) + of_bool (served (Some p)) - of_bool (served (h_phase h c)))"
      "h_phase h c \<noteq> None \<or> h_heap h' c \<noteq> None" for c p
    using that moves [of c p] by (simp add: gauge_def)
  have new: "h_phase h c = None" if "h_heap h c = None" for c using that assms(2) by blast
  from assms(1) show thesis
  proof (cases rule: hub_step.cases)
    case (Refused c client h1 ok)
    then show thesis using gauge_register [OF Refused(4)] new [OF Refused(2)]
      by (intro move [of c Ended]) (auto simp: gauge_def set_phase_def upd_client_def register_locked_def split: if_splits)
  next
    case (Registered c client h1)
    then show thesis using gauge_register [OF Registered(4)] new [OF Registered(2)]
      by (intro move [of c Joining]) (auto simp: gauge_def set_phase_def register_locked_def split: if_splits)
  next
    case (JoinSaved c client m h1)
    then show thesis using gauge_save [OF JoinSaved(4)] by (intro move [of c "JoinPublish m"]) (simp_all add: gauge_phase)
  next
    case (JoinPublished c m pick e b h1)
    then show thesis using gauge_publish [OF JoinPublished(3)]
      by (intro move [of c Joined]) (simp_all add: gauge_phase)
  next
    case (Connected c)
    then show thesis by (intro move [of c Reading]) (simp_all add: gauge_phase gauge_connected)
  next
    case (ReadMessage c client now msg m h1)
    then show thesis using gauge_read [OF ReadMessage(4)] by (intro move [of c "ReadPublish m"]) (simp_all add: gauge_phase)
  next
    case (ReadPublished c m pick e b h1)
    then show thesis using gauge_publish [OF ReadPublished(3)]
      by (intro move [of c "if b then Reading else Leaving"]) (simp_all add: gauge_phase)
  next
    case (ReadEnds c)
    then show thesis by (intro move [of c Leaving]) (simp_all add: gauge_phase)
  next
    case (Disconnected c)
    then show thesis by (intro move [of c Unregistering]) (simp_all add: gauge_phase gauge_connected)
  next
    case (Unregister c)
    then show thesis by (intro move [of c Unregistered]) (simp_all add: gauge_phase)
  next
    case (UnregisterStopped c)
    then show thesis by (intro move [of c Unregistered]) (simp_all add: gauge_phase)
  next
    case (Finish c h1)
    then show thesis using gauge_finished [OF Finish(3)] by (intro move [of c Ended]) (simp_all add: gauge_phase)
  qed (rule same; auto dest: gauge_ops split: if_splits)+
qed

definition gauge_ok :: "('l, 's) Hub \<Rightarrow> bool" where
  "gauge_ok h \<longleftrightarrow> dom (h_phase h) \<subseteq> dom (h_heap h) \<and> finite (serving h) \<and>
     ConnectedClients (h_metrics h) = int (card (serving h))"

lemma gauge_ok_step:
  assumes "hub_step R X invar h h'" "gauge_ok h"
  shows "gauge_ok h'"
proof -
  have heap: "dom (h_heap h) \<subseteq> dom (h_heap h')"
    using hub_step_keeps_clients [OF assms(1)] by (fastforce simp: keeps_clients_def)
  have ok: "dom (h_phase h) \<subseteq> dom (h_heap h)" "finite (serving h)" "ConnectedClients (h_metrics h) = int (card (serving h))"
    using assms(2) by (simp_all add: gauge_ok_def)
  from assms(1) ok(1) show ?thesis
  proof (cases rule: step_gauge)
    case same
    then show ?thesis using ok heap by (auto simp: gauge_ok_def gauge_def serving_def)
  next
    case (moves c p)
    have s: "serving h' = (if served (Some p) then insert c (serving h) else serving h - {c})"
      using moves(1) by (auto simp: serving_def)
    have c: "c \<in> serving h \<longleftrightarrow> served (h_phase h c)" by (simp add: serving_def)
    have "int (card (serving h')) = int (card (serving h)) + of_bool (served (Some p)) - of_bool (served (h_phase h c))"
      using c ok(2) card_gt_0_iff [of "serving h"] unfolding s
      by (auto simp: card_insert_if of_nat_diff card_Diff_singleton_if insert_absorb)
    moreover have "dom (h_phase h') \<subseteq> dom (h_heap h')" using moves(1,2) ok(1) heap by auto
    ultimately show ?thesis using moves(3) ok(2,3) s by (simp add: gauge_ok_def)
  qed
qed

lemma gauge_ok_reachable: "hub_reachable R X invar h \<Longrightarrow> gauge_ok h"
proof (induction rule: hub_reachable.induct)
  case (Init s fanout)
  show ?case by (simp add: gauge_ok_def serving_def newHub_def newMetrics_def)
qed (blast intro: gauge_ok_step)

end
