(* ===== verification/Wsload.thy ===== *)
theory Wsload
  imports GoStrings GoTime
begin

text \<open>
  The load generator, \<open>cmd/wsload/main.go\<close>: the text of its messages and how the readers parse
  it back, the reader and sender loops, and the report. Sockets and clocks are the environment:
  whether a dial or a write succeeds, and the frames a reader receives with the time of each. Its
  numbers are \<open>int64\<close> and wrap around (\<open>wrap64\<close>). The report keeps latencies in nanoseconds; its
  conversion to milliseconds and the throughput are floating-point divisions of these numbers and
  are left out. The index of a percentile is a floating-point product, which is modelled exactly.
\<close>

section \<open>Message text\<close>

definition wsload_content :: "int \<Rightarrow> int \<Rightarrow> int \<Rightarrow> string" where
  "wsload_content nanos clientID j = ''wsload '' @ Itoa nanos @ '' '' @ Itoa clientID @ '' '' @ Itoa j"

text \<open>
  \<open>fmt.Sscanf(content, "wsload %d %d %d", \<dots>)\<close> with all three numbers read: the word must be
  there as it is, the space of the format needs a space in the input (or its end), and \<open>%d\<close> skips
  spaces, takes an optional sign and at least one digit, and must fit 64 bits. A newline is never
  skipped, and what follows the last number is not looked at.
\<close>

definition skip_space :: "rune list \<Rightarrow> rune list" where
  "skip_space rs = dropWhile (\<lambda>r. IsSpace r \<and> r \<noteq> 10) rs"

definition rune_digit :: "rune \<Rightarrow> bool" where
  "rune_digit r \<longleftrightarrow> 48 \<le> r \<and> r \<le> 57"

definition scan_space :: "rune list \<Rightarrow> rune list option" where
  "scan_space rs =
     (case rs of [] \<Rightarrow> Some [] | r # _ \<Rightarrow> if \<not> IsSpace r \<or> r = 10 then None else Some (skip_space rs))"

definition scan_sign :: "rune list \<Rightarrow> string \<times> rune list" where
  "scan_sign rs =
     (case rs of [] \<Rightarrow> ([], []) | r # rs' \<Rightarrow> if r = 43 \<or> r = 45 then ([char_of r], rs') else ([], rs))"

definition scan_int :: "rune list \<Rightarrow> (int \<times> rune list) option" where
  "scan_int rs =
     (let (sgn, rs) = scan_sign (skip_space rs); ds = takeWhile rune_digit rs in
      if ds = [] then None
      else case ParseInt10 (sgn @ map char_of ds) 64 of
             None \<Rightarrow> None
           | Some n \<Rightarrow> Some (n, dropWhile rune_digit rs))"

definition scan_field :: "rune list \<Rightarrow> (int \<times> rune list) option" where
  "scan_field rs = (case scan_space rs of None \<Rightarrow> None | Some rs \<Rightarrow> scan_int rs)"

definition Sscanf_wsload :: "string \<Rightarrow> (int \<times> int \<times> int) option" where
  "Sscanf_wsload content =
     (let rs = runes content in
      if take 6 rs \<noteq> map byte ''wsload'' then None
      else case scan_field (drop 6 rs) of
             None \<Rightarrow> None
           | Some (sentNanos, rs) \<Rightarrow>
             (case scan_field rs of
                None \<Rightarrow> None
              | Some (cid, rs) \<Rightarrow>
                (case scan_field rs of None \<Rightarrow> None | Some (seq, _) \<Rightarrow> Some (sentNanos, cid, seq))))"

section \<open>Readers and senders\<close>

text \<open>A received frame: the time, and the content if the frame is JSON.\<close>

type_synonym frame = "int \<times> string option"

record reader =
  rd_received :: nat
  rd_samples :: "int list"
  rd_seen :: "string set"

definition seen_key :: "int \<Rightarrow> int \<Rightarrow> string" where
  "seen_key cid seq = Itoa cid @ ''/'' @ Itoa seq"

definition reader_step :: "frame \<Rightarrow> reader \<Rightarrow> reader" where
  "reader_step f rd =
     (let (now, msg) = f; rd = rd\<lparr>rd_received := Suc (rd_received rd)\<rparr> in
      case msg of
        None \<Rightarrow> rd
      | Some content \<Rightarrow>
        (case Sscanf_wsload content of
           None \<Rightarrow> rd
         | Some (sentNanos, cid, seq) \<Rightarrow>
           let key = seen_key cid seq in
           if key \<in> rd_seen rd then rd
           else rd\<lparr>rd_seen := insert key (rd_seen rd), rd_samples := rd_samples rd @ [wrap64 (now - sentNanos)]\<rparr>))"

definition reader_loop :: "frame list \<Rightarrow> reader" where
  "reader_loop fs = fold reader_step fs \<lparr>rd_received = 0, rd_samples = [], rd_seen = {}\<rparr>"

text \<open>A sender stops at its first failed write: how many messages it sent, and how many errors it counted.\<close>

fun sender :: "(nat \<Rightarrow> bool) \<Rightarrow> nat \<Rightarrow> nat \<Rightarrow> nat \<times> nat" where
  "sender writeOK j 0 = (0, 0)"
| "sender writeOK j (Suc k) =
     (if \<not> writeOK j then (0, 1) else let (s, e) = sender writeOK (Suc j) k in (Suc s, e))"

section \<open>The report\<close>

text \<open>
  A positive number is kept as a multiple of \<open>2 ^ - 53\<close>. \<open>float_round\<close> rounds the exact product of
  two float64 values to 53 significant bits, to nearest, ties to even.
\<close>

fun bit_length :: "nat \<Rightarrow> nat" where
  "bit_length n = (if n = 0 then 0 else Suc (bit_length (n div 2)))"

declare bit_length.simps [simp del]

definition round_shift :: "nat \<Rightarrow> nat \<Rightarrow> nat" where
  "round_shift n s =
     (let q = n div 2 ^ s; r = n mod 2 ^ s in if 2 * r > 2 ^ s \<or> 2 * r = 2 ^ s \<and> odd q then q + 1 else q)"

definition float_round :: "nat \<Rightarrow> nat" where
  "float_round n = (let s = bit_length n - 53 in round_shift n s * 2 ^ s)"

text \<open>The constants 0.50, 0.95 and 0.99 as float64, times \<open>2 ^ 53\<close>.\<close>

definition p50 :: nat where "p50 = 4503599627370496"
definition p95 :: nat where "p95 = 8556839292003942"
definition p99 :: nat where "p99 = 8917127262193582"

definition percentile_index :: "nat \<Rightarrow> nat \<Rightarrow> nat" where
  "percentile_index n p = float_round (p * (n - 1)) div 2 ^ 53"

text \<open>\<open>None\<close>: an index out of range, which panics.\<close>

definition percentile :: "int list \<Rightarrow> nat \<Rightarrow> int option" where
  "percentile ordered p =
     (if ordered = [] then Some 0
      else let idx = percentile_index (length ordered) p in if idx < length ordered then Some (ordered ! idx) else None)"

record load_result =
  lr_Clients :: int
  lr_MessagesPerClient :: int
  lr_TotalSent :: int
  lr_ExpectedDelivered :: int
  lr_TotalReceived :: int
  lr_Delivered :: int
  lr_Lost :: int
  lr_Errors :: int
  lr_P50 :: "int option"
  lr_P95 :: "int option"
  lr_P99 :: "int option"
  lr_Max :: "int option"
  lr_Mean :: int

definition load_report :: "int \<Rightarrow> int \<Rightarrow> int \<Rightarrow> int \<Rightarrow> reader list \<Rightarrow> load_result" where
  "load_report clients messages sent errors readers =
     (let latencies = concat (map rd_samples readers);
          expected = wrap64 (sent * clients);
          delivered = int (length latencies);
          lost = wrap64 (expected - delivered);
          lost = (if lost < 0 then 0 else lost);
          ordered = sort latencies;
          sum = fold (\<lambda>v sum. wrap64 (sum + v)) ordered 0
      in \<lparr>lr_Clients = clients, lr_MessagesPerClient = messages, lr_TotalSent = sent, lr_ExpectedDelivered = expected,
          lr_TotalReceived = int (sum_list (map rd_received readers)), lr_Delivered = delivered, lr_Lost = lost,
          lr_Errors = errors,
          lr_P50 = percentile ordered p50, lr_P95 = percentile ordered p95, lr_P99 = percentile ordered p99,
          lr_Max = (if ordered = [] then Some 0 else Some (last ordered)),
          lr_Mean = (if ordered = [] then 0 else if sum < 0 then - ((- sum) div delivered) else sum div delivered)\<rparr>)"

datatype load_error = ClientsTooFew | MessagesTooFew | DialFails nat | UsernameFails nat

datatype load_exit = ExitOK | SendErrors | MissingDeliveries

record load_env =
  le_dialOK :: "nat \<Rightarrow> bool"
  le_usernameOK :: "nat \<Rightarrow> bool"
  le_writeOK :: "nat \<Rightarrow> nat \<Rightarrow> bool"
  le_frames :: "nat \<Rightarrow> frame list"

definition wsload_main :: "load_env \<Rightarrow> int \<Rightarrow> int \<Rightarrow> bool \<Rightarrow> (load_error, load_result \<times> load_exit) result" where
  "wsload_main E clients messages failOnLoss =
     (if clients < 1 then Inl ClientsTooFew
      else if messages < 1 then Inl MessagesTooFew
      else let ids = [0..<nat clients] in
        case find (\<lambda>i. \<not> le_dialOK E i) ids of
          Some i \<Rightarrow> Inl (DialFails i)
        | None \<Rightarrow>
          (case find (\<lambda>i. \<not> le_usernameOK E i) ids of
             Some i \<Rightarrow> Inl (UsernameFails i)
           | None \<Rightarrow>
             let outcomes = map (\<lambda>i. sender (le_writeOK E i) 0 (nat messages)) ids;
                 r = load_report clients messages (int (sum_list (map fst outcomes))) (int (sum_list (map snd outcomes)))
                       (map (\<lambda>i. reader_loop (le_frames E i)) ids)
             in Inr (r, if lr_Errors r > 0 then SendErrors
                        else if failOnLoss \<and> lr_Lost r > 0 then MissingDeliveries else ExitOK)))"

section \<open>Reading back what was sent\<close>

lemma is_digit_rune: "is_digit c \<longleftrightarrow> rune_digit (byte c)"
  by (simp add: is_digit_def rune_digit_def)

lemma Itoa_chars: "c \<in> set (Itoa n) \<Longrightarrow> is_digit c \<or> c = CHR ''-''"
  using digits_of_digits [of "nat n"] digits_of_digits [of "nat (- n)"] by (auto simp: Itoa_def list_all_iff split: if_splits)

lemma Itoa_ascii: "list_all (\<lambda>c. byte c < (128::nat)) (Itoa n)"
  using Itoa_chars [of _ n] by (fastforce simp: list_all_iff is_digit_def)

lemma digit_not_space: "rune_digit r \<Longrightarrow> \<not> IsSpace r \<and> r \<noteq> 43 \<and> r \<noteq> 45"
  by (simp add: rune_digit_def IsSpace_def)

lemma map_char_of_byte: "map char_of (map byte s :: nat list) = s"
  by (induction s) simp_all

lemma scan_int_digits:
  assumes "list_all is_digit ds" "ds \<noteq> []" "rest = [] \<or> \<not> rune_digit (hd rest)"
  shows "takeWhile rune_digit (map byte ds @ rest) = map byte ds" "dropWhile rune_digit (map byte ds @ rest) = rest"
proof -
  have "\<forall>r \<in> set (map byte ds). rune_digit r" using assms(1) by (auto simp: list_all_iff is_digit_rune)
  then show "takeWhile rune_digit (map byte ds @ rest) = map byte ds" "dropWhile rune_digit (map byte ds @ rest) = rest"
    using assms(3) by (cases rest; simp add: takeWhile_append dropWhile_append)+
qed

lemma scan_field_Itoa:
  assumes "- (2 ^ 63) \<le> n" "n < 2 ^ 63" "rest = [] \<or> \<not> rune_digit (hd rest)"
  shows "scan_field (32 # map byte (Itoa n) @ rest) = Some (n, rest)"
proof -
  obtain sgn ds where i: "Itoa n = sgn @ ds" "list_all is_digit ds" "ds \<noteq> []" "sgn = [] \<or> sgn = ''-''"
    by (cases "n < 0") (auto simp: Itoa_def digits_of_digits intro: that [of "''-''"] that [of "[]"])
  obtain d ds' where d: "ds = d # ds'" "rune_digit (byte d)" using i(2,3) by (cases ds) (auto simp: is_digit_rune)
  have s32: "IsSpace 32" "\<not> IsSpace 45" by (simp_all add: IsSpace_def)
  have sp: "skip_space (map byte (Itoa n) @ rest) = map byte (Itoa n) @ rest"
    using i(1,4) d digit_not_space s32(2) by (auto simp: skip_space_def)
  then have sp32: "scan_space (32 # map byte (Itoa n) @ rest) = Some (map byte (Itoa n) @ rest)"
    using s32(1) by (simp add: scan_space_def skip_space_def)
  have minus: "char_of (45::nat) = CHR ''-''" by code_simp
  have sg: "scan_sign (map byte (Itoa n) @ rest) = (sgn, map byte ds @ rest)"
    using i(1,4) d digit_not_space by (auto simp: scan_sign_def minus)
  have "ParseInt10 (sgn @ map char_of (map byte ds :: nat list)) 64 = Some n"
    unfolding map_char_of_byte i(1) [symmetric] by (rule ParseInt10_Itoa) (use assms in simp_all)
  then have "scan_int (map byte (Itoa n) @ rest) = Some (n, rest)"
    unfolding scan_int_def sp sg using scan_int_digits [OF i(2,3) assms(3)] i(3) by simp
  then show ?thesis by (simp add: scan_field_def sp32)
qed

lemma Sscanf_wsload_content:
  assumes "- (2 ^ 63) \<le> t" "t < 2 ^ 63" "- (2 ^ 63) \<le> c" "c < 2 ^ 63" "- (2 ^ 63) \<le> j" "j < 2 ^ 63"
  shows "Sscanf_wsload (wsload_content t c j) = Some (t, c, j)"
proof -
  have a: "list_all (\<lambda>c. byte c < (128::nat)) (wsload_content t c j)"
    using Itoa_ascii by (simp add: wsload_content_def)
  let ?f = "\<lambda>n rest. 32 # map byte (Itoa n) @ rest"
  have r: "runes (wsload_content t c j) = map byte ''wsload'' @ ?f t (?f c (?f j []))"
    unfolding runes_ascii [OF a] by (simp add: wsload_content_def)
  have n: "\<not> rune_digit 32" by (simp add: rune_digit_def)
  then show ?thesis
    using scan_field_Itoa [OF assms(1,2), of "?f c (?f j [])"] scan_field_Itoa [OF assms(3,4), of "?f j []"]
      scan_field_Itoa [OF assms(5,6), of "[]"]
    by (simp add: Sscanf_wsload_def r)
qed

section \<open>Rounding\<close>

lemma bit_length_bounds: "n < 2 ^ bit_length n \<and> (0 < n \<longrightarrow> 2 ^ bit_length n \<le> 2 * n)"
proof (induction n rule: bit_length.induct)
  case (1 n)
  then show ?case
    by (cases "n = 0"; cases "n = 1")
      (auto simp: bit_length.simps [of n] bit_length.simps [of 0] bit_length.simps [of "Suc 0"])
qed

lemma bit_length_le: "n < 2 ^ k \<Longrightarrow> bit_length n \<le> k"
proof (rule ccontr)
  assume n: "n < 2 ^ k" "\<not> bit_length n \<le> k"
  then have "n > 0" by (cases "n = 0") (auto simp: bit_length.simps [of 0])
  then have "(2::nat) ^ Suc k \<le> 2 * n"
    using bit_length_bounds [of n] power_increasing [of "Suc k" "bit_length n" "2::nat"] n(2) by simp
  then show False using n(1) by simp
qed

lemma bit_length_mono: "a \<le> b \<Longrightarrow> bit_length a \<le> bit_length b"
  using bit_length_bounds [of b] by (intro bit_length_le) simp

lemma round_shift_bounds: "n div 2 ^ s \<le> round_shift n s \<and> round_shift n s \<le> n div 2 ^ s + 1"
  by (simp add: round_shift_def Let_def)

lemma round_shift_mono:
  assumes "a \<le> b"
  shows "round_shift a s \<le> round_shift b s"
proof (cases "a div 2 ^ s = b div 2 ^ s")
  case True
  then have "a mod 2 ^ s \<le> b mod 2 ^ s"
    using assms div_mult_mod_eq [of a "2 ^ s"] div_mult_mod_eq [of b "2 ^ s"] by simp
  then show ?thesis using True by (auto simp: round_shift_def Let_def)
next
  case False
  then have "a div 2 ^ s + 1 \<le> b div 2 ^ s" using div_le_mono [OF assms, of "2 ^ s"] by simp
  then show ?thesis using round_shift_bounds [of a s] round_shift_bounds [of b s] by linarith
qed

lemma round_shift_multiple: "round_shift (k * 2 ^ s) s = k"
  by (simp add: round_shift_def)

lemma float_round_le:
  assumes "n \<le> m * 2 ^ 53" "m < 2 ^ 53"
  shows "float_round n \<le> m * 2 ^ 53"
proof -
  let ?s = "bit_length n - 53"
  have "n < 2 ^ (53 + 53)"
    unfolding power_add using assms by (meson le_less_trans mult_less_mono1 zero_less_numeral zero_less_power)
  then have "bit_length n \<le> 53 + 53" by (rule bit_length_le)
  then have s: "(2::nat) ^ 53 = 2 ^ (53 - ?s) * 2 ^ ?s" by (simp add: power_add [symmetric])
  then have m: "m * 2 ^ 53 = m * 2 ^ (53 - ?s) * 2 ^ ?s" by simp
  have "round_shift n ?s \<le> m * 2 ^ (53 - ?s)"
    using round_shift_mono [OF assms(1), of ?s] unfolding m round_shift_multiple .
  then show ?thesis unfolding m float_round_def Let_def by (rule mult_le_mono1)
qed

lemma float_round_mono:
  assumes "a \<le> b"
  shows "float_round a \<le> float_round b"
proof (cases "bit_length a - 53 = bit_length b - 53")
  case True
  then show ?thesis using round_shift_mono [OF assms] by (simp add: float_round_def Let_def)
next
  case False
  let ?sa = "bit_length a - 53" and ?sb = "bit_length b - 53"
  have lt: "?sa < ?sb" "53 < bit_length b" using False bit_length_mono [OF assms] by auto
  have "a < 2 ^ (53 + ?sa)"
    using bit_length_bounds [of a] power_increasing [of "bit_length a" "53 + ?sa" "2::nat"] by linarith
  then have "a div 2 ^ ?sa < 2 ^ 53" by (simp add: power_add less_mult_imp_div_less)
  then have "round_shift a ?sa \<le> 2 ^ 53" using round_shift_bounds [of a ?sa] by linarith
  then have "float_round a \<le> 2 ^ 53 * 2 ^ ?sa" unfolding float_round_def Let_def by (rule mult_le_mono1)
  also have "\<dots> \<le> 2 ^ 52 * 2 ^ ?sb"
    using power_increasing [of "Suc ?sa" ?sb "2::nat"] lt(1) by simp
  also have "\<dots> \<le> float_round b"
  proof -
    have "b > 0" using lt(2) by (cases "b = 0") (auto simp: bit_length.simps [of 0])
    then have "2 ^ bit_length b \<le> 2 * b" using bit_length_bounds by blast
    moreover have "bit_length b = 53 + ?sb" using lt(2) by simp
    then have "(2::nat) ^ bit_length b = 2 * (2 ^ 52 * 2 ^ ?sb)"
      using power_add [of "2::nat" 53 ?sb] by simp
    ultimately have "2 ^ 52 * 2 ^ ?sb \<le> b" by simp
    then have "2 ^ 52 \<le> b div 2 ^ ?sb" by (simp add: less_eq_div_iff_mult_less_eq)
    then have "2 ^ 52 \<le> round_shift b ?sb" using round_shift_bounds [of b ?sb] by linarith
    then show ?thesis unfolding float_round_def Let_def by (rule mult_le_mono1)
  qed
  finally show ?thesis .
qed

lemma percentile_index_mono: "p \<le> q \<Longrightarrow> percentile_index n p \<le> percentile_index n q"
  unfolding percentile_index_def by (intro div_le_mono float_round_mono mult_le_mono1)

lemma percentile_index_le:
  assumes "p \<le> 2 ^ 53" "n - 1 < 2 ^ 53"
  shows "percentile_index n p \<le> n - 1"
proof -
  have "p * (n - 1) \<le> (n - 1) * 2 ^ 53" using assms(1) by (simp add: mult.commute mult_le_mono2)
  from float_round_le [OF this assms(2)] show ?thesis
    unfolding percentile_index_def using div_le_mono [of _ _ "2 ^ 53"] by fastforce
qed

lemma percentile_ok:
  assumes "xs \<noteq> []" "length xs \<le> 2 ^ 53" "p \<le> 2 ^ 53"
  shows "percentile xs p = Some (xs ! percentile_index (length xs) p)" "percentile_index (length xs) p < length xs"
proof -
  have "length xs - 1 < 2 ^ 53" "0 < length xs" using assms(1,2) by (cases xs; simp)+
  then show "percentile_index (length xs) p < length xs" using percentile_index_le [OF assms(3), of "length xs"] by linarith
  then show "percentile xs p = Some (xs ! percentile_index (length xs) p)" using assms(1) by (simp add: percentile_def)
qed

lemma percentiles_ordered:
  assumes "sorted xs" "xs \<noteq> []" "length xs \<le> 2 ^ 53"
  shows "\<exists>a b c. percentile xs p50 = Some a \<and> percentile xs p95 = Some b \<and> percentile xs p99 = Some c \<and>
    a \<le> b \<and> b \<le> c \<and> c \<le> last xs \<and> {a, b, c} \<subseteq> set xs"
proof -
  let ?i = "percentile_index (length xs)"
  have p: "p50 \<le> 2 ^ 53" "p95 \<le> 2 ^ 53" "p99 \<le> 2 ^ 53" "p50 \<le> p95" "p95 \<le> p99"
    by (simp_all add: p50_def p95_def p99_def)
  note ok = percentile_ok [OF assms(2,3)]
  have "xs ! ?i p50 \<le> xs ! ?i p95" "xs ! ?i p95 \<le> xs ! ?i p99"
    using p(4,5) ok(2) [OF p(2)] ok(2) [OF p(3)] by (auto intro: sorted_nth_mono [OF assms(1)] percentile_index_mono)
  moreover have "xs ! ?i p99 \<le> last xs"
    unfolding last_conv_nth [OF assms(2)] using ok(2) [OF p(3)] by (intro sorted_nth_mono [OF assms(1)]) auto
  ultimately show ?thesis using ok(1) [OF p(1)] ok(1) [OF p(2)] ok(1) [OF p(3)] ok(2) [OF p(1)] ok(2) [OF p(2)] ok(2) [OF p(3)]
    by simp
qed

section \<open>Counting deliveries\<close>

lemma int_below_power: "\<exists>k. \<bar>a :: int\<bar> + \<bar>b\<bar> < 2 ^ k"
proof -
  obtain m where m: "\<bar>a\<bar> + \<bar>b\<bar> = int m" using nonneg_int_cases [of "\<bar>a\<bar> + \<bar>b\<bar>"] by auto
  have "int m < int (2 ^ m)" using less_exp [of m] by (simp only: of_nat_less_iff)
  then have "int m < 2 ^ m" by simp
  then show ?thesis unfolding m by blast
qed

lemma Itoa_inj: "Itoa a = Itoa b \<Longrightarrow> a = b"
proof -
  assume eq: "Itoa a = Itoa b"
  obtain k where "\<bar>a\<bar> + \<bar>b\<bar> < 2 ^ k" using int_below_power by blast
  then have k: "- (2 ^ k) \<le> a" "a < 2 ^ k" "- (2 ^ k) \<le> b" "b < 2 ^ k" by linarith+
  have "ParseInt10 (Itoa n) (Suc k) = Some n" if "- (2 ^ k) \<le> n" "n < 2 ^ k" for n
    using ParseInt10_Itoa [of "Suc k" n] that unfolding diff_Suc_1 by blast
  from this [OF k(1,2)] this [OF k(3,4)] show "a = b" unfolding eq by (rule trans [OF sym, THEN option.inject [THEN iffD1]])
qed

lemma seen_key_inj: "inj (\<lambda>(c, s). seen_key c s)"
proof (rule injI, clarify)
  fix a b c d
  assume "seen_key a b = seen_key c d"
  then have k: "Itoa a @ CHR ''/'' # Itoa b = Itoa c @ CHR ''/'' # Itoa d" by (simp add: seen_key_def)
  have no: "CHR ''/'' \<notin> set (Itoa n)" for n using Itoa_chars [of "CHR ''/''" n] by (auto simp: is_digit_def)
  then have t: "takeWhile (\<lambda>x. x \<noteq> CHR ''/'') (Itoa n @ CHR ''/'' # s) = Itoa n" for n s
    by (subst takeWhile_append2) auto
  have "Itoa a = Itoa c" using arg_cong [OF k, of "takeWhile (\<lambda>x. x \<noteq> CHR ''/'')"] by (simp only: t)
  then show "a = c \<and> b = d" using k Itoa_inj by auto
qed

text \<open>The message a frame carries, and the messages among the frames a reader has received.\<close>

definition frame_key :: "frame \<Rightarrow> (int \<times> int) option" where
  "frame_key f = (case snd f of None \<Rightarrow> None | Some content \<Rightarrow> map_option (\<lambda>(_, k). k) (Sscanf_wsload content))"

definition reader_keys :: "frame list \<Rightarrow> (int \<times> int) set" where
  "reader_keys fs = set (List.map_filter frame_key fs)"

lemma reader_keys_simps [simp]:
  "reader_keys [] = {}"
  "reader_keys (fs @ [f]) = (case frame_key f of None \<Rightarrow> reader_keys fs | Some k \<Rightarrow> insert k (reader_keys fs))"
  by (simp_all add: reader_keys_def List.map_filter_def split: option.split)

lemma reader_loop_inv:
  "rd_seen (reader_loop fs) = (\<lambda>(c, s). seen_key c s) ` reader_keys fs \<and>
   length (rd_samples (reader_loop fs)) = card (reader_keys fs) \<and> rd_received (reader_loop fs) = length fs"
proof (induction fs rule: rev_induct)
  case (snoc f fs)
  let ?rd = "reader_loop fs"
  have step: "reader_loop (fs @ [f]) = reader_step f ?rd" by (simp add: reader_loop_def)
  have fin: "finite (reader_keys fs)" by (simp add: reader_keys_def)
  show ?case
  proof (cases "frame_key f")
    case None
    then have "reader_step f ?rd = ?rd\<lparr>rd_received := Suc (rd_received ?rd)\<rparr>"
      by (cases f) (auto simp: reader_step_def frame_key_def split: option.splits)
    then show ?thesis using snoc None by (simp add: step)
  next
    case (Some k)
    obtain c q where k: "k = (c, q)" by fastforce
    obtain now content t where f: "f = (now, Some content)" "Sscanf_wsload content = Some (t, c, q)"
      using Some k by (cases f) (auto simp: frame_key_def split: option.splits)
    have "seen_key c q \<in> rd_seen ?rd \<longleftrightarrow> k \<in> reader_keys fs"
      using snoc k inj_image_mem_iff [OF seen_key_inj, of "(c, q)" "reader_keys fs"] by simp
    then have "reader_step f ?rd = (let rd = ?rd\<lparr>rd_received := Suc (rd_received ?rd)\<rparr> in
        if k \<in> reader_keys fs then rd
        else rd\<lparr>rd_seen := insert (seen_key c q) (rd_seen rd), rd_samples := rd_samples rd @ [wrap64 (now - t)]\<rparr>)"
      by (simp add: reader_step_def f)
    then show ?thesis
      using snoc fin k by (cases "k \<in> reader_keys fs") (simp_all add: step Some Let_def insert_absorb)
  qed
qed (simp add: reader_loop_def)

text \<open>The messages that were written to a socket in a run.\<close>

definition sent_count :: "load_env \<Rightarrow> int \<Rightarrow> nat \<Rightarrow> nat" where
  "sent_count E messages i = fst (sender (le_writeOK E i) 0 (nat messages))"

definition sent_keys :: "load_env \<Rightarrow> int \<Rightarrow> int \<Rightarrow> (int \<times> int) set" where
  "sent_keys E clients messages =
     (\<lambda>(i, j). (int i, int j)) ` (SIGMA i : {..<nat clients}. {..<sent_count E messages i})"

lemma card_sent_keys: "card (sent_keys E clients messages) = (\<Sum>i < nat clients. sent_count E messages i)"
proof -
  have "inj (\<lambda>(i, j). (int i, int j))" by (auto simp: inj_on_def)
  then show ?thesis unfolding sent_keys_def by (subst card_image) (auto intro: inj_on_subset)
qed

lemma finite_sent_keys: "finite (sent_keys E clients messages)"
  by (simp add: sent_keys_def)

lemma wsload_main_ok:
  assumes "wsload_main E clients messages failOnLoss = Inr (r, exit)"
  shows "1 \<le> clients \<and> 1 \<le> messages \<and>
    r = load_report clients messages (int (\<Sum>i < nat clients. sent_count E messages i))
      (int (\<Sum>i < nat clients. snd (sender (le_writeOK E i) 0 (nat messages))))
      (map (\<lambda>i. reader_loop (le_frames E i)) [0..<nat clients]) \<and>
    exit = (if lr_Errors r > 0 then SendErrors else if failOnLoss \<and> lr_Lost r > 0 then MissingDeliveries else ExitOK)"
  using assms
  by (auto simp: wsload_main_def sent_count_def [abs_def] Let_def comp_def interv_sum_list_conv_sum_set_nat lessThan_atLeast0
      split: if_splits option.splits)

lemma delivered_count:
  "length (concat (map rd_samples (map (\<lambda>i. reader_loop (le_frames E i)) [0..<n]))) = (\<Sum>i < n. card (reader_keys (le_frames E i)))"
  by (simp add: length_concat comp_def reader_loop_inv interv_sum_list_conv_sum_set_nat lessThan_atLeast0)

lemma load_report_Lost:
  assumes "0 \<le> sent * clients" "sent * clients < 2 ^ 63" "int (length (concat (map rd_samples rs))) \<le> sent * clients"
  shows "lr_Lost (load_report clients messages sent errors rs) = sent * clients - int (length (concat (map rd_samples rs)))"
proof -
  have "wrap64 (sent * clients) = sent * clients" using assms by (intro wrap64_id) simp_all
  moreover have "wrap64 (sent * clients - int (length (concat (map rd_samples rs)))) =
      sent * clients - int (length (concat (map rd_samples rs)))" using assms by (intro wrap64_id) simp_all
  ultimately show ?thesis using assms(3) by (simp add: load_report_def Let_def)
qed

text \<open>A sender counts an error exactly when one of its writes fails, and never sends more than it was asked to.\<close>

lemma sender_errors: "snd (sender ok j k) = of_bool (\<exists>i. j \<le> i \<and> i < j + k \<and> \<not> ok i)"
proof (induction k arbitrary: j)
  case (Suc k)
  have "(\<exists>i. j \<le> i \<and> i < j + Suc k \<and> \<not> ok i) \<longleftrightarrow> \<not> ok j \<or> (\<exists>i. Suc j \<le> i \<and> i < Suc j + k \<and> \<not> ok i)"
    by (metis Suc_leD Suc_le_eq add_Suc_shift le_add1 le_eq_less_or_eq le_refl less_add_Suc1)
  then show ?case using Suc.IH [of "Suc j"] by (simp add: case_prod_beta)
qed simp

lemma sender_bound: "fst (sender ok j k) \<le> k"
  by (induction k arbitrary: j) (auto simp: case_prod_beta)

definition failing :: "load_env \<Rightarrow> int \<Rightarrow> int \<Rightarrow> nat set" where
  "failing E clients messages = {i. i < nat clients \<and> (\<exists>j < nat messages. \<not> le_writeOK E i j)}"

lemma errors_exact:
  assumes "wsload_main E clients messages failOnLoss = Inr (r, exit)"
  shows "lr_Errors r = int (card (failing E clients messages))"
proof -
  have "(\<Sum>i < nat clients. snd (sender (le_writeOK E i) 0 (nat messages))) =
      (\<Sum>i < nat clients. of_bool (i \<in> failing E clients messages))"
    by (intro sum.cong) (auto simp: sender_errors failing_def)
  also have "\<dots> = card ({..<nat clients} \<inter> failing E clients messages)" by simp
  also have "{..<nat clients} \<inter> failing E clients messages = failing E clients messages" by (auto simp: failing_def)
  finally show ?thesis using wsload_main_ok [OF assms] by (simp add: load_report_def Let_def)
qed

text \<open>When only messages of this run arrive, the report's loss is exactly the deliveries that are missing.\<close>

lemma lost_exact:
  assumes "wsload_main E clients messages failOnLoss = Inr (r, exit)"
    and "\<And>i. i < nat clients \<Longrightarrow> reader_keys (le_frames E i) \<subseteq> sent_keys E clients messages"
    and "clients * messages * clients < 2 ^ 63"
  shows "lr_Lost r = int (\<Sum>i < nat clients. card (sent_keys E clients messages - reader_keys (le_frames E i)))"
proof -
  let ?K = "sent_keys E clients messages" and ?R = "\<lambda>i. reader_keys (le_frames E i)" and ?n = "nat clients"
  note ok = wsload_main_ok [OF assms(1)]
  have c: "card (?K - ?R i) = card ?K - card (?R i)" "card (?R i) \<le> card ?K" if "i < ?n" for i
    using card_Diff_subset [OF finite_subset [OF assms(2) [OF that] finite_sent_keys] assms(2) [OF that]]
      card_mono [OF finite_sent_keys assms(2) [OF that]] by simp_all
  have "int (\<Sum>i < ?n. card (?K - ?R i)) = (\<Sum>i < ?n. int (card ?K) - int (card (?R i)))"
    unfolding of_nat_sum using c by (intro sum.cong) (simp_all add: of_nat_diff)
  also have "\<dots> = int (card ?K) * clients - int (\<Sum>i < ?n. card (?R i))"
    using ok by (simp add: sum_subtractf)
  finally have l: "int (\<Sum>i < ?n. card (?K - ?R i)) = int (card ?K) * clients - int (\<Sum>i < ?n. card (?R i))" .
  have "card ?K \<le> (\<Sum>i < ?n. nat messages)" unfolding card_sent_keys sent_count_def by (intro sum_mono sender_bound)
  then have "card ?K \<le> nat (clients * messages)" using ok by (simp add: nat_mult_distrib)
  moreover have "0 \<le> clients * messages" using ok by simp
  ultimately have "int (card ?K) \<le> clients * messages" by linarith
  then have "int (card ?K) * clients \<le> clients * messages * clients" using ok by (intro mult_right_mono) simp_all
  then have k: "int (card ?K) * clients < 2 ^ 63" using assms(3) by linarith
  have d: "int (\<Sum>i < ?n. card (?R i)) \<le> int (card ?K) * clients"
    using of_nat_0_le_iff [where 'a = int, of "\<Sum>i < ?n. card (?K - ?R i)"] unfolding l by linarith
  have "0 \<le> int (card ?K) * clients" using ok by simp
  then have "lr_Lost r = int (card ?K) * clients - int (\<Sum>i < ?n. card (?R i))"
    using ok k d load_report_Lost [of "int (card ?K)" clients "map (\<lambda>i. reader_loop (le_frames E i)) [0..<?n]"]
    unfolding card_sent_keys [symmetric] delivered_count by simp
  then show ?thesis unfolding l by simp
qed

text \<open>How a run exits, in terms of the writes and of what the readers got.\<close>

lemma exit_exact:
  assumes "wsload_main E clients messages failOnLoss = Inr (r, exit)"
    and "\<And>i. i < nat clients \<Longrightarrow> reader_keys (le_frames E i) \<subseteq> sent_keys E clients messages"
    and "clients * messages * clients < 2 ^ 63"
  shows "exit = ExitOK \<longleftrightarrow> (\<forall>i < nat clients. \<forall>j < nat messages. le_writeOK E i j) \<and>
    (failOnLoss \<longrightarrow> (\<forall>i < nat clients. reader_keys (le_frames E i) = sent_keys E clients messages))"
proof -
  have f: "finite (failing E clients messages)" by (rule finite_subset [of _ "{..<nat clients}"]) (auto simp: failing_def)
  have "lr_Errors r > 0 \<longleftrightarrow> failing E clients messages \<noteq> {}"
    using errors_exact [OF assms(1)] f by (auto simp: card_gt_0_iff)
  moreover have "lr_Lost r > 0 \<longleftrightarrow> (\<exists>i < nat clients. reader_keys (le_frames E i) \<noteq> sent_keys E clients messages)"
  proof -
    let ?missing = "\<lambda>i. sent_keys E clients messages - reader_keys (le_frames E i)"
    have "lr_Lost r = int (\<Sum>i < nat clients. card (?missing i))" using assms by (rule lost_exact)
    moreover have "0 < (\<Sum>i < nat clients. card (?missing i)) \<longleftrightarrow> (\<exists>i < nat clients. ?missing i \<noteq> {})"
      using finite_sent_keys [of E clients messages] by (auto simp: zero_less_iff_neq_zero)
    ultimately have "lr_Lost r > 0 \<longleftrightarrow> (\<exists>i < nat clients. ?missing i \<noteq> {})" by (simp only: of_nat_0_less_iff)
    then show ?thesis using assms(2) by blast
  qed
  ultimately show ?thesis using wsload_main_ok [OF assms(1)] by (auto simp: failing_def)
qed

lemma load_report_percentiles:
  assumes "0 < lr_Delivered (load_report clients messages sent errors rs)"
    and "lr_Delivered (load_report clients messages sent errors rs) \<le> 2 ^ 53"
  shows "\<exists>a b c d. lr_P50 (load_report clients messages sent errors rs) = Some a \<and>
    lr_P95 (load_report clients messages sent errors rs) = Some b \<and> lr_P99 (load_report clients messages sent errors rs) = Some c \<and>
    lr_Max (load_report clients messages sent errors rs) = Some d \<and> a \<le> b \<and> b \<le> c \<and> c \<le> d"
proof -
  let ?xs = "sort (concat (map rd_samples rs))"
  have l: "lr_Delivered (load_report clients messages sent errors rs) = int (length ?xs)" by (simp add: load_report_def Let_def)
  then have xs: "?xs \<noteq> []" "length ?xs \<le> 2 ^ 53" using assms by (simp_all del: length_sort)
  show ?thesis using percentiles_ordered [OF sorted_sort xs] xs(1) by (auto simp: load_report_def Let_def)
qed

section \<open>A sample run\<close>

text \<open>Two clients with one message each; the second reader misses the second message.\<close>

definition sample_load :: load_env where
  "sample_load =
     \<lparr>le_dialOK = (\<lambda>_. True), le_usernameOK = (\<lambda>_. True), le_writeOK = (\<lambda>_ _. True),
      le_frames = (\<lambda>i.
        if i = 0 then [(104, Some (wsload_content 100 0 0)), (105, None), (109, Some (wsload_content 100 1 0)),
                       (111, Some (wsload_content 100 0 0))]
        else [(102, Some (wsload_content 100 0 0)), (103, Some ''hello'')])\<rparr>"

lemma sample_scans [simp]:
  "Sscanf_wsload (wsload_content 100 0 0) = Some (100, 0, 0)" "Sscanf_wsload (wsload_content 100 1 0) = Some (100, 1, 0)"
  "Sscanf_wsload ''hello'' = None"
  by (simp_all add: Sscanf_wsload_content) code_simp

lemma sample_keys [simp]: "seen_key 1 0 \<noteq> seen_key 0 0"
  by code_simp

lemma sample_readers:
  "reader_loop (le_frames sample_load 0) =
     \<lparr>rd_received = 4, rd_samples = [4, 9], rd_seen = {seen_key 1 0, seen_key 0 0}\<rparr>"
  "reader_loop (le_frames sample_load (Suc 0)) = \<lparr>rd_received = 2, rd_samples = [2], rd_seen = {seen_key 0 0}\<rparr>"
  by (simp_all add: reader_loop_def sample_load_def reader_step_def Let_def wrap64_def)

lemma sample_load_run:
  "\<exists>r exit. wsload_main sample_load 2 1 True = Inr (r, exit) \<and> lr_Delivered r = 3 \<and> lr_Lost r = 1 \<and>
     exit = MissingDeliveries \<and> lr_P50 r = Some 4 \<and> lr_Max r = Some 9"
proof -
  have s: "le_writeOK sample_load i j" for i j by (simp add: sample_load_def)
  have "bit_length 9007199254740992 = 54" by (simp add: bit_length.simps)
  then have p: "percentile [2, 4, 9] p50 = Some 4"
    by (simp add: percentile_def percentile_index_def float_round_def round_shift_def p50_def)
  have u: "[0..<2] = [0, Suc 0]" by (simp add: upt_rec)
  have ok: "le_dialOK sample_load i" "le_usernameOK sample_load i" for i by (simp_all add: sample_load_def)
  show ?thesis using p by (simp add: wsload_main_def u s ok sample_readers load_report_def Let_def wrap64_def)
qed

lemma sample_load_keys: "i < 2 \<Longrightarrow> reader_keys (le_frames sample_load i) \<subseteq> sent_keys sample_load 2 1"
proof -
  have s: "sent_count sample_load 1 i = 1" for i by (simp add: sent_count_def sample_load_def)
  have "(int i, int j) \<in> sent_keys sample_load 2 1" if "i < 2" "j < 1" for i j
    unfolding sent_keys_def using that by (intro image_eqI [where x = "(i, j)"]) (simp_all add: s)
  from this [of 0 0] this [of 1 0] have k: "(0, 0) \<in> sent_keys sample_load 2 1" "(1, 0) \<in> sent_keys sample_load 2 1" by simp_all
  have "reader_keys (le_frames sample_load i) \<subseteq> {(0, 0), (1, 0)}"
    by (auto simp: reader_keys_def List.map_filter_def sample_load_def frame_key_def)
  then show ?thesis using k by blast
qed

end
