(* ===== verification/Spec2Isabelle.thy ===== *)
theory Spec2Isabelle
  imports ClusterInstances HubGauge RateLimit Client Wsload
begin

text \<open>
  Chatster: a verification of its Go backend (\<open>src/backend\<close>).

  \<^bold>\<open>The program.\<close> Chatster is a chat server. Browsers open a WebSocket per room (\<open>serveWs\<close> in
  \<open>server.go\<close>); each connection is a \<open>Client\<close> (\<open>client.go\<close>) with a bounded outbound queue, a
  reader, a writer and a heartbeat goroutine. The \<open>Hub\<close> (\<open>hub.go\<close>) registers clients, runs the
  broadcast loop, persists join and leave notifications, sends a new client its room's history and
  drains connections at shutdown. Messages go through a \<open>Repository\<close> (\<open>db/repository.go\<close>) with a
  SQLite (\<open>db/database.go\<close>) and a Postgres backend (\<open>db/postgres.go\<close>). HTTP handlers
  (\<open>server.go\<close>) serve history pages with opaque cursors (\<open>history_cursor.go\<close>), sessions, health
  and static files behind an origin check. Optional signed sessions (\<open>internal/auth\<close>) name a
  principal and its rooms. Several instances exchange room events (\<open>internal/events\<close>) over Redis
  (\<open>internal/broker\<close>). \<open>main.go\<close> puts the parts together from the environment
  (\<open>internal/config\<close>). \<open>cmd/wsload\<close> is a load generator.

  \<^bold>\<open>Go in HOL.\<close> A struct is a record, an enumeration a datatype, an operation a function that
  returns the updated state; \<open>(T, error)\<close> is a sum with the error on the left, so every early
  return is a branch. Strings are byte lists. Where Go leaves a choice open (the case a \<open>select\<close>
  takes, the iteration order of a map, whether a write to a socket or a call of a driver
  succeeds) it is an argument: \<open>pick\<close>, \<open>order\<close>, \<open>closeOK\<close>, a fault. An operation that blocks
  returns \<open>None\<close>. Log lines and duration histograms are left out; counters that the hub and the
  broker change are kept, and of the trace spans those of requests and WebSocket sessions.

  \<^bold>\<open>Theories.\<close>
  \<^item> \<open>Prelude\<close>: fact collections, shared type names, lemmas on lists and results, the in-place
    reversal loop. \<open>GoStrings\<close>: UTF-8 decoding, trimming, case mapping, splitting, numbers.
    \<open>GoTime\<close>: instants, zones, saturating and wrapping arithmetic. \<open>GoCodecs\<close>: hex and URL-safe
    base64. \<open>GoHttp\<close>: requests, cookies, response writers. \<open>Paths\<close>: \<open>filepath.Clean\<close> and
    \<open>Join\<close>, and \<open>staticHandler\<close>.
  \<^item> \<open>Rooms\<close>: \<open>NormalizeRoom\<close> and the text limits of \<open>message.go\<close> and \<open>internal/auth\<close>.
  \<^item> \<open>Repository\<close>: rows, positions in a room's history, the \<open>Repository\<close> interface as a record,
    and the contracts \<open>history_reader\<close> and \<open>history_writer\<close>. \<open>Sqlite\<close> and \<open>Postgres\<close> model every
    statement of the two backends on lists of rows, with driver faults, and interpret both
    contracts. \<open>Backends\<close> interprets the page contract of \<open>Handlers\<close> on them.
  \<^item> \<open>HistoryCursor\<close>, \<open>Auth\<close> (credentials, sessions, cookies, authorization), \<open>Config\<close>
    (\<open>FromEnv\<close>), \<open>RateLimit\<close> (per-address upgrade limiter), \<open>Events\<close> (the envelope, its
    validation and the channel names), \<open>Handlers\<close> (health, history, session, origin middleware).
  \<^item> \<open>Client\<close>: one connection. \<open>Hub\<close>: every operation of the hub and the read loop as functions on
    the record \<open>Hub\<close>; clients live in a store of addresses (\<open>h_heap\<close>). \<open>HubSteps\<close>: the step
    relation \<open>hub_step\<close>, one rule per point at which a goroutine can be interrupted (the start of the
    run loop, the wait for the broker goroutines and the stages of a connection's clean-up
    included), and the reachable states. \<open>HubInvariant\<close>: the invariant \<open>hub_inv\<close> and the contract \<open>hub_storage\<close>.
    \<open>HubFacts\<close>, \<open>HubTemporal\<close>, \<open>HubStorage\<close>: delivery and deduplication, what holds along every
    run, and what the read loop makes durable; the last interprets \<open>hub_storage\<close> on both backends.
    \<open>HubGauge\<close>: the gauge of connected clients, which a connection leaves before it is unregistered.
    \<open>Upgrade\<close>: \<open>serveWs\<close>, with what becomes of the hub during the handshake as an argument.
    \<open>Mount\<close>: the router's redirect to clean paths, the route table and \<open>mountWithAuth\<close>, the server
    as a whole.
  \<^item> \<open>Broker\<close>: the Redis fan-out with its subscription and reconnection loop, and the hub's broker
    goroutines. \<open>Migrations\<close>: the DDL of both backends as data, the migration loops with faults at
    any step, the columns each SQLite statement names, and the contract \<open>migrator\<close> interpreted on
    both. \<open>Startup\<close>: opening the storage, the
    retention passes (contract \<open>pruned_store\<close>), tracing set-up and \<open>main_start\<close>.
  \<^item> \<open>Lifecycle\<close>: \<open>unregisterClient\<close>, the iterations of \<open>run\<close> and \<open>Shutdown\<close> as steps of the
    machine, the stages of a shutdown and that it can always go on to its end; \<open>drain\<close> counts as
    returned once it is past its last wait, which there is only if the run loop has been started.
    \<open>Telemetry\<close>: the process-wide tracer, the trace middleware, and the span of a WebSocket session
    from \<open>serveWs\<close> to the deferred function of \<open>readMessages\<close>. \<open>Service\<close>: how
    \<open>main\<close> ends, with its exit code and deferred calls. \<open>Cluster\<close>: any number of instances over one
    database and one Redis as the step relation \<open>cluster_step\<close>, built from \<open>hub_step\<close>, the publisher
    and the subscription, with the invariant \<open>cluster_inv\<close>; the wire keeps everything ever sent, so
    that losing, repeating, delaying and reordering are all runs of it.
  \<^item> \<open>Wsload\<close>: the load generator's readers, senders, counts and percentiles.
  \<^item> \<open>Instances\<close>, \<open>HubInstances\<close>, \<open>StartInstances\<close>, \<open>ClusterInstances\<close>: concrete parameters and reachable states on
    which the properties are evaluated.

  \<^bold>\<open>What is shown here.\<close> The hub: messages stay in their room, delivery and
  removal are exact, queues and the deduplication window keep their bounds, the gauge of connected
  clients is exact, nobody can change a principal, accepted frames are published as stored and
  refused ones leave no trace. Storage: walking the cursors returns a room's history once and in
  order and ends, pages are authorized and sound, saves and retention do what they say. Upgrades
  and requests: the checks in front of a connection, and that serving any request is a run of the
  hub's machine. Draining: it admits nobody, no reporter blocks, it can come to its end from every
  state, and the exit code of the process tells how. Fan-out and start: delivery between instances
  end to end, that an instance broadcasts only what it or another instance has published, whatever
  Redis does, backoff, interrupted migrations, and that a started program satisfies what the other
  theorems assume. Sessions: only signed, unexpired cookies are accepted, and authorization is
  exact. Rooms, cursors, the session span, limits, static files and the load generator have a
  property each. Two theorems record flaws: \<open>unsaved_message_keeps_claimed_stamp\<close> and
  \<open>departed_entry_kept\<close>.

  \<^bold>\<open>Bounds and fuel.\<close> \<open>walk_history\<close>, a client following cursors, has fuel; more fuel than the
  room has messages is shown to be enough. Every other loop is structural recursion, over the
  events, frames or attempts the environment supplies where the loop has no end of its own. Queue
  sizes are those of the source (1024, 256, 4096). Identifiers and times are integers; 64-bit
  wrap-around is kept in \<open>time.Unix\<close>, in parsing and in the load generator, but not in the day
  count of the retention cutoff. Two effects of a goroutine are one step where nothing can block
  between them: a broadcast and its queueing for the broker, and the report of a finished client
  and its event, whose buffer is shown to have room. A float64 is only compared with zero in the
  configuration; the one product of floats, in \<open>percentile\<close>, is rounded to 53 bits as IEEE 754 does.

  \<^bold>\<open>Parameters.\<close> Code outside the repository is an argument with its documented behaviour as a
  named hypothesis: the SQL drivers' handling of timestamps (\<open>sqlite_env_ok\<close>, \<open>pg_env_ok\<close>), JSON
  coders (\<open>cursor_codec_ok\<close>, \<open>json_keeps_origin\<close> and fields of \<open>auth_lib\<close> and \<open>broker_lib\<close>), SHA-256 and HMAC, token buckets
  (\<open>rate_lib\<close>), the WebSocket handshake, the router (\<open>mux_ok\<close>), the Redis client, OpenTelemetry
  (\<open>otel_lib\<close>), float parsing.

  \<^bold>\<open>Not modelled.\<close> The registration and export of metrics and spans (calls into Prometheus and
  OpenTelemetry), the spans around single storage calls, duration histograms and the counters of
  pruned rows, timeouts other than as errors, closing a database (a call of its driver), column
  types and defaults of the DDL, the flags, pauses, throughput and unit conversion of the load
  generator, and the frontend, scripts and deployment files, which are not Go.
\<close>

section \<open>The hub and its clients\<close>

text \<open>
  C1: In every state the hub can reach over SQLite, however its goroutines interleave and whatever
  frames and remote events arrive, each message queued for a client and each data frame written to
  its socket belongs to that client's own room.
\<close>

theorem hub_room_isolation:
  assumes "hub_reachable (sqlite_repository env) X (sqlite_inv env) h" "h_heap h c = Some C"
  shows "list_all (\<lambda>m. m_Room m = c_Room C) (c_send C) \<and>
    list_all (frame_room_ok (c_Room C)) (case c_Conn C of None \<Rightarrow> [] | Some k \<Rightarrow> conn_sent k)"
  using sqlite_hub.reachable_rooms [OF assms] by (auto split: option.split)

theorem hub_room_isolation_witness:
  "\<exists>C. h_heap (greeted_hub (sqlite_repository sample_sqlite_env) sample_db) 7 = Some C \<and> c_send C \<noteq> [] \<and>
     list_all (\<lambda>m. m_Room m = ''lobby'') (c_send C)"
proof -
  obtain m ms where m: "history_messages (sqlite_repository sample_sqlite_env) sample_db sample_client = m # ms"
    using sample_history by blast
  note r = greeted_reachable [where invar = "sqlite_inv sample_sqlite_env" and R = "sqlite_repository sample_sqlite_env",
      OF sample_db_inv] and g = greeted_client [OF m]
  have "c_Room sample_client = ''lobby''" by (simp add: sample_client_def)
  then show ?thesis using hub_room_isolation [OF r g] m g by simp
qed

text \<open>
  C2: One iteration of the run loop takes the oldest broadcast message and, whatever the iteration
  order over the clients, appends it once to the queue of every registered client of its room that
  is open and has space, closes and removes exactly those of them that are not, and touches no other
  client.
\<close>

theorem broadcast_delivery:
  assumes "h_broadcast h = m # rest" "distinct order" "set order = h_clients h" "run_broadcast order h = Some h'"
  shows "h_broadcast h' = rest \<and>
    h_heap h' = (\<lambda>c. if c \<in> h_clients h then map_option (delivered m) (h_heap h c) else h_heap h c) \<and>
    h_clients h' = {c \<in> h_clients h. \<forall>C. h_heap h c = Some C \<longrightarrow> \<not> (addressed m C \<and> \<not> accepts C)}"
  using run_broadcast_spec [OF assms] by (simp add: dropped_def)

theorem broadcast_delivery_witness:
  "h_heap (fold (deliver (welcome_message ''lobby'')) [7] (joined_hub ())) 7 =
     Some (sample_client\<lparr>c_send := [welcome_message ''lobby'']\<rparr>) \<and>
   h_clients (fold (deliver (welcome_message ''lobby'')) [7] (joined_hub ())) = {7}"
proof -
  let ?m = "welcome_message ''lobby''"
  let ?h = "(joined_hub ())\<lparr>h_broadcast := [?m]\<rparr>" and ?h' = "fold (deliver ?m) [7] (joined_hub ())"
  have e: "(joined_hub ())\<lparr>h_broadcast := []\<rparr> = joined_hub ()"
    by (intro Hub.equality) (simp_all add: joined_hub_def start_hub_def newHub_def set_phase_def)
  have j: "h_clients (joined_hub ()) = {7}" by (simp add: joined_hub_def set_phase_def)
  have "run_broadcast [7] ?h = Some ?h'" by (simp add: run_broadcast_def e)
  note b = broadcast_delivery [of ?h ?m "[]" "[7]" ?h', OF _ _ _ this]
  have "accepts sample_client" "addressed ?m sample_client" "c_send sample_client = []"
    by (simp_all add: accepts_def addressed_def sample_client_def outboundQueueSize_def Client_room_def
        welcome_message_def system_notification_def)
  then show ?thesis using b j by (auto simp: delivered_def)
qed

text \<open>
  C3: A frame the read loop accepts is published as type message with the trimmed content and with
  the user identifier, name and room of the connection, never with those the frame carried; it
  passed the content check and the limiter.
\<close>

theorem read_loop_authority:
  assumes "readMessages_body R X now c client msg h = (ReadPublishes m, h')"
  shows "m_Type m = ''message'' \<and> m_Content m = TrimSpace (m_Content msg) \<and> validMessageBody (m_Content m) \<and>
    m_UserID m = c_UserID client \<and> m_Username m = c_Username client \<and> m_Room m = Client_room client \<and>
    fst (Client_allowMessage X now client) \<and> h_broadcast h' = h_broadcast h"
  using read_publishes [OF assms] read_frame [OF assms] by blast

theorem read_loop_authority_witness:
  "\<exists>m h'. readMessages_body (postgres_repository sample_pg_env) sample_rate (utc 9) 7 sample_client sample_frame
      (joined_hub sample_pg) = (ReadPublishes m, h') \<and> m_Username m = ''Ada'' \<and> m_Room m = ''lobby''"
proof -
  obtain m h' where b: "readMessages_body (postgres_repository sample_pg_env) sample_rate (utc 9) 7 sample_client sample_frame
      (joined_hub sample_pg) = (ReadPublishes m, h')" using sample_frame_accepted by blast
  then show ?thesis using read_loop_authority [OF b] by (simp add: sample_client_def Client_room_def)
qed

text \<open>
  C4: Over Postgres, in a reachable state, an accepted frame whose save succeeds is published
  exactly as the stored row, and that row is the one message added to the history of the client's
  room; no other room's history changes.
\<close>

theorem read_loop_durable:
  assumes "hub_reachable (postgres_repository env) X (pg_inv env) h" "h_heap h c = Some client"
    and "readMessages_body (postgres_repository env) X now c client msg h = (ReadPublishes m, h')"
    and "PostgresDB_SaveMessageForUserInRoomContext env (h_database h) (Client_room client) (c_UserID client)
      (c_Username client) (TrimSpace (m_Content msg)) ''message'' = (Inr row, s)"
  shows "message_of_row row = m \<and>
    set (pg_history env (h_database h') (c_Room client)) = insert row (set (pg_history env (h_database h) (c_Room client))) \<and>
    (\<forall>rm. rm \<noteq> c_Room client \<longrightarrow> pg_history env (h_database h') rm = pg_history env (h_database h) rm)"
proof -
  have s: "SaveMessageForUserInRoomContext (postgres_repository env) (h_database h) (Client_room client) (c_UserID client)
      (c_Username client) (TrimSpace (m_Content msg)) ''message'' = (Inr row, s)"
    using assms(4) by (simp add: postgres_repository_def)
  show ?thesis using pg_hub.read_accepted_history [OF pg_hub.hub_inv_reachable [OF assms(1)] assms(2,3) s] by auto
qed

theorem read_loop_durable_witness:
  "\<exists>m h' row. readMessages_body (postgres_repository sample_pg_env) sample_rate (utc 9) 7 sample_client sample_frame
      (joined_hub sample_pg) = (ReadPublishes m, h') \<and> message_of_row row = m \<and>
    set (pg_history sample_pg_env (h_database h') ''lobby'') = insert row (set (pg_history sample_pg_env sample_pg ''lobby''))"
proof -
  obtain m h' where b: "readMessages_body (postgres_repository sample_pg_env) sample_rate (utc 9) 7 sample_client sample_frame
      (joined_hub sample_pg) = (ReadPublishes m, h')" using sample_frame_accepted by blast
  obtain row s where s: "PostgresDB_SaveMessageForUserInRoomContext sample_pg_env (h_database (joined_hub sample_pg))
      (Client_room sample_client) (c_UserID sample_client) (c_Username sample_client) (TrimSpace (m_Content sample_frame))
      ''message'' = (Inr row, s)" using sample_frame_saved by blast
  have j: "h_database (joined_hub sample_pg) = sample_pg" by (simp add: joined_hub_def start_hub_def newHub_def set_phase_def)
  have "c_Room sample_client = ''lobby''" by (simp add: sample_client_def)
  then show ?thesis
    using read_loop_durable [OF joined_reachable [where invar = "pg_inv sample_pg_env", OF sample_pg_inv] joined_client b s] b j by auto
qed

text \<open>
  C5: Over SQLite, a frame that is refused or that only sets a name leaves the history of every
  room, the broadcast queue and the broker queue as they were.
\<close>

theorem read_loop_rejects:
  assumes "hub_reachable (sqlite_repository env) X (sqlite_inv env) h"
    and "readMessages_body (sqlite_repository env) X now c client msg h = (ReadNext, h')"
  shows "sqlite_history env (h_database h') = sqlite_history env (h_database h) \<and>
    h_broadcast h' = h_broadcast h \<and> h_brokerPublish h' = h_brokerPublish h"
  using sqlite_hub.read_rejected_history [OF hub_invD(1) [OF sqlite_hub.hub_inv_reachable [OF assms(1)]] assms(2)]
    read_frame [OF assms(2)] by simp

theorem read_loop_rejects_witness:
  "\<exists>h'. readMessages_body (sqlite_repository sample_sqlite_env) sample_rate (utc 9) 7 sample_client
      (sample_frame\<lparr>m_Type := ''username''\<rparr>) (joined_hub sample_db) = (ReadNext, h') \<and>
    MessagesRejected (h_metrics h') ''identity_override'' = 1 \<and>
    sqlite_history sample_sqlite_env (h_database h') = sqlite_history sample_sqlite_env sample_db"
proof -
  obtain h' where b: "readMessages_body (sqlite_repository sample_sqlite_env) sample_rate (utc 9) 7 sample_client
      (sample_frame\<lparr>m_Type := ''username''\<rparr>) (joined_hub sample_db) = (ReadNext, h')"
    "MessagesRejected (h_metrics h') ''identity_override'' = 1" using sample_frame_override by blast
  have j: "h_database (joined_hub sample_db) = sample_db" by (simp add: joined_hub_def start_hub_def newHub_def set_phase_def)
  show ?thesis
    using read_loop_rejects [OF joined_reachable [where invar = "sqlite_inv sample_sqlite_env", OF sample_db_inv] b(1)] b j by auto
qed

text \<open>
  C6: When saving an accepted frame fails, the identifier and the time the frame itself claimed stay
  in the published message: with a positive claimed identifier and a claimed time the message passes
  the not-persisted guard and an event with that identifier is queued for the other instances.
\<close>

theorem unsaved_message_keeps_claimed_stamp:
  assumes "readMessages_body R X now c client msg h = (ReadPublishes m, h')"
    and "SaveMessageForUserInRoomContext R (h_database h) (Client_room client) (c_UserID client) (c_Username client)
           (TrimSpace (m_Content msg)) ''message'' = (Inl err, s)"
    and "0 < m_ID msg" "\<not> IsZero (m_Timestamp msg)" "\<not> h_done h'" "length (h_broadcast h') < broadcastQueueSize"
    and "h_fanout h'" "h_brokerPublish h' = Some q" "length q < brokerQueueSize"
    and "New eventID (Client_room client) (h_instanceID h')
           \<lparr>em_ID = m_ID msg, em_UserID = c_UserID client, em_Username = c_Username client,
            em_Content = TrimSpace (m_Content msg), em_Type = ''message''\<rparr> (m_Timestamp msg) = Inr event"
  shows "\<exists>h2. readMessages_iteration R X now pick eventID c client msg h = Some (True, h2) \<and>
    h_brokerPublish h2 = Some (q @ [event]) \<and> em_ID (env_Message event) = m_ID msg"
proof -
  have st: "m_ID m = m_ID msg" "m_Timestamp m = m_Timestamp msg" using read_stamp [OF assms(1,2)] by simp_all
  have ev: "em_ID (env_Message event) = m_ID msg" using New_ok [OF assms(10)] by simp
  show ?thesis using assms st ev read_publishes [OF assms(1)]
    by (simp add: readMessages_iteration_def publishContext_def queueBrokerMessage_def)
qed

theorem unsaved_message_keeps_claimed_stamp_witness:
  "\<exists>h2 event. readMessages_iteration (postgres_repository sample_pg_env) sample_rate (utc 9) True ''event_1'' 7 sample_client
      sample_frame broken_hub = Some (True, h2) \<and> h_brokerPublish h2 = Some [event] \<and> em_ID (env_Message event) = 99"
proof -
  obtain m h' where b: "readMessages_body (postgres_repository sample_pg_env) sample_rate (utc 9) 7 sample_client sample_frame
      broken_hub = (ReadPublishes m, h')"
    and h': "\<not> h_done h'" "h_broadcast h' = []" "h_fanout h'" "h_brokerPublish h' = Some []" "h_instanceID h' = ''node-a''"
    using broken_hub_reads by blast
  obtain event where e: "New ''event_1'' (Client_room sample_client) (h_instanceID h')
      \<lparr>em_ID = m_ID sample_frame, em_UserID = c_UserID sample_client, em_Username = c_Username sample_client,
       em_Content = TrimSpace (m_Content sample_frame), em_Type = ''message''\<rparr> (m_Timestamp sample_frame) = Inr event"
    using sample_forged_event h'(5) by auto
  have f: "0 < m_ID sample_frame" "\<not> IsZero (m_Timestamp sample_frame)" "m_ID sample_frame = 99"
    by (simp_all add: sample_frame_def utc_def IsZero_def)
  have s: "length (h_broadcast h') < broadcastQueueSize" "length ([]::Envelope list) < brokerQueueSize"
    using h'(2) by (simp_all add: broadcastQueueSize_def brokerQueueSize_def outboundQueueSize_def)
  show ?thesis
    using unsaved_message_keeps_claimed_stamp [where pick = True, OF b broken_hub_save f(1,2) h'(1) s(1) h'(3,4) s(2) e] f(3) by auto
qed

text \<open>
  C7: Along every run of the hub a registered connection stays in the store with the same session
  identifier, user identifier, room and expiry, and an authenticated one keeps its name: no frame
  and no interleaving changes who it speaks for.
\<close>

theorem principal_immutable:
  assumes "(hub_step R X invar)\<^sup>*\<^sup>* h h'" "h_heap h c = Some C"
  shows "\<exists>D. h_heap h' c = Some D \<and> c_ID D = c_ID C \<and> c_UserID D = c_UserID C \<and> c_Room D = c_Room C \<and>
    c_Authenticated D = c_Authenticated C \<and> c_AuthExpiresAt D = c_AuthExpiresAt C \<and>
    (c_Authenticated C \<longrightarrow> c_Username D = c_Username C)"
  using hub_run_keeps_clients [OF assms(1)] assms(2) by (fastforce simp: keeps_clients_def same_principal_def)

theorem principal_immutable_witness:
  "\<exists>h' D. (hub_step (sqlite_repository sample_sqlite_env) sample_rate (sqlite_inv sample_sqlite_env))\<^sup>*\<^sup>*
      (joined_hub sample_db) h' \<and> h_drain h' \<noteq> DrainIdle \<and> h_heap h' 7 = Some D \<and> c_Username D = ''Ada''"
proof -
  have st: "(hub_step (sqlite_repository sample_sqlite_env) sample_rate (sqlite_inv sample_sqlite_env))\<^sup>*\<^sup>*
      (joined_hub sample_db) (draining_hub sample_db)" using draining_step_from_joined by (rule r_into_rtranclp)
  have "h_drain (draining_hub sample_db) \<noteq> DrainIdle" by (simp add: draining_facts)
  moreover have "c_Username sample_client = ''Ada''" "c_Authenticated sample_client" by (simp_all add: sample_client_def)
  ultimately show ?thesis using principal_immutable [OF st joined_client] st by metis
qed

text \<open>
  C8: In every state the hub can reach over Postgres its broadcast queue holds at most 1024
  messages, the leave queue 256, every client's outbound queue 256, the broker queue 1024, and the
  deduplication window 4096 identifiers, with the set of seen identifiers being exactly those in the
  window; and the gauge of connected clients is exactly the number of connections that serveWs has
  counted in and whose read loop has not yet counted them out, which it does before the client is
  unregistered; so the gauge is never negative.
\<close>

theorem hub_queues_bounded:
  assumes "hub_reachable (postgres_repository env) X (pg_inv env) h"
  shows "length (h_broadcast h) \<le> 1024 \<and> length (h_leaveQueue h) \<le> 256 \<and> length (h_seenEventIDs h) \<le> 4096 \<and>
    h_seenEvents h = set (h_seenEventIDs h) \<and> (\<forall>c C. h_heap h c = Some C \<longrightarrow> length (c_send C) \<le> 256) \<and>
    (\<forall>q. h_brokerPublish h = Some q \<longrightarrow> length q \<le> 1024) \<and>
    ConnectedClients (h_metrics h) = int (card {c. \<exists>m. h_phase h c \<in> {Some Reading, Some (ReadPublish m), Some Leaving}})"
proof -
  have "{c. \<exists>m. h_phase h c \<in> {Some Reading, Some (ReadPublish m), Some Leaving}} = serving h"
    unfolding serving_def served_iff by simp
  then show ?thesis using pg_hub.reachable_bounds [OF assms] gauge_ok_reachable [OF assms] unfolding gauge_ok_def by metis
qed

theorem hub_queues_bounded_witness:
  "h_seenEvents (draining_hub sample_pg) = set (h_seenEventIDs (draining_hub sample_pg))"
  using hub_queues_bounded [OF draining_reachable [where invar = "pg_inv sample_pg_env" and
      R = "postgres_repository sample_pg_env", OF sample_pg_inv]] by blast

text \<open>
  C9: The broker deduplication is a window of the last 4096 distinct identifiers: after an event is
  first accepted, a redelivery of it is accepted again exactly when at least 4096 other events were
  accepted in between.
\<close>

theorem dedup_window:
  assumes "hub_reachable (sqlite_repository env) X (sqlite_inv env) h"
    and "rememberBrokerEvent e h = (True, h1)" "e \<notin> set es" "remember_all es h1 = (bs, h2)"
  shows "fst (rememberBrokerEvent e h2) \<longleftrightarrow> 4096 \<le> count_list bs True"
  using remember_again [OF sqlite_hub.reachable_seen [OF assms(1)] assms(2-4)] by (simp add: maxSeenBrokerEvents_def)

theorem dedup_window_witness:
  "\<exists>h1 h2. rememberBrokerEvent ''e1'' (joined_hub sample_db) = (True, h1) \<and>
     remember_all [''e2'', ''e3'', ''e2''] h1 = ([True, True, False], h2) \<and> \<not> fst (rememberBrokerEvent ''e1'' h2)"
proof -
  obtain h1 where r: "rememberBrokerEvent ''e1'' (joined_hub sample_db) = (True, h1)"
      "h_seenEvents h1 = {''e1''}" "h_seenEventIDs h1 = [''e1'']"
    by (simp add: rememberBrokerEvent_def joined_hub_def start_hub_def newHub_def set_phase_def maxSeenBrokerEvents_def)
  obtain h2 where a: "remember_all [''e2'', ''e3'', ''e2''] h1 = ([True, True, False], h2)"
    using r(2,3) by (simp add: rememberBrokerEvent_def maxSeenBrokerEvents_def Let_def)
  have "\<not> fst (rememberBrokerEvent ''e1'' h2)"
    using dedup_window [OF joined_reachable [where invar = "sqlite_inv sample_sqlite_env", OF sample_db_inv] r(1) _ a] by simp
  then show ?thesis using r(1) a by blast
qed

text \<open>
  C10: A client that connects to a room over a Postgres database that does not fail is sent the
  newest fifty messages of that room, oldest first, followed by the greeting, as long as its queue
  has room for them.
\<close>

theorem history_on_connect:
  assumes "pg_inv env db" "pg_quiet db" "canonical_room (c_Room C)" "\<not> c_done C" "length (c_send C) + 51 \<le> 256"
  shows "sendMessageHistory (postgres_repository env) db C = C\<lparr>c_send := c_send C @
    map message_of_row (lastn 50 (pg_history env db (c_Room C))) @ [welcome_message (c_Room C)]\<rparr>"
  using pg_hub.sendMessageHistory_eq [OF assms(1-4)] assms(5) by (simp add: outboundQueueSize_def)

theorem history_on_connect_witness:
  "c_send (sendMessageHistory (postgres_repository sample_pg_env) sample_pg sample_client) =
     map message_of_row (lastn 50 (pg_history sample_pg_env sample_pg ''lobby'')) @ [welcome_message ''lobby'']"
proof -
  have "canonical_room (c_Room sample_client)" "\<not> c_done sample_client" "length (c_send sample_client) + 51 \<le> 256"
    by (simp_all add: sample_client_def)
  from history_on_connect [OF sample_pg_inv sample_pg_quiet this] show ?thesis by (simp add: sample_client_def)
qed

section \<open>History pages and storage\<close>

text \<open>
  C11: On the SQLite backend, a client that asks for the newest page of a room and follows every
  next_cursor reads the room's whole durable history, each message once and in order, with any page
  size from 1 to 100, and the walk ends within as many requests as there are messages plus one.
\<close>

theorem sqlite_history_walk:
  assumes "sqlite_inv env db" "sqlite_quiet db" "canonical_room room"
    and "Service_Authorize L so clk base room = Inr viewer" and "1 \<le> n" "n \<le> 100"
    and "\<forall>m \<in> set (sqlite_history env db room). cursor_codec_ok J (cursor_of room m)"
    and "length (sqlite_history env db room) < fuel"
  shows "walk_history fuel (messagesHandler (sqlite_repository env) db J L so clk) base room n None =
      Some (sqlite_history env db room) \<and> distinct (map db_ID (sqlite_history env db room))"
  using sqlite_pages.walk_complete [OF assms(1-6) _ assms(8), of J] assms(7)
    sqlite_history_distinct [OF assms(1)] by blast

theorem sqlite_history_walk_witness:
  "walk_history 4 (messagesHandler (sqlite_repository sample_sqlite_env) sample_db sample_codec sample_auth_lib None
      sample_now) sample_request ''lobby'' 2 None = Some (sqlite_history sample_sqlite_env sample_db ''lobby'') \<and>
    map db_ID (sqlite_history sample_sqlite_env sample_db ''lobby'') = [4, 1, 3]"
proof -
  have h: "map db_ID (sqlite_history sample_sqlite_env sample_db ''lobby'') = [4, 1, 3]" by code_simp
  have "\<forall>m \<in> set (sqlite_history sample_sqlite_env sample_db ''lobby''). cursor_codec_ok sample_codec (cursor_of ''lobby'' m)"
    by code_simp
  moreover have "length (sqlite_history sample_sqlite_env sample_db ''lobby'') < 4"
    by code_simp
  ultimately show ?thesis
    using sqlite_history_walk [OF sample_db_inv sample_db_quiet canonical_samples(1)
        authorize_anonymous [of "''lobby''" sample_auth_lib sample_now sample_request], of 2 sample_codec 4] h by simp
qed

text \<open>
  C12: The walk over the Postgres backend ends: any bound above the number of the room's messages is
  enough requests for it, and it then returns the room's whole history, each message once and in
  order.
\<close>

theorem postgres_history_walk:
  assumes "pg_inv env db" "pg_quiet db" "canonical_room room"
    and "Service_Authorize L so clk base room = Inr viewer" and "1 \<le> n" "n \<le> 100"
    and "\<forall>m \<in> set (pg_history env db room). cursor_codec_ok J (cursor_of room m)"
    and "length (pg_history env db room) < fuel"
  shows "walk_history fuel (messagesHandler (postgres_repository env) db J L so clk) base room n None =
      Some (pg_history env db room) \<and> distinct (map db_ID (pg_history env db room))"
  using pg_pages.walk_complete [OF assms(1-6) _ assms(8), of J] assms(7)
    pg_history_distinct [OF assms(1)] by blast

theorem postgres_history_walk_witness:
  "walk_history 4 (messagesHandler (postgres_repository sample_pg_env) sample_pg sample_codec sample_auth_lib None
      sample_now) sample_request ''lobby'' 1 None = Some (pg_history sample_pg_env sample_pg ''lobby'') \<and>
    map db_ID (pg_history sample_pg_env sample_pg ''lobby'') = [7, 1, 5]"
proof -
  have h: "map db_ID (pg_history sample_pg_env sample_pg ''lobby'') = [7, 1, 5]" by code_simp
  have "\<forall>m \<in> set (pg_history sample_pg_env sample_pg ''lobby''). cursor_codec_ok sample_codec (cursor_of ''lobby'' m)"
    by code_simp
  moreover have "length (pg_history sample_pg_env sample_pg ''lobby'') < 4" by code_simp
  ultimately show ?thesis
    using postgres_history_walk [OF sample_pg_inv sample_pg_quiet canonical_samples(1)
        authorize_anonymous [of "''lobby''" sample_auth_lib sample_now sample_request], of 1 sample_codec 4] h by simp
qed

text \<open>
  C13: Whatever the SQLite driver does and whatever the request holds, a history page that is served
  was authorized for the room it names, holds at most limit messages with limit between 1 and 100,
  and only messages of that room's durable history, strictly ordered by position.
\<close>

theorem sqlite_page_sound:
  assumes "sqlite_inv env db"
    and "w_body (messagesHandler (sqlite_repository env) db J L so clk w r) = Some (HistoryBody room ms n hasMore nxt viewer)"
  shows "Service_Authorize L so clk r room = Inr viewer \<and> int (length ms) \<le> n \<and> 1 \<le> n \<and> n \<le> 100 \<and>
    set ms \<subseteq> set (sqlite_history env db room) \<and> (\<forall>m \<in> set ms. db_Room m = room) \<and>
    sorted_wrt (\<lambda>a b. message_pos (sqlite_stamp env) a < message_pos (sqlite_stamp env) b) ms"
  using sqlite_pages.page_sound(2-4) [OF assms] sqlite_pages.page_rows [OF assms] by blast

theorem sqlite_page_sound_witness:
  "int (length (lastn 2 (sqlite_history sample_sqlite_env sample_db ''lobby''))) \<le> 2 \<and>
   list_all (\<lambda>m. db_Room m = ''lobby'') (lastn 2 (sqlite_history sample_sqlite_env sample_db ''lobby''))"
proof -
  let ?r = "page_request sample_request ''lobby'' 2 None"
  have "\<exists>c. w_body (messagesHandler (sqlite_repository sample_sqlite_env) sample_db sample_codec sample_auth_lib None sample_now new_writer ?r) =
      Some (HistoryBody ''lobby'' (lastn 2 (sqlite_history sample_sqlite_env sample_db ''lobby'')) 2 True c anonymous_principal)"
    using sqlite_sample_page by blast
  then show ?thesis
    using sqlite_page_sound [OF sample_db_inv, of sample_codec sample_auth_lib None sample_now new_writer ?r "''lobby''"]
    by (auto simp: list_all_iff)
qed

text \<open>
  C14: Every outcome of a save on SQLite: the table invariant is kept and no other room's history
  changes. A message that is accepted is in the normalized room and carries what it was given; it
  becomes exactly one more message of that room's history, with an identifier above every stored
  one, except that a message of the handshake type username is answered without touching the
  database. A save that reports an error has changed nothing, or has stored one such message whose
  identifier the driver failed to report.
\<close>

theorem sqlite_save_message:
  assumes inv: "sqlite_inv env db" and save: "DB_SaveMessageForUserInRoomContext env db room u n c t = (res, db')"
  shows "sqlite_inv env db' \<and> (\<forall>rm. NormalizeRoom room \<noteq> Inr rm \<longrightarrow> sqlite_history env db' rm = sqlite_history env db rm) \<and>
    (case res of
       Inr m \<Rightarrow> NormalizeRoom room = Inr (db_Room m) \<and> db_UserID m = u \<and> db_Username m = n \<and> db_Content m = c \<and> db_Type m = t \<and>
         (if t = ''username'' then db' = db
          else set (sqlite_history env db' (db_Room m)) = insert m (set (sqlite_history env db (db_Room m))) \<and>
            (\<forall>rm. \<forall>x \<in> set (sqlite_history env db rm). db_ID x < db_ID m))
     | Inl err \<Rightarrow> db' = db \<or>
         (\<exists>m. NormalizeRoom room = Inr (db_Room m) \<and>
            set (sqlite_history env db' (db_Room m)) = insert m (set (sqlite_history env db (db_Room m))) \<and>
            (\<forall>rm. \<forall>x \<in> set (sqlite_history env db rm). db_ID x < db_ID m)))"
proof -
  have s: "SaveMessageForUserInRoomContext (sqlite_repository env) db room u n c t = (res, db')"
    using save by (simp add: sqlite_repository_def)
  note kept = sqlite_writer.save_invar [OF inv s] sqlite_writer.save_other [OF inv s]
  show ?thesis
  proof (cases res)
    case (Inl err)
    then show ?thesis using kept DB_save_fails [OF inv save [unfolded Inl]] by (auto simp: adds_message_def)
  next
    case (Inr m)
    have "db' = db" if "t = ''username''" using sqlite_writer.save_handshake [OF inv] s that by simp
    then show ?thesis
      using kept sqlite_writer.save_room [OF s [unfolded Inr]] sqlite_writer.save_adds [OF inv _ s [unfolded Inr]] Inr by auto
  qed
qed

theorem sqlite_save_message_witness:
  "\<exists>m db'. DB_SaveMessageForUserInRoomContext sample_sqlite_env sample_db ''lobby'' ''u1'' ''Ada'' ''hello'' ''message'' = (Inr m, db') \<and>
     m \<in> set (sqlite_history sample_sqlite_env db' ''lobby'') \<and>
     sqlite_history sample_sqlite_env db' ''den'' = sqlite_history sample_sqlite_env sample_db ''den''"
proof -
  obtain m db' where s: "DB_SaveMessageForUserInRoomContext sample_sqlite_env sample_db ''lobby'' ''u1'' ''Ada'' ''hello'' ''message'' =
      (Inr m, db')"
    using sqlite_sample_save by blast
  note a = sqlite_save_message [OF sample_db_inv s]
  have l: "NormalizeRoom ''lobby'' = Inr ''lobby''" by (simp add: NormalizeRoom_canonical_id)
  then have "db_Room m = ''lobby''" using a by simp
  then show ?thesis using a s l by auto
qed

text \<open>
  C15: A retention pass over SQLite that reports success removes, in every room, exactly the
  messages whose time the engine orders before the cutoff (julianday of both), reports how many rows
  it deleted, keeps every message that is not older than the cutoff, and keeps the table invariant;
  the cutoff is a time the database can store.
\<close>

theorem sqlite_retention:
  assumes "sqlite_inv env db" "db_range cutoff" "DB_PruneMessagesBeforeContext env db cutoff = (Inr k, db')"
  shows "sqlite_inv env db' \<and> set (messages db') \<subseteq> set (messages db) \<and>
    k = int (length (messages db)) - int (length (messages db')) \<and>
    (\<forall>room. sqlite_history env db' room =
       filter (\<lambda>m. \<not> sqlite_stamp env (db_Timestamp m) < sqlite_stamp env (time_UTC cutoff)) (sqlite_history env db room)) \<and>
    (\<forall>r t. r \<in> set (messages db) \<longrightarrow> r_timestamp r = bind_time env t \<longrightarrow> db_range t \<longrightarrow> instant cutoff \<le> instant t \<longrightarrow>
       r \<in> set (messages db'))"
proof -
  note p = DB_prune_result [OF assms(3)]
  have "sqlite_env_ok env" using assms(1) by (simp add: sqlite_inv_def)
  then have keep: "r \<in> set (messages db')"
    if "r \<in> set (messages db)" "r_timestamp r = bind_time env t" "db_range t" "instant cutoff \<le> instant t" for r t
    using p prune_keeps_recent [of env cutoff t r] assms(2) that by simp
  then show ?thesis using p DB_prune_inv [OF assms(1,3)] DB_prune_history [OF assms] by (auto simp: not_less)
qed

theorem sqlite_retention_witness:
  "sqlite_inv sample_sqlite_env (snd (DB_PruneMessagesBeforeContext sample_sqlite_env sample_db (utc 5))) \<and>
   fst (DB_PruneMessagesBeforeContext sample_sqlite_env sample_db (utc 5)) = Inr 1 \<and>
   length (messages (snd (DB_PruneMessagesBeforeContext sample_sqlite_env sample_db (utc 5)))) + 1 = length (messages sample_db)"
proof -
  let ?db = "snd (DB_PruneMessagesBeforeContext sample_sqlite_env sample_db (utc 5))"
  have f: "fst (DB_PruneMessagesBeforeContext sample_sqlite_env sample_db (utc 5)) = Inr 1" by code_simp
  then have p: "DB_PruneMessagesBeforeContext sample_sqlite_env sample_db (utc 5) = (Inr 1, ?db)" by (metis prod.collapse)
  have "db_range (utc 5)" by code_simp
  from sqlite_retention [OF sample_db_inv this p] show ?thesis using f by simp
qed

section \<open>Upgrades\<close>





section \<open>Draining\<close>

text \<open>
  C18: Once a drain has begun it is never left: in every later state the hub has no registered
  client and a new registration is refused without changing the hub.
\<close>

theorem drain_admits_nobody:
  assumes "hub_reachable (sqlite_repository env) X (sqlite_inv env) h" "h_draining h"
    and "(hub_step (sqlite_repository env) X (sqlite_inv env))\<^sup>*\<^sup>* h h'"
  shows "h_draining h' \<and> h_clients h' = {} \<and> register_locked c h' = (False, h')"
  using sqlite_hub.reachable_draining [OF assms] by (simp add: register_locked_def)

theorem drain_admits_nobody_witness:
  "register_locked 8 (draining_hub sample_db) = (False, draining_hub sample_db)"
  using drain_admits_nobody [OF draining_reachable [where invar = "sqlite_inv sample_sqlite_env" and
      R = "sqlite_repository sample_sqlite_env", OF sample_db_inv] draining_facts(1) rtranclp.rtrancl_refl] by blast

text \<open>
  C19: A client goroutine that reports its end never blocks: in every reachable state, draining or
  not, notifyClientFinished returns, because the buffer of drain events always has room for every
  client still pending.
\<close>

theorem finish_never_blocks:
  assumes "hub_reachable (postgres_repository env) X (pg_inv env) h"
  shows "\<exists>h'. notifyClientFinished c h = Some h'"
  by (rule pg_hub.reachable_finish [OF assms])

theorem finish_never_blocks_witness:
  "\<exists>h'. notifyClientFinished 7 (draining_hub sample_pg) = Some h'"
  by (rule finish_never_blocks [OF draining_reachable [where invar = "pg_inv sample_pg_env" and
      R = "postgres_repository sample_pg_env", OF sample_pg_inv]])



text \<open>
  C21: How the process ends after a signal: once Shutdown has answered, every later call answers the
  same, the hub is stopped and no client is registered; if the run loop had been started before
  drain came to check for it, that is in a state in which Shutdown was still to answer, it has
  ended. The process exits with code 0 only when both shutdowns succeeded, then every client the
  drain waited for has reported its end, and the fan-out, the storage and the tracer are closed in
  this order; after a failed shutdown it exits with code 1 and none of the deferred calls runs.
\<close>

theorem main_stops_cleanly:
  assumes "hub_reachable (sqlite_repository env) X (sqlite_inv env) h0"
    and "(hub_step (sqlite_repository env) X (sqlite_inv env))\<^sup>*\<^sup>* h0 h" "Shutdown order h = (Some hubErr, h1)"
    and "(hub_step (sqlite_repository env) X (sqlite_inv env))\<^sup>*\<^sup>* h h'"
    and "main_end listened (Some (hubErr, serverErr)) run = Some (code, calls)"
  shows "Shutdown order' h' = (Some hubErr, h') \<and> h_done h' \<and> h_clients h' = {} \<and>
    (fst (Shutdown order h0) = None \<and> h_runStarted h0 \<longrightarrow> h_runDone h') \<and>
    (if code = 0
     then hubErr = None \<and> serverErr = None \<and> h_drainPending h' = {} \<and>
       calls = (if rn_fanout run = None then [] else [CloseFanout]) @ [CloseRepository, FlushTelemetry]
     else code = 1 \<and> calls = [])"
proof -
  note h = reachable_run [OF assms(2,1)] and run = rtranclp_trans [OF assms(2,4)]
  note a = sqlite_hub.shutdown_answered [OF h assms(3,4)]
  have "h_runDone h'" if "fst (Shutdown order h0) = None" "h_runStarted h0"
    using sqlite_hub.shutdown_awaits_run [OF run that a(2)] .
  then show ?thesis using a(2-4) main_end_cases [OF assms(5)] by (auto simp: main_deferred_def)
qed

theorem main_stops_cleanly_witness:
  "\<exists>(run :: (unit, DB) running) schema' calls.
     main_start (sample_start sample_numbers) empty_schema sample_redis_metrics = (Inr run, schema') \<and>
     main_end (Some ServerClosed) (Some (None :: ctx_error option, None)) run = Some (0, calls) \<and> last calls = FlushTelemetry \<and>
     Shutdown [] (drained_hub sample_db) = (Some None, drained_hub sample_db) \<and> h_drainPending (drained_hub sample_db) = {} \<and>
     fst (Shutdown [] (waiting_hub sample_db)) = None \<and> h_runStarted (waiting_hub sample_db) \<and> h_runDone (drained_hub sample_db)"
proof -
  obtain run :: "(unit, DB) running" and schema' where
    r: "main_start (sample_start sample_numbers) empty_schema sample_redis_metrics = (Inr run, schema')" using sample_main by blast
  have e: "main_end (Some ServerClosed) (Some (None :: ctx_error option, None)) run = Some (0, main_deferred run)"
    by (simp add: main_end_def shutdownServer_def)
  have s: "Shutdown [] (drained_hub sample_db) = (Some None, drained_hub sample_db)" by (simp add: Shutdown_def drained_hub_def)
  have w: "fst (Shutdown [] (waiting_hub sample_db)) = None" "h_runStarted (waiting_hub sample_db)"
    using waiting_facts [of sample_db] by (simp_all add: Shutdown_def)
  have h: "hub_reachable (sqlite_repository sample_sqlite_env) sample_rate (sqlite_inv sample_sqlite_env) (waiting_hub sample_db)"
    by (rule waiting_reachable [where invar = "sqlite_inv sample_sqlite_env", OF sample_db_inv])
  have "last (main_deferred run) = FlushTelemetry \<and> h_drainPending (drained_hub sample_db) = {} \<and> h_runDone (drained_hub sample_db)"
    using main_stops_cleanly [OF h drained_run s rtranclp.rtrancl_refl e] w by (simp split: if_splits)
  then show ?thesis using r e s w by blast
qed

text \<open>
  C22: A client that has been removed from the hub before it reports its end keeps its entry in the
  finished map for ever: no step of any run removes it, so the map grows with every connection.
\<close>

theorem departed_entry_kept:
  assumes "c \<notin> h_clients h" "h_heap h c \<noteq> None" "notifyClientFinished c h = Some h1"
    and "(hub_step R X invar)\<^sup>*\<^sup>* h1 h'"
  shows "c \<in> h_finished h'"
  using departed_run [OF assms(4) notifyClientFinished_departs [OF assms(3,1,2)]] by (simp add: departed_def)

theorem departed_entry_kept_witness:
  "\<exists>h1. notifyClientFinished 7 (disconnectClientLocked 7 (joined_hub sample_db)) = Some h1 \<and> 7 \<in> h_finished h1"
proof -
  let ?h = "disconnectClientLocked 7 (joined_hub sample_db)"
  have h: "7 \<notin> h_clients ?h" "h_heap ?h 7 \<noteq> None" by simp_all
  have "h_draining ?h = False" by (simp add: joined_hub_def start_hub_def newHub_def set_phase_def)
  then obtain h1 where h1: "notifyClientFinished 7 ?h = Some h1" by (simp add: notifyClientFinished_def Let_def)
  then show ?thesis
    using departed_entry_kept [OF h h1, of "sqlite_repository sample_sqlite_env" sample_rate "sqlite_inv sample_sqlite_env" h1]
    by simp
qed

section \<open>Fan-out and startup\<close>

text \<open>
  C23: Fan-out between instances, end to end: a message a hub publishes and queues for the broker
  passes every check of Publish from any reachable state that still holds its event; when encoding
  and sending succeed, another instance of the same namespace that receives it broadcasts that same
  message, its time in UTC, provided it is not draining or stopped, has room in its queue and has
  not seen the event.
\<close>

theorem cross_instance_delivery:
  assumes "publishContext pick eventID m h = Some (True, h')" "h_brokerPublish h = Some q" "h_brokerPublish h' = Some (q @ [event])"
    and "hub_reachable (sqlite_repository env) X (sqlite_inv env) h1" "h_brokerPublish h1 = Some q1" "event \<in> set q1"
    and "rf_instanceID b = h_instanceID h1" "normalizeToken (rf_namespace b) = Inr ns" "rf_namespace b2 = rf_namespace b"
    and "marshal_event L event = Some payload" "unmarshal_event L payload = Some event"
    and "hub_reachable (sqlite_repository env2) X2 (sqlite_inv env2) h2" "h_instanceID h2 \<noteq> h_instanceID h"
    and "eventID \<notin> set (h_seenEventIDs h2)" "\<not> h_draining h2" "\<not> h_done h2" "length (h_broadcast h2) < 1024"
  shows "\<exists>channel. fst (Publish L True b event M) = Inr (channel, payload) \<and>
    h_broadcast (fst (runBrokerSubscriber L
        [\<lparr>at_subscribed = True, at_received = [RecvMessage channel payload], at_ctxDone = False, at_timer = False\<rparr>] pick2 b2 M2 h2)) =
      h_broadcast h2 @ [m\<lparr>m_Timestamp := time_UTC (m_Timestamp m)\<rparr>]"
proof -
  let ?c = "channel_prefix ns @ env_Room event"
  have p: "fst (Publish L True b event M) = Inr (?c, payload)"
    by (rule queued_event_publishes [OF sqlite_hub.hub_inv_reachable [OF assms(4)] assms(5-8,10)])
  then obtain M' where "Publish L True b event M = (Inr (?c, payload), M')" by (metis fst_conv prod.exhaust)
  from Publish_ok [OF this] have d: "decode_event L b2 ?c payload = Some event"
    unfolding decode_event_ok using assms(9,11) by simp
  note e = publishContext_event [OF assms(1-3)]
  have "h_broadcast (handleRemoteEvent pick2 event h2) = h_broadcast h2 @ [message_of_event event]"
    using handleRemoteEvent_broadcast [OF sqlite_hub.reachable_seen [OF assms(12)]] assms(13-17) e
    by (simp add: broadcastQueueSize_def)
  moreover have "fst (runBrokerSubscriber L [\<lparr>at_subscribed = True, at_received = [RecvMessage ?c payload], at_ctxDone = False,
      at_timer = False\<rparr>] pick2 b2 M2 h2) = handleRemoteEvent pick2 event h2"
    by (rule runBrokerSubscriber_one [OF d _ refl]) (simp add: assms(8,9))
  ultimately show ?thesis using p e by (intro exI [of _ ?c]) simp
qed

theorem cross_instance_delivery_witness:
  "\<exists>channel. fst (Publish sample_broker_lib True sample_fanout sample_queued sample_redis_metrics) = Inr (channel, ''{}'') \<and>
     h_broadcast (fst (runBrokerSubscriber sample_broker_lib
         [\<lparr>at_subscribed = True, at_received = [RecvMessage channel ''{}''], at_ctxDone = False, at_timer = False\<rparr>] True
         sample_peer sample_redis_metrics (start_hub_of sample_db (Some sample_peer) :: (unit, DB) Hub))) = [sample_saved]"
proof -
  obtain h h' :: "(unit, DB) Hub" and h1 where h: "publishContext True ''event_1'' sample_saved h = Some (True, h')" "h_brokerPublish h = Some []"
      "h_brokerPublish h' = Some [sample_queued]"
      "hub_reachable (sqlite_repository sample_sqlite_env) sample_rate (sqlite_inv sample_sqlite_env) h1"
      "h_brokerPublish h1 = Some [sample_queued]" "h_instanceID h1 = ''node-a''" using sample_publishing by blast
  have a: "h_instanceID h = ''node-a''"
    using publishContext_event [OF h(1,2), of sample_queued] h(3) by (simp add: sample_queued_def)
  have l: "marshal_event sample_broker_lib sample_queued = Some ''{}''"
    "unmarshal_event sample_broker_lib ''{}'' = Some sample_queued" by (simp_all add: sample_broker_lib_def)
  have f: "rf_instanceID sample_fanout = h_instanceID h1" "normalizeToken (rf_namespace sample_fanout) = Inr ''node-a''"
    "rf_namespace sample_peer = rf_namespace sample_fanout"
    using h(6) sample_token by (simp_all add: sample_fanout_def sample_peer_def)
  have r2: "hub_reachable (sqlite_repository sample_sqlite_env) sample_rate (sqlite_inv sample_sqlite_env)
      (start_hub_of sample_db (Some sample_peer))"
    by (rule start_hub_reachable [where invar = "sqlite_inv sample_sqlite_env", OF sample_db_inv])
  have t: "time_UTC (m_Timestamp sample_saved) = m_Timestamp sample_saved" by (simp add: sample_saved_def utc_def time_UTC_def)
  show ?thesis
    using cross_instance_delivery [OF h(1,2) _ h(4,5) list.set_intros(1) f l r2] h(3) a sample_peer_hub [of sample_db] t
    by simp
qed

text \<open>
  C24: Several instances over one Postgres database and one Redis that may lose, repeat, delay and
  reorder: every message in an instance's broadcast queue was published by one of its own goroutines
  or comes from an event it let through; such an event was queued by another instance of the same
  namespace for the same room, out of a message that instance had published itself; and no event
  identifier is let through twice within 4096 events.
\<close>

theorem cluster_authentic:
  assumes "cluster_reachable (postgres_repository env) X (pg_inv env) L B s" "json_keeps_origin L"
  shows "set (h_broadcast (cl_hub s i)) \<subseteq> set (cl_said s i) \<union> message_of_event ` set (cl_got s i) \<and>
    (\<forall>event \<in> set (cl_got s i). \<exists>j e m. j \<noteq> i \<and> e \<in> set (cl_sent s j) \<and> m \<in> set (cl_said s j) \<and>
       message_of_event e = in_UTC m \<and> carried L (B j) (B i) e event \<and> env_Room event = m_Room m \<and>
       normalizeToken (rf_namespace (B i)) = normalizeToken (rf_namespace (B j))) \<and>
    distinct (take 4096 (drop k (map env_EventID (cl_got s i))))"
proof -
  have "\<exists>j e m. j \<noteq> i \<and> e \<in> set (cl_sent s j) \<and> m \<in> set (cl_said s j) \<and> message_of_event e = in_UTC m \<and>
      carried L (B j) (B i) e event \<and> env_Room event = m_Room m \<and>
      normalizeToken (rf_namespace (B i)) = normalizeToken (rf_namespace (B j))" if got: "event \<in> set (cl_got s i)" for event
  proof -
    obtain j e m where "j \<noteq> i" "e \<in> set (cl_sent s j)" "carried L (B j) (B i) e event" "m \<in> set (cl_said s j)"
      "message_of_event e = in_UTC m" "env_Room event = env_Room e"
      "normalizeToken (rf_namespace (B i)) = normalizeToken (rf_namespace (B j))"
      by (rule pg_hub.cluster_remote [OF assms got])
    moreover from this have "env_Room event = m_Room m" using carried_message_room by simp
    ultimately show ?thesis by blast
  qed
  then show ?thesis using pg_hub.cluster_queue [OF assms(1)] by blast
qed

theorem cluster_authentic_witness:
  "\<exists>(s :: (unit, PostgresDB) Cluster) j e m. cl_got s 1 = [sample_queued] \<and> h_broadcast (cl_hub s 1) = [message_of_event sample_queued] \<and>
     j \<noteq> 1 \<and> e \<in> set (cl_sent s j) \<and> m \<in> set (cl_said s j) \<and> m_Room m = ''lobby'' \<and>
     carried sample_broker_lib (sample_instances j) (sample_instances 1) e sample_queued"
proof -
  obtain s where s: "cluster_reachable (postgres_repository sample_pg_env) sample_rate (pg_inv sample_pg_env) sample_broker_lib
      sample_instances s" "cl_got s 1 = [sample_queued]" "h_broadcast (cl_hub s 1) = [message_of_event sample_queued]"
    using sample_cluster by blast
  have "sample_queued \<in> set (cl_got s 1)" using s(2) by simp
  with cluster_authentic [OF s(1) sample_json, of 1] obtain j e m where a: "j \<noteq> 1" "e \<in> set (cl_sent s j)" "m \<in> set (cl_said s j)"
    "carried sample_broker_lib (sample_instances j) (sample_instances 1) e sample_queued" "env_Room sample_queued = m_Room m" by blast
  have "env_Room sample_queued = ''lobby''" by (simp add: sample_queued_def)
  then have "m_Room m = ''lobby''" using a(5) by simp
  then show ?thesis using a s(2,3) by blast
qed

text \<open>
  C25: Whatever Redis delivers, however often the subscription breaks and is retried, the events
  handed to the hub are valid and arrived on the channel of their own room, the k-th wait before a
  retry is the smaller of 100 ms times 2^k and 5 s, and the hub's two broker goroutines are runs of
  its machine.
\<close>

theorem broker_is_a_run:
  assumes "Run L as b M = Inr (events, waits, returned, b', M')"
  shows "list_all (\<lambda>e. envelope_ok e \<and> (\<exists>channel payload. RecvMessage channel payload \<in> set (concat (map at_received as)) \<and>
      Channel (rf_namespace b) (env_Room e) = Inr channel \<and> unmarshal_event L payload = Some e)) events \<and>
    (\<forall>k < length waits. waits ! k = min (100000000 * 2 ^ k) 5000000000) \<and>
    (hub_step R X invar)\<^sup>*\<^sup>* h (fst (runBrokerSubscriber L as pick b M h)) \<and>
    (\<forall>res M1 h1. runBrokerPublisher L pick sendOK b M h = Some (res, M1, h1) \<longrightarrow> hub_step R X invar h h1)"
proof -
  have r: "run_loop L redisMinBackoff as b M = (events, waits, returned, b', M')"
    using assms by (simp add: Run_def split: sum.splits)
  have "list_all (delivered_by L (rf_namespace b) (concat (map at_received as))) events" by (rule run_loop_sound [OF r])
  moreover have "\<forall>k < length waits. waits ! k = min (100000000 * 2 ^ k) 5000000000"
    using run_loop_waits [OF r] by (simp add: redisMinBackoff_def redisMaxBackoff_def millisecond_def second_def)
  moreover have "(hub_step R X invar)\<^sup>*\<^sup>* h (fst (runBrokerSubscriber L as pick b M h))"
    by (rule runBrokerSubscriber_run)
  ultimately show ?thesis using runBrokerPublisher_step by (auto simp: delivered_by_def list_all_iff)
qed

theorem broker_is_a_run_witness:
  "\<exists>events waits returned b' M'. Run sample_broker_lib sample_attempts sample_fanout sample_redis_metrics =
     Inr (events, waits, returned, b', M') \<and> events = [sample_queued] \<and> waits = [100000000, 200000000] \<and>
   (hub_step (sqlite_repository sample_sqlite_env) sample_rate (sqlite_inv sample_sqlite_env))\<^sup>*\<^sup>*
     (joined_hub sample_db)
     (fst (runBrokerSubscriber sample_broker_lib sample_attempts True sample_fanout sample_redis_metrics (joined_hub sample_db)))"
proof -
  obtain returned b' M' where r: "Run sample_broker_lib sample_attempts sample_fanout sample_redis_metrics =
      Inr ([sample_queued], [100000000, 200000000], returned, b', M')" using sample_run by blast
  then show ?thesis using broker_is_a_run [OF r] by blast
qed

text \<open>
  C26: Schema migrations are safe to interrupt: after any number of starts that failed at arbitrary
  points, the SQLite schema is that of a prefix of the migrations; a start whose migrations report
  no error has recorded all six versions in order, and the two tables have exactly the columns
  listed, which include every column that the inserts, selects and deletes of the backend name; and
  a start without faults succeeds.
\<close>

theorem migrations_resume:
  fixes fs :: "(int \<Rightarrow> mig_fault) list"
  defines "S \<equiv> migration_runs (runMigrations True) fs empty_schema"
  shows "(\<exists>k \<le> 6. S = migrated migrations k) \<and>
    (\<forall>faults S'. runMigrations True faults S = (None, S') \<longrightarrow>
       map fst (sc_log S') = [1, 2, 3, 4, 5, 6] \<and>
       sc_tables S' ''messages'' = Some [''id'', ''username'', ''content'', ''type'', ''timestamp'', ''room'', ''user_id''] \<and>
       sc_tables S' ''moderation_audit_log'' =
         Some [''id'', ''session_id'', ''username'', ''reason'', ''content_preview'', ''content_length'', ''timestamp'', ''user_id''] \<and>
       list_all (serves_stmt S') [insertMessage_stmt, selectRecent_stmt, selectBefore_stmt, pruneMessages_stmt,
         insertModerationEvent_stmt, pruneModerationEvents_stmt]) \<and>
    fst (runMigrations True (\<lambda>_. MigOK) S) = None"
proof -
  have l: "length migrations = 6" by (simp add: migrations_def)
  have run: "runMigrations True = migration_loop migrate_one migrations" by (simp add: fun_eq_iff runMigrations_def)
  obtain k where k: "k \<le> 6" "S = migrated migrations k"
    using sqlite_migrator.runs_from [of 0 fs] l by (auto simp: S_def run migrated_0)
  have final: "map fst (sc_log (migrated migrations 6)) = [1, 2, 3, 4, 5, 6]"
    "sc_tables (migrated migrations 6) ''messages'' =
       Some [''id'', ''username'', ''content'', ''type'', ''timestamp'', ''room'', ''user_id'']"
    "sc_tables (migrated migrations 6) ''moderation_audit_log'' =
       Some [''id'', ''session_id'', ''username'', ''reason'', ''content_preview'', ''content_length'', ''timestamp'', ''user_id'']"
    "list_all (serves_stmt (migrated migrations 6)) [insertMessage_stmt, selectRecent_stmt, selectBefore_stmt, pruneMessages_stmt,
       insertModerationEvent_stmt, pruneModerationEvents_stmt]"
    by code_simp+
  have "S' = migrated migrations 6" if "runMigrations True faults S = (None, S')" for faults S'
    using runMigrations_from [of k True faults S'] that k l by simp
  moreover have "fst (runMigrations True (\<lambda>_. MigOK) S) = None"
    using sqlite_migrator.loop_clean [of k] k l by (simp add: run)
  moreover have "\<exists>k \<le> 6. S = migrated migrations k" using k by blast
  ultimately show ?thesis using final by (intro conjI allI impI) simp_all
qed

theorem migrations_resume_witness:
  "fst (runMigrations True (\<lambda>_. MigOK)
     (migration_runs (runMigrations True) [\<lambda>v. if v = 3 then CommitFails else MigOK, \<lambda>v. if v = 6 then SQLFails else MigOK]
       empty_schema)) = None"
  using migrations_resume [of "[\<lambda>v. if v = 3 then CommitFails else MigOK, \<lambda>v. if v = 6 then SQLFails else MigOK]"] by blast

section \<open>The server and its start\<close>

text \<open>
  C27: Whenever main gets as far as listening over SQLite, the program it has put together is sound:
  the configuration is within its bounds, session mode has allowed origins, the schema of a partly
  migrated database has been brought to the last version, the store still satisfies its invariant
  after the retention passes, the hub is a reachable state of its machine, and the fan-out, present
  exactly when a Redis URL is configured, has a valid namespace and a valid instance identifier,
  which is the hub's.
\<close>

theorem main_starts:
  assumes "main_start E schema M = (Inr run, schema')"
    and "st_repository E (rn_backend run) = (sqlite_repository env, db)" "sqlite_inv env db"
    and "rn_backend run = SQLiteBackend path" "k \<le> length migrations" "schema = migrated migrations k"
  shows "config_ok (rn_cfg run) \<and>
    (Service_Mode (Some (rn_service run)) = ModeSession \<longrightarrow> AllowedOrigins (rn_cfg run) \<noteq> []) \<and>
    schema' = migrated migrations (length migrations) \<and>
    sqlite_inv env (h_database (rn_hub run)) \<and>
    hub_reachable (sqlite_repository env) X (sqlite_inv env) (rn_hub run) \<and>
    (rn_fanout run = None \<longleftrightarrow> RedisURL (rn_cfg run) = []) \<and>
    (\<forall>b. rn_fanout run = Some b \<longrightarrow> is_ok (normalizeToken (rf_namespace b)) \<and> is_ok (normalizeToken (rf_instanceID b)) \<and>
       h_instanceID (rn_hub run) = rf_instanceID b)"
proof -
  obtain s' M' where ok: "rn_cfg run = FromEnv (st_lib E) (st_getenv E)"
    "newAuthService (st_auth E) (rn_cfg run) = Inr (rn_service run)"
    "OpenRepository (st_open E) \<lparr>st_Storage = Storage (rn_cfg run), st_SQLitePath = DBPath (rn_cfg run),
        st_PostgresDSN = PostgresDSN (rn_cfg run), st_PostgresMinConns = PostgresMinConns (rn_cfg run),
        st_PostgresMaxConns = PostgresMaxConns (rn_cfg run)\<rparr> schema = (Inr (rn_backend run), schema')"
    "retention (sqlite_repository env) (rn_cfg run) (st_now E) db = (None, s')"
    "start_fanout (st_broker E) (st_pingOK E) (st_newID E) (rn_cfg run) M = (Inr (rn_fanout run), M')"
    "rn_hub run = start_hub_of s' (rn_fanout run)"
    by (rule main_start_ok [OF assms(1)]) (auto simp: assms(2))
  have inv: "sqlite_inv env s'" using sqlite_pruned.retention_inv [OF assms(3), of "rn_cfg run" "st_now E"] ok(4) by simp
  have "h_database (rn_hub run) = s'" unfolding ok(6) by (simp add: start_hub_of_def startBroker_def newHub_def)
  moreover have "hub_reachable (sqlite_repository env) X (sqlite_inv env) (rn_hub run)"
    unfolding ok(6) by (rule start_hub_reachable [where invar = "sqlite_inv env", OF inv])
  moreover have "schema' = migrated migrations (length migrations)" using OpenRepository_ok [OF ok(3)] assms(4-6) by simp
  moreover have "config_ok (rn_cfg run)" unfolding ok(1) by (rule FromEnv_config_ok)
  ultimately show ?thesis
    using inv newAuthService_origins [OF ok(2)] start_fanout_ok [OF ok(5)] start_hub_instance [of s'] ok(6) by auto
qed

theorem main_starts_witness:
  "\<exists>(run :: (unit, DB) running) schema'.
     main_start (sample_start \<lparr>ParseFloat = (\<lambda>_. None), ParseDuration = (\<lambda>_. None)\<rparr>) empty_schema sample_redis_metrics = (Inr run, schema') \<and>
     config_ok (rn_cfg run) \<and> schema' = migrated migrations 6 \<and>
     hub_reachable (sqlite_repository sample_sqlite_env) sample_rate (sqlite_inv sample_sqlite_env) (rn_hub run)"
proof -
  let ?E = "sample_start \<lparr>ParseFloat = (\<lambda>_. None), ParseDuration = (\<lambda>_. None)\<rparr>"
  obtain run :: "(unit, DB) running" and schema' where
    r: "main_start ?E empty_schema sample_redis_metrics = (Inr run, schema')" "rn_backend run = SQLiteBackend ''./chatster.db''"
    using sample_main by blast
  have e: "st_repository ?E (rn_backend run) = (sqlite_repository sample_sqlite_env, sample_db)" by (simp add: sample_start_def)
  have l: "length migrations = 6" by (simp add: migrations_def)
  have "empty_schema = migrated migrations 0" by (simp add: migrated_0)
  from main_starts [OF r(1) e sample_db_inv r(2) le0 this, of sample_rate] show ?thesis using r(1) l by auto
qed

text \<open>
  C28: Serving any HTTP request, on any route, with every way an upgrade can end and whatever the
  other goroutines make of the hub during the handshake, is a run of the hub's machine, and only a
  request for /ws can change the hub or the upgrade limiter: so every invariant of the machine holds
  for the served program.
\<close>

theorem request_is_a_run:
  assumes "mux_ok (srv_mux S)" "\<forall>w conn. rq_up e w r = Inr conn \<longrightarrow> conn = \<lparr>conn_sent = [], conn_closed = False\<rparr>"
    and "\<forall>g. (hub_step (srv_R S) (srv_X S) invar)\<^sup>*\<^sup>* g (rq_later e g)"
    and "h_heap (rq_later e (ws_upgrade ''ok'' h)) (rq_addr e) = None" "mountWithAuth S e r (wsRL, h) = Some (out, wsRL', h')"
  shows "(hub_step (srv_R S) (srv_X S) invar)\<^sup>*\<^sup>* h h' \<and> (req_Path r \<noteq> ''/ws'' \<longrightarrow> h' = h \<and> wsRL' = wsRL)"
  using mountWithAuth_run [OF _ _ assms(4,5)] mountWithAuth_http [OF assms(1) _ assms(5)] assms(2,3) by blast

theorem request_is_a_run_witness:
  "\<exists>h'. mountWithAuth sample_server sample_request_env ws_request (None, start_hub sample_pg) = Some (Hijacked, None, h') \<and>
   (hub_step (postgres_repository sample_pg_env) sample_rate (pg_inv sample_pg_env))\<^sup>*\<^sup>* (start_hub sample_pg) h'"
proof -
  obtain h' where u: "mountWithAuth sample_server sample_request_env ws_request (None, start_hub sample_pg) = Some (Hijacked, None, h')"
    using sample_served by blast
  have "mux_ok (srv_mux sample_server)" using sample_mux_ok by (simp add: sample_server_def)
  moreover have "\<forall>w conn. rq_up (sample_request_env :: (unit, PostgresDB) request_env) w ws_request = Inr conn \<longrightarrow>
      conn = \<lparr>conn_sent = [], conn_closed = False\<rparr>"
    by (simp add: sample_request_env_def sample_up_def)
  moreover have "\<forall>g. (hub_step (srv_R sample_server) (srv_X sample_server) (pg_inv sample_pg_env))\<^sup>*\<^sup>* g (rq_later sample_request_env g)"
    by (simp add: sample_request_env_def)
  moreover have "h_heap (rq_later sample_request_env (ws_upgrade ''ok'' (start_hub sample_pg)))
      (rq_addr (sample_request_env :: (unit, PostgresDB) request_env)) = None"
    by (simp add: start_hub_def newHub_def sample_request_env_def)
  ultimately show ?thesis using request_is_a_run [OF _ _ _ _ u, of "pg_inv sample_pg_env"] u by (simp add: sample_server_def)
qed

text \<open>
  C29: End to end, a request whose Origin is not allowed reaches no handler: a path that is not
  clean is answered by the router with its redirect, status 301, before any route is matched; every
  other request is answered by the middleware with 403, by the router when no route matches, or, for
  /ws, by a refusal of serveWs. The upgrade limiter and the hub's clients, store and queues are
  untouched except that a refusal at /ws is counted (and spends the address's tokens).
\<close>

theorem foreign_origins_stopped:
  assumes "mux_ok (srv_mux S)" "\<not> OriginAllowed (srv_cfg S) r" "mountWithAuth S e r (wsRL, h) = Some (out, wsRL', h')"
  shows "(\<exists>w. out = Responded w \<and>
      (if mux_cleanPath (srv_mux S) (req_Path r) \<noteq> req_Path r
       then \<not> (rooted (req_Path r) \<and> Clean (req_Path r) = req_Path r) \<and> w_status w = Some 301 \<and>
         w = mux_Redirect (srv_mux S) (mux_cleanPath (srv_mux S) (req_Path r)) new_writer r
       else req_Path r \<noteq> ''/ws'' \<longrightarrow>
         w = mux_NotFound (srv_mux S) new_writer r \<or>
         w = writeJSONError 403 ''origin_forbidden'' ''The request origin is not allowed.'' new_writer)) \<and>
    (h' = h \<or> (\<exists>label. req_Path r = ''/ws'' \<and> h' = ws_upgrade label h)) \<and> (req_Path r \<noteq> ''/ws'' \<longrightarrow> wsRL' = wsRL)"
proof (cases "req_Path r = ''/ws''")
  case True
  have c: "mux_cleanPath (srv_mux S) (req_Path r) = req_Path r" using clean_ws assms(1) True by (simp add: mux_ok_def)
  have g: "cors_gate (srv_cfg S) w r = Inr w" for w using True by (simp add: cors_gate_def)
  have "mux_route (srv_mux S) (mount_routes (srv_cfg S)) (req_Path r) = Some WsRoute"
    using mux_route_ws [OF assms(1)] True by blast
  then obtain res where res: "serveWs (srv_R S) (srv_X S) (srv_cfg S) (srv_L S) (srv_auth S) (rq_now e) (rq_up e) (rq_later e) (rq_newID e)
      (rq_pick e) (rq_eventID e) (rq_closeOK e) (rq_addr e) wsRL new_writer r h = Some (res, wsRL', h')"
      "res = None \<longleftrightarrow> out = Hijacked" "res \<noteq> None \<longrightarrow> out = Responded (the res)"
    using assms(3) g c by (auto simp: mountWithAuth_def Let_def split: option.splits)
  show ?thesis using serveWs_denied [OF assms(2) res(1)] res(2,3) True c by auto
next
  case False
  have g: "cors_gate (srv_cfg S) new_writer r =
      Inl (writeJSONError 403 ''origin_forbidden'' ''The request origin is not allowed.'' new_writer)"
    using assms(2) False by (auto simp: cors_gate_def OriginAllowed_iff Let_def)
  note a = mountWithAuth_http [OF assms(1) False assms(3)]
  show ?thesis
  proof (cases "mux_cleanPath (srv_mux S) (req_Path r) = req_Path r")
    case True
    then show ?thesis using a g False by (auto split: option.splits)
  next
    case unclean: False
    then have "\<not> (rooted (req_Path r) \<and> Clean (req_Path r) = req_Path r)" using assms(1) by (auto simp: mux_ok_def)
    then show ?thesis using a unclean False assms(1) by (simp add: mux_ok_def)
  qed
qed

theorem foreign_origins_stopped_witness:
  "\<exists>w wsRL' h'. mountWithAuth sample_server sample_request_env
     (sample_request\<lparr>req_Path := ''/a/../health'', req_Header := [(''Origin'', ''https://evil.example'')]\<rparr>)
       (None, start_hub sample_pg) = Some (Responded w, wsRL', h') \<and> w_status w = Some 301"
proof -
  let ?r = "sample_request\<lparr>req_Path := ''/a/../health'', req_Header := [(''Origin'', ''https://evil.example'')]\<rparr>"
  have o: "\<not> OriginAllowed (srv_cfg sample_server) ?r"
    by (simp add: OriginAllowed_iff sample_server_def sample_config_def Values_Get_def)
  have m: "mux_ok (srv_mux sample_server)" using sample_mux_ok by (simp add: sample_server_def)
  have "mux_route (srv_mux sample_server) (mount_routes (srv_cfg sample_server)) (req_Path ?r) \<noteq> Some WsRoute"
    using mux_route_ws [OF m] by simp
  from mountWithAuth_answers [OF this] obtain out where
    u: "mountWithAuth sample_server sample_request_env ?r (None, start_hub sample_pg) = Some (out, None, start_hub sample_pg)" by blast
  have "mux_cleanPath sample_mux ''/a/../health'' = ''/health''" by code_simp
  then show ?thesis using foreign_origins_stopped [OF m o u] u by (auto simp: sample_server_def)
qed

text \<open>
  C30: Static serving never leaves its directory: whatever the URL path and whatever files exist, a
  file that is opened lies under the cleaned static directory, reached through proper path elements
  only (no empty, dot or double-dot element); and for a path with a leading slash, a file the file
  server opens is the one the handler found to be a regular file.
\<close>

theorem static_files_confined:
  assumes "dir \<noteq> []" "static_file (staticHandler dir stat r) r = Some f"
  shows "rooted f = rooted dir \<and>
    (\<exists>rest. path_elems f = path_elems dir @ rest \<and>
       list_all (\<lambda>e. e \<noteq> [] \<and> e \<noteq> ''.'' \<and> e \<noteq> ''..'' \<and> CHR ''/'' \<notin> set e) rest) \<and>
    (rooted (req_Path r) \<and> staticHandler dir stat r = FileServer dir \<longrightarrow> stat f = Some False)"
  using static_file_under [OF assms] static_file_exists [of r dir stat dir f] assms(2)
  by (auto simp: under_def proper_def [abs_def])

theorem static_files_confined_witness:
  "static_file (staticHandler ''/srv/web'' (\<lambda>f. if f = ''/srv/web/etc/passwd'' then Some False else None)
       (sample_request\<lparr>req_Path := ''/../../etc/passwd''\<rparr>)) (sample_request\<lparr>req_Path := ''/../../etc/passwd''\<rparr>) =
     Some ''/srv/web/etc/passwd'' \<and>
   (\<exists>rest. path_elems ''/srv/web/etc/passwd'' = path_elems ''/srv/web'' @ rest)"
proof -
  let ?r = "sample_request\<lparr>req_Path := ''/../../etc/passwd''\<rparr>"
  have "static_file (staticHandler ''/srv/web'' (\<lambda>f. if f = ''/srv/web/etc/passwd'' then Some False else None) ?r) ?r =
      Some ''/srv/web/etc/passwd''" by code_simp
  then show ?thesis using static_files_confined by blast
qed

section \<open>Sessions and authorization\<close>

text \<open>
  C31: A cookie issued by Exchange is accepted by Authenticate, as the same principal with its
  expiry cut to whole seconds, exactly until that expiry, and is answered with the expired-session
  error afterwards.
\<close>

theorem exchange_then_authenticate:
  assumes "auth_New L cfg = Inr s" "Service_Exchange L (Some s) t0 (Inr raw) token = Inr (p, ck)"
    and "length raw = 16" "list_all (\<lambda>b. b < 256) raw"
    and "payload_codec_ok L (payload_of p t0)" "\<forall>k m. length (hmac_sha256 L k m) = 32"
    and "clock_ok t0" "instant (Truncate_second t0) \<le> instant t1 + minute"
    and "Request_Cookie r CookieName = Some (ck_Value ck)"
  shows "Service_Authenticate L (Some s) t1 r =
    (if instant t1 < instant (Truncate_second (p_ExpiresAt p))
     then Inr (p\<lparr>p_ExpiresAt := Truncate_second (p_ExpiresAt p)\<rparr>) else Inl ErrExpiredSession)"
  by (rule session_roundtrip [OF assms])

theorem exchange_then_authenticate_witness:
  "Service_Authenticate sample_auth_lib (Some sample_service) (Add sample_now (30 * minute))
      (sample_request\<lparr>req_Cookies := [(CookieName, sample_cookie_value)]\<rparr>) = Inr sample_principal \<and>
   Service_Authenticate sample_auth_lib (Some sample_service) (Add sample_now (61 * minute))
      (sample_request\<lparr>req_Cookies := [(CookieName, sample_cookie_value)]\<rparr>) = Inl ErrExpiredSession"
proof -
  let ?r = "sample_request\<lparr>req_Cookies := [(CookieName, sample_cookie_value)]\<rparr>"
  have c: "length sample_raw = 16" "list_all (\<lambda>b. b < 256) sample_raw" "clock_ok sample_now"
    "instant (Truncate_second sample_now) \<le> instant (Add sample_now (30 * minute)) + minute"
    "instant (Truncate_second sample_now) \<le> instant (Add sample_now (61 * minute)) + minute"
    "Truncate_second (p_ExpiresAt sample_principal) = p_ExpiresAt sample_principal"
    "instant (Add sample_now (30 * minute)) < instant (p_ExpiresAt sample_principal)"
    "\<not> instant (Add sample_now (61 * minute)) < instant (p_ExpiresAt sample_principal)"
    by code_simp+
  have codec: "payload_codec_ok sample_auth_lib (payload_of sample_principal sample_now)" by code_simp
  have mac: "\<forall>k m. length (hmac_sha256 sample_auth_lib k m) = 32" by (rule sample_hmac_length)
  have req: "Request_Cookie ?r CookieName = Some (ck_Value sample_cookie)"
    by (simp add: Request_Cookie_def sample_cookie_def)
  note rt = exchange_then_authenticate [OF sample_auth_New sample_exchange c(1,2) codec mac c(3) _ req]
  show ?thesis using rt [OF c(4)] rt [OF c(5)] c(6-8) by simp
qed

text \<open>
  C32: In session mode, every principal Authenticate accepts comes from a cookie whose signature is
  the HMAC, under the service's secret, of the text in front of it; the session identifier is well
  formed, the session has not expired, was not issued more than a minute in the future, and does not
  outlive the configured lifetime by more than a second.
\<close>

theorem authenticate_accepts_only_signed:
  assumes "Service_Authenticate L (Some s) clk r = Inr p" "Service_Mode (Some s) \<noteq> ModeAnonymous"
  shows "\<exists>encoded signature raw rest payload.
    Request_Cookie r CookieName = Some (encoded @ CHR ''.'' # signature) \<and>
    RawURL_DecodeString signature = Some (hmac_sha256 L (sv_secret s) encoded) \<and>
    RawURL_DecodeString encoded = Some raw \<and> decode_payload L raw = Some (payload, rest) \<and> json_eof rest \<and>
    p_SessionID p = sp_SessionID payload \<and> validOpaqueID (p_SessionID p) ''sid_'' \<and>
    instant clk < instant (p_ExpiresAt p) \<and>
    instant (time_Unix (sp_IssuedAt payload)) \<le> instant clk + minute \<and>
    Sub (p_ExpiresAt p) (time_Unix (sp_IssuedAt payload)) \<le> sv_ttl s + second"
  using assms
proof (cases rule: Authenticate_session)
  case (1 v payload t)
  from 1(3) obtain encoded signature raw rest where
    "v = encoded @ CHR ''.'' # signature" "RawURL_DecodeString signature = Some (hmac_sha256 L (sv_secret s) encoded)"
    "RawURL_DecodeString encoded = Some raw" "decode_payload L raw = Some (payload, rest)" "json_eof rest"
    by (rule Service_decode_signed)
  with 1(1,5,6,7,9,10) show ?thesis by (intro exI [of _ encoded] exI [of _ signature] exI [of _ raw] exI [of _ rest]
      exI [of _ payload]) simp
qed

theorem authenticate_accepts_only_signed_witness:
  "\<exists>encoded signature. sample_cookie_value = encoded @ CHR ''.'' # signature \<and>
    RawURL_DecodeString signature = Some (hmac_sha256 sample_auth_lib (sv_secret sample_service) encoded)"
proof -
  let ?r = "sample_request\<lparr>req_Cookies := [(CookieName, sample_cookie_value)]\<rparr>"
  have "Service_Authenticate sample_auth_lib (Some sample_service) (Add sample_now minute) ?r = Inr sample_principal"
    by (rule sample_authenticate)
  from authenticate_accepts_only_signed [OF this] show ?thesis
    by (auto simp: ModeSession_def ModeAnonymous_def Request_Cookie_def CookieName_def)
qed

text \<open>
  C33: Authorize succeeds exactly when the request authenticates and the requested room, once
  normalized, is one of the principal's granted rooms, or the service runs in anonymous mode; the
  principal it returns is the authenticated one, and any granted room is canonical.
\<close>

theorem authorize_grants:
  "Service_Authorize L so clk r room0 = Inr p \<longleftrightarrow>
     Service_Authenticate L so clk r = Inr p \<and>
     (\<exists>room. NormalizeRoom room0 = Inr room \<and>
        (p_Anonymous p \<and> Service_Mode so = ModeAnonymous \<or>
         room \<in> set (p_Rooms p) \<and> Principal_Authenticated p \<and> list_all canonical_room (p_Rooms p)))"
proof
  assume a: "Service_Authorize L so clk r room0 = Inr p"
  then have b: "Service_Authenticate L so clk r = Inr p" by (simp add: Authorize_ok_iff)
  from Authenticate_principal_ok [OF b] a show "Service_Authenticate L so clk r = Inr p \<and>
     (\<exists>room. NormalizeRoom room0 = Inr room \<and>
        (p_Anonymous p \<and> Service_Mode so = ModeAnonymous \<or>
         room \<in> set (p_Rooms p) \<and> Principal_Authenticated p \<and> list_all canonical_room (p_Rooms p)))"
    by (auto simp: Authorize_ok_iff anonymous_principal_def Principal_Authenticated_def)
qed (auto simp: Authorize_ok_iff)

text \<open>
  C34: Every service New returns is either anonymous or has a secret of at least 32 bytes, a
  lifetime between one minute and 24 hours, and a credential table that answers exactly the
  configured tokens, each with its normalized, well-formed principal.
\<close>

theorem auth_configuration_checked:
  assumes "auth_New L cfg = Inr s"
  shows "sv_mode s = ModeAnonymous \<or>
    sv_mode s = ModeSession \<and> 32 \<le> length (sv_secret s) \<and> minute \<le> sv_ttl s \<and> sv_ttl s \<le> 24 * hour \<and>
    (\<exists>cs. decodeCredentials L (ac_CredentialsJSON cfg) = Inr cs \<and>
       (\<forall>h t. sv_credentials s h = Some t \<longleftrightarrow> (\<exists>c \<in> set cs. h = sha256_Sum256 L (cr_Token c) \<and>
          normalizePrincipal (cr_UserID c) (cr_DisplayName c) (cr_Rooms c) = Inr t)) \<and>
       (\<forall>h t. sv_credentials s h = Some t \<longrightarrow> template_ok t))"
proof (cases "sv_mode s = ModeAnonymous")
  case False
  obtain cs where cs: "decodeCredentials L (ac_CredentialsJSON cfg) = Inr cs"
    "load_credentials L cs Map.empty = Inr (sv_credentials s)" "sv_mode s = ModeSession"
    "minSecretBytes \<le> length (sv_secret s)" "minSessionTTL \<le> sv_ttl s" "sv_ttl s \<le> maxSessionTTL"
    using assms False by (rule auth_New_session)
  have "\<forall>h t. sv_credentials s h = Some t \<longrightarrow> template_ok t"
    using auth_New_ok [OF assms] False by (simp add: service_ok_def)
  with cs load_credentials_lookup [OF cs(2)] show ?thesis
    by (auto simp: minSecretBytes_def minSessionTTL_def maxSessionTTL_def)
qed simp

theorem auth_configuration_checked_witness:
  "32 \<le> length (sv_secret sample_service) \<and> minute \<le> sv_ttl sample_service \<and> sv_ttl sample_service \<le> 24 * hour"
  using auth_configuration_checked [OF sample_auth_New]
  by (simp add: sample_service_def ModeAnonymous_def)

text \<open>
  C35: normalizePrincipal is a normal form: what it returns is well formed (identifier, display
  name, one to 64 distinct canonical rooms, the normal forms of the rooms given), and normalizing it
  again changes nothing, so the principal in a cookie is the principal of the configuration.
\<close>

theorem normalize_principal_canonical:
  assumes "normalizePrincipal u d rooms = Inr t"
  shows "template_ok t \<and> Inr ` set (pt_Rooms t) = NormalizeRoom ` set rooms \<and>
    normalizePrincipal (pt_UserID t) (pt_DisplayName t) (pt_Rooms t) = Inr t"
proof -
  have "normalize_rooms rooms (set []) [] = Inr (pt_Rooms t)"
    using assms by (auto simp: normalizePrincipal_def Let_def split: if_splits sum.splits)
  from normalize_rooms_spec [OF this] normalizePrincipal_ok [OF assms] normalizePrincipal_id show ?thesis by simp
qed

theorem normalize_principal_canonical_witness:
  "Inr ` set (pt_Rooms sample_template) = NormalizeRoom ` {''lobby'', ''den''}"
proof -
  have "normalizePrincipal ''u1'' ''Ada'' [''lobby'', ''den''] = Inr sample_template"
    using normalizePrincipal_id [OF sample_template_ok] by (simp add: sample_template_def)
  from normalize_principal_canonical [OF this] show ?thesis by simp
qed

text \<open>
  C36: POST /api/session sets a cookie only when the service is in session mode, the origin is
  allowed and the bearer token is one the credential table answers; the cookie is HttpOnly,
  SameSite=Strict and expires with the session.
\<close>

theorem session_cookie_issued:
  assumes "req_Method r = ''POST''" "ck \<in> set (w_cookies (sessionHandler cfg L so clk rnd new_writer r))"
  shows "Service_Mode so = ModeSession \<and> OriginAllowed cfg r \<and>
    (\<exists>s token p. so = Some s \<and> bearerToken (Values_Get (req_Header r) ''Authorization'') = Some token \<and>
       sv_credentials s (sha256_Sum256 L token) \<noteq> None \<and> Service_Exchange L so clk rnd token = Inr (p, ck) \<and>
       ck_HttpOnly ck \<and> ck_SameSite ck = SameSiteStrictMode \<and> ck_Expires ck = p_ExpiresAt p)"
proof -
  obtain token p where t: "Service_Mode so = ModeSession" "OriginAllowed cfg r"
    "bearerToken (Values_Get (req_Header r) ''Authorization'') = Some token"
    "Service_Exchange L so clk rnd token = Inr (p, ck)"
    using assms by (auto simp: sessionHandler_def Let_def split: if_splits option.splits sum.splits prod.splits)
  moreover obtain s where s: "so = Some s" using t(4) by (cases so) (auto simp: Service_Exchange_def)
  from t(4) [unfolded s] obtain tm raw where "sv_credentials s (sha256_Sum256 L token) = Some tm"
    "ck_HttpOnly ck" "ck_SameSite ck = SameSiteStrictMode" "ck_Expires ck = p_ExpiresAt p"
    by (rule Exchange_ok)
  ultimately show ?thesis using s by auto
qed

theorem session_cookie_issued_witness:
  "bearerToken (''Bearer '' @ sample_token) = Some sample_token \<and> ck_HttpOnly sample_cookie"
proof -
  let ?r = "sample_request\<lparr>req_Method := ''POST'', req_Header := [(''Authorization'', ''Bearer '' @ sample_token)]\<rparr>"
  have t: "TrimSpace (''Bearer '' @ sample_token) = ''Bearer '' @ sample_token" by (simp add: sample_token_def ascii_text)
  have b: "bearerToken (''Bearer '' @ sample_token) = Some sample_token" unfolding bearerToken_def t by code_simp
  have "OriginAllowed (FromEnv sample_numbers (\<lambda>_. [])) ?r" by (simp add: OriginAllowed_iff Values_Get_def)
  then have "sample_cookie \<in> set (w_cookies (sessionHandler (FromEnv sample_numbers (\<lambda>_. [])) sample_auth_lib
      (Some sample_service) sample_now (Inr sample_raw) new_writer ?r))"
    using b sample_exchange by (simp add: sessionHandler_def Values_Get_def)
  from session_cookie_issued [OF _ this] b show ?thesis by (auto simp: Values_Get_def)
qed

section \<open>Rooms, cursors and events\<close>

text \<open>
  C37: NormalizeRoom returns a room exactly when the trimmed name is empty (the default room) or its
  code points, lower-cased one by one, spell a canonical name; canonical names are exactly its fixed
  points.
\<close>

theorem normalize_room_spec:
  "(NormalizeRoom s = Inr r \<longleftrightarrow>
     TrimSpace s = [] \<and> r = DefaultRoom \<or>
     TrimSpace s \<noteq> [] \<and> canonical_room r \<and> map rune_ToLower (runes (TrimSpace s)) = map byte r) \<and>
   (canonical_room r \<longleftrightarrow> NormalizeRoom r = Inr r)"
  using NormalizeRoom_spec [of s r] canonical_room_iff [of r] by blast

text \<open>
  C38: The cursor encoded for a stored message decodes to the position of that message, in UTC, and
  a cursor is accepted only with the current version, a canonical room, a positive identifier, a
  timestamp and at most the maximal size, and matches only the room it names.
\<close>

theorem history_cursor_roundtrip:
  "(canonical_room room \<and> 1 \<le> db_ID m \<and> \<not> IsZero (db_Timestamp m) \<and> cursor_codec_ok J (cursor_of room m) \<longrightarrow>
      (\<exists>raw. encodeHistoryCursor J room m = Inr raw \<and> decodeHistoryCursor J raw = Inr (cursor_of room m))) \<and>
   (decodeHistoryCursor J raw' = Inr c \<and> canonical_room room \<longrightarrow>
      (historyCursorRoomMatches c room \<longleftrightarrow> hc_Room c = room) \<and> hc_Version c = 1 \<and> canonical_room (hc_Room c) \<and> 1 \<le> hc_ID c \<and> \<not> IsZero (hc_Timestamp c) \<and>
      zone (hc_Timestamp c) = UTC \<and> length raw' \<le> maxHistoryCursorSize)"
  using cursor_roundtrip [of room m J] decodeHistoryCursor_valid [of J raw' c]
    historyCursorRoomMatches_canonical [of c room] historyCursorVersion_def by metis

theorem history_cursor_roundtrip_witness:
  "\<exists>raw. encodeHistoryCursor sample_codec ''lobby'' (read_row sample_sqlite_env sample_db (sample_row 1 ''lobby'' 5)) = Inr raw \<and>
    decodeHistoryCursor sample_codec raw =
      Inr (cursor_of ''lobby'' (read_row sample_sqlite_env sample_db (sample_row 1 ''lobby'' 5)))"
proof -
  let ?m = "read_row sample_sqlite_env sample_db (sample_row 1 ''lobby'' 5)"
  have "1 \<le> db_ID ?m" "\<not> IsZero (db_Timestamp ?m)" "cursor_codec_ok sample_codec (cursor_of ''lobby'' ?m)" by code_simp+
  then show ?thesis using history_cursor_roundtrip [of "''lobby''" ?m sample_codec "[]" undefined] by simp
qed

section \<open>Configuration and limits\<close>

text \<open>
  C39: The upgrade limiter refines one independent token bucket per address: among any interleaving
  of attempts, the answers one address gets are those of a fresh bucket of the configured rate and
  burst (at least one) that sees only that address's attempts.
\<close>

theorem upgrade_limiter_isolation:
  "map snd (filter (\<lambda>a. fst a = ip) (run_upgrades X (NewWSUpgrade rps burst) attempts)) =
     run_bucket X (rate_NewLimiter X rps (max 1 burst)) (map fst (filter (\<lambda>a. snd a = ip) attempts))"
  by (simp add: run_upgrades_bucket bucket_of_new)

section \<open>The load generator\<close>

text \<open>
  C40: The report of a load run is right: every message text the senders write is parsed back to its
  own numbers. When the readers receive only messages of this run and clients * messages * clients
  fits an int64, the reported errors are the number of failed writes (a sender stops at its first
  one), the loss is exactly the number of deliveries missing over all readers, duplicates and
  foreign frames not counted, and the run exits without an error exactly when no write failed and,
  if asked for, every reader got every message. When at least one and at most 2^53 deliveries were
  measured, the reported percentiles exist and are ordered up to the maximum, in spite of floating-
  point rounding of their index.
\<close>

theorem load_report_exact:
  assumes "wsload_main E clients perClient failOnLoss = Inr (r, exit)"
    and "\<forall>i < nat clients. reader_keys (le_frames E i) \<subseteq> sent_keys E clients perClient"
    and "clients * perClient * clients < 2 ^ 63"
    and "\<forall>v \<in> {t, c, j}. - (2 ^ 63) \<le> v \<and> v < 2 ^ 63"
  shows "Sscanf_wsload (wsload_content t c j) = Some (t, c, j) \<and>
    lr_Errors r = int (card {i. i < nat clients \<and> (\<exists>j < nat perClient. \<not> le_writeOK E i j)}) \<and>
    lr_Lost r = int (\<Sum>i < nat clients. card (sent_keys E clients perClient - reader_keys (le_frames E i))) \<and>
    (exit = ExitOK \<longleftrightarrow> (\<forall>i < nat clients. \<forall>j < nat perClient. le_writeOK E i j) \<and>
       (failOnLoss \<longrightarrow> (\<forall>i < nat clients. reader_keys (le_frames E i) = sent_keys E clients perClient))) \<and>
    (0 < lr_Delivered r \<and> lr_Delivered r \<le> 2 ^ 53 \<longrightarrow>
       (\<exists>p q s m. lr_P50 r = Some p \<and> lr_P95 r = Some q \<and> lr_P99 r = Some s \<and> lr_Max r = Some m \<and> p \<le> q \<and> q \<le> s \<and> s \<le> m))"
proof -
  note ok = wsload_main_ok [OF assms(1)]
  have keys: "reader_keys (le_frames E i) \<subseteq> sent_keys E clients perClient" if "i < nat clients" for i using assms(2) that by blast
  have "\<exists>p q s m. lr_P50 r = Some p \<and> lr_P95 r = Some q \<and> lr_P99 r = Some s \<and> lr_Max r = Some m \<and> p \<le> q \<and> q \<le> s \<and> s \<le> m"
    if "0 < lr_Delivered r" "lr_Delivered r \<le> 2 ^ 53" using ok that load_report_percentiles by metis
  moreover have "Sscanf_wsload (wsload_content t c j) = Some (t, c, j)" by (rule Sscanf_wsload_content) (use assms(4) in auto)
  ultimately show ?thesis
    using lost_exact [OF assms(1) keys assms(3)] exit_exact [OF assms(1) keys assms(3)] errors_exact [OF assms(1)]
    by (simp add: failing_def)
qed

theorem load_report_exact_witness:
  "\<exists>r exit. wsload_main sample_load 2 1 True = Inr (r, exit) \<and> lr_Lost r = 1 \<and> lr_Errors r = 0 \<and> exit = MissingDeliveries \<and>
     lr_P50 r = Some 4 \<and> lr_Max r = Some 9 \<and> Sscanf_wsload (wsload_content 100 1 0) = Some (100, 1, 0)"
proof -
  obtain r exit where r: "wsload_main sample_load 2 1 True = Inr (r, exit)" "lr_Lost r = 1"
      "exit = MissingDeliveries" "lr_P50 r = Some 4" "lr_Max r = Some 9" using sample_load_run by blast
  have k: "\<forall>i < nat 2. reader_keys (le_frames sample_load i) \<subseteq> sent_keys sample_load 2 1" using sample_load_keys by simp
  have s: "(2 :: int) * 1 * 2 < 2 ^ 63" by simp
  have "\<forall>v \<in> {100, 1, 0 :: int}. - (2 ^ 63) \<le> v \<and> v < 2 ^ 63" by simp
  note a = load_report_exact [OF r(1) k s this]
  have "{i. i < nat 2 \<and> (\<exists>j < nat 1. \<not> le_writeOK sample_load i j)} = {}" by (simp add: sample_load_def)
  then have "lr_Errors r = 0" using a by simp
  then show ?thesis using a r by blast
qed

end
